(* ===== verification/Go_Prelude.thy ===== *)
theory Go_Prelude
  imports Main "HOL-Library.Multiset"
begin

text \<open>
  Shared ground of the development: Go's 64-bit integers, Go error values with their wrap
  chains, the decimal conversions of \<^verbatim>\<open>strconv\<close>, \<^verbatim>\<open>strings.TrimSpace\<close>, and generic
  lemmas on lists and multisets that the component theories use.

  A Go \<^verbatim>\<open>int\<close> or \<^verbatim>\<open>int64\<close> is an \<open>int\<close> inside the range \<open>in64\<close>; every arithmetic
  operation of the source that could leave the range is wrapped by \<open>i64\<close>. A Go string is a
  list of bytes. A Go \<^verbatim>\<open>error\<close> is \<open>goerr option\<close>, \<open>None\<close> for \<^verbatim>\<open>nil\<close>; a function that
  returns a value and an error returns \<open>goerr + 'a\<close>.
\<close>

text \<open>Collections: the effect of Redis commands on the balance read model, and the definitions that put
  the consumers together.\<close>

named_theorems balance_rules
named_theorems wiring

section \<open>Machine integers\<close>

definition i64 :: "int \<Rightarrow> int" where
  "i64 x = signed_take_bit 63 x"

definition i32 :: "int \<Rightarrow> int" where
  "i32 x = signed_take_bit 31 x"

definition in64 :: "int \<Rightarrow> bool" where
  "in64 x \<longleftrightarrow> - 9223372036854775808 \<le> x \<and> x \<le> 9223372036854775807"

lemma i64_id: "in64 x \<Longrightarrow> i64 x = x"
  unfolding i64_def in64_def by (rule signed_take_bit_int_eq_self) simp_all

lemma in64_i64: "in64 (i64 x)"
proof -
  have "- (2 ^ 63) \<le> signed_take_bit 63 x"
    by (rule signed_take_bit_int_greater_eq_minus_exp)
  moreover have "signed_take_bit 63 x < 2 ^ 63"
    by (rule signed_take_bit_int_less_exp)
  ultimately show ?thesis by (simp add: i64_def in64_def)
qed

text \<open>Go divides towards zero.\<close>

definition go_div :: "int \<Rightarrow> int \<Rightarrow> int" where
  "go_div a b = sgn a * sgn b * (\<bar>a\<bar> div \<bar>b\<bar>)"

lemma go_div_nonneg: "0 \<le> a \<Longrightarrow> 0 < b \<Longrightarrow> go_div a b = a div b"
  by (cases "a = 0") (auto simp: go_div_def)

section \<open>Errors\<close>

text \<open>
  \<open>Wrapf m e\<close> is \<^verbatim>\<open>fmt.Errorf("m: %w", e)\<close>. \<open>PgError c\<close> is a \<^verbatim>\<open>*pgconn.PgError\<close> with
  SQLSTATE \<open>c\<close>; \<open>OtherErr\<close> is any error of a library that the code only passes on.
\<close>

datatype goerr =
    SqlErrNoRows
  | PgError string
  | RedisNil
  | CtxCanceled
  | CtxDeadlineExceeded
  | NatsNoResponders
  | ErrUnauthorized
  | ErrInsufficientFunds
  | ErrReceiverNotFound
  | ErrSelfTransfer
  | ErrServiceUnavailable
  | OtherErr string
  | Wrapf string goerr

fun errors_Is :: "goerr \<Rightarrow> goerr \<Rightarrow> bool" where
  "errors_Is (Wrapf m e) t \<longleftrightarrow> Wrapf m e = t \<or> errors_Is e t"
| "errors_Is e t \<longleftrightarrow> e = t"

lemma errors_Is_refl [simp]: "errors_Is e e"
  by (cases e) simp_all

end
