(* ===== verification/Go_Json.thy ===== *)
theory Go_Json
  imports Go_Strings
begin

text \<open>
  JSON values and the decoding rules of \<^verbatim>\<open>encoding/json\<close> that the services rely on. A raw message
  is \<open>json option\<close>: \<open>None\<close> when the bytes are empty or are no JSON text, otherwise the value
  they denote. An integer literal is \<open>JInt\<close>, a number with a fraction or an exponent is \<open>JFrac\<close>
  with its literal. Members of an object keep their order, because a later member overwrites an
  earlier one of the same name.

  \<open>unmarshal_obj\<close> is \<^verbatim>\<open>json.Unmarshal\<close> into a struct (\<open>None\<close>: an error was returned): members
  are taken in order, a member whose name equals a field name, or else equals it under case
  folding, sets that field, other members are skipped, \<^verbatim>\<open>null\<close> leaves the target as it was.
  \<open>unmarshal_smap\<close> is \<^verbatim>\<open>json.Unmarshal\<close> into a \<^verbatim>\<open>map[string]string\<close>.
\<close>

datatype json =
    JNull
  | JBool bool
  | JInt int
  | JFrac string
  | JStr string
  | JArr "json list"
  | JObj "(string \<times> json) list"

type_synonym raw_message = "json option"

definition ascii_lower :: "char \<Rightarrow> char" where
  "ascii_lower c =
     (if 65 \<le> (of_char c :: nat) \<and> (of_char c :: nat) \<le> 90 then char_of ((of_char c :: nat) + 32) else c)"

text \<open>Case folding of member names; U+017F folds to \<^verbatim>\<open>s\<close> and U+212A to \<^verbatim>\<open>k\<close>.\<close>

function foldName :: "string \<Rightarrow> string" where
  "foldName [] = []"
| "foldName (c # cs) =
     (if starts_with [CHR 0xC5, CHR 0xBF] (c # cs) then CHR ''s'' # foldName (drop 1 cs)
      else if starts_with [CHR 0xE2, CHR 0x84, CHR 0xAA] (c # cs) then CHR ''k'' # foldName (drop 2 cs)
      else ascii_lower c # foldName cs)"
  by pat_completeness auto
termination
  by (relation "measure length") auto

definition match_field :: "string list \<Rightarrow> string \<Rightarrow> string option" where
  "match_field names k =
     (if k \<in> set names then Some k else find (\<lambda>n. foldName n = foldName k) names)"

fun set_members ::
  "string list \<Rightarrow> (string \<Rightarrow> json \<Rightarrow> 'a \<Rightarrow> 'a option) \<Rightarrow> 'a \<Rightarrow> (string \<times> json) list \<Rightarrow> 'a option" where
  "set_members names setf z [] = Some z"
| "set_members names setf z ((k, v) # ms) =
     (case match_field names k of
        None \<Rightarrow> set_members names setf z ms
      | Some n \<Rightarrow> (case setf n v z of
                    None \<Rightarrow> None
                  | Some z' \<Rightarrow> set_members names setf z' ms))"

definition unmarshal_obj ::
  "string list \<Rightarrow> (string \<Rightarrow> json \<Rightarrow> 'a \<Rightarrow> 'a option) \<Rightarrow> 'a \<Rightarrow> raw_message \<Rightarrow> 'a option" where
  "unmarshal_obj names setf z raw =
     (case raw of
        Some JNull \<Rightarrow> Some z
      | Some (JObj ms) \<Rightarrow> set_members names setf z ms
      | _ \<Rightarrow> None)"

text \<open>Decoding one value into a string, an \<^verbatim>\<open>int\<close> or a \<^verbatim>\<open>bool\<close> field.\<close>

fun decode_string :: "json \<Rightarrow> string \<Rightarrow> string option" where
  "decode_string (JStr s) old = Some s"
| "decode_string JNull old = Some old"
| "decode_string _ old = None"

fun decode_int :: "json \<Rightarrow> int \<Rightarrow> int option" where
  "decode_int (JInt i) old = (if in64 i then Some i else None)"
| "decode_int JNull old = Some old"
| "decode_int _ old = None"

fun decode_bool :: "json \<Rightarrow> bool \<Rightarrow> bool option" where
  "decode_bool (JBool b) old = Some b"
| "decode_bool JNull old = Some old"
| "decode_bool _ old = None"

fun smap_members :: "(string \<rightharpoonup> string) \<Rightarrow> (string \<times> json) list \<Rightarrow> (string \<rightharpoonup> string) option" where
  "smap_members m [] = Some m"
| "smap_members m ((k, v) # ms) =
     (case decode_string v [] of
        None \<Rightarrow> None
      | Some s \<Rightarrow> smap_members (m(k \<mapsto> s)) ms)"

definition unmarshal_smap :: "raw_message \<Rightarrow> (string \<rightharpoonup> string) option" where
  "unmarshal_smap raw =
     (case raw of
        Some JNull \<Rightarrow> Some Map.empty
      | Some (JObj ms) \<Rightarrow> smap_members Map.empty ms
      | _ \<Rightarrow> None)"

text \<open>Reading a Go map: the zero value for an absent key.\<close>

definition smap_get :: "(string \<rightharpoonup> string) \<Rightarrow> string \<Rightarrow> string" where
  "smap_get m k = (case m k of None \<Rightarrow> [] | Some s \<Rightarrow> s)"

definition detail :: "string \<Rightarrow> json" where
  "detail s = JObj [(''detail'', JStr s)]"

text \<open>The value of a member of a response body.\<close>

fun json_get :: "json \<Rightarrow> string \<Rightarrow> json option" where
  "json_get (JObj ms) k = map_of ms k"
| "json_get _ k = None"

section \<open>Facts\<close>

lemma match_field_exact [simp]: "k \<in> set names \<Longrightarrow> match_field names k = Some k"
  by (simp add: match_field_def)

lemma match_field_in: "match_field names k = Some n \<Longrightarrow> n \<in> set names"
  by (auto simp: match_field_def find_Some_iff split: if_splits)

text \<open>An invariant that every field assignment keeps holds of the decoded struct.\<close>

lemma set_members_inv:
  assumes "set_members names setf z ms = Some z'" and "P z"
    and "\<And>n v y y'. n \<in> set names \<Longrightarrow> setf n v y = Some y' \<Longrightarrow> P y \<Longrightarrow> P y'"
  shows "P z'"
  using assms
proof (induction names setf z ms rule: set_members.induct)
  case (2 names setf z k v ms)
  then show ?case
    by (auto split: option.splits dest: match_field_in)
qed simp

lemma unmarshal_obj_inv:
  assumes "unmarshal_obj names setf z raw = Some z'" and "P z"
    and "\<And>n v y y'. n \<in> set names \<Longrightarrow> setf n v y = Some y' \<Longrightarrow> P y \<Longrightarrow> P y'"
  shows "P z'"
  using assms set_members_inv[where P = P]
  by (auto simp: unmarshal_obj_def split: option.splits json.splits)

lemma decode_int_range: "decode_int v old = Some i \<Longrightarrow> in64 old \<Longrightarrow> in64 i"
  by (cases v) (auto split: if_splits)

end
