(* ===== verification/Db_Model.thy ===== *)
theory Db_Model
  imports Go_Json
begin

text \<open>
  The data model of \<^verbatim>\<open>internal/db/db.go\<close> (row structs, error classification, identifier
  column) and the interface to the database service.

  The services reach PostgreSQL through the query builder \<^verbatim>\<open>bob\<close>: \<^verbatim>\<open>bob.One\<close>, \<^verbatim>\<open>bob.All\<close> and
  \<^verbatim>\<open>bob.Exec\<close> on a handle that is a pool or an open transaction. These functions are the fields of
  a record \<open>bobdb\<close> that every operation takes as an argument; \<open>'c\<close> is the state behind the handle.
  The statements the source builds are values of \<open>stmt\<close>, one constructor per statement form of the
  source, with the bound arguments. What the code relies on is the locale \<open>postgres\<close>: a call
  either returns rows and a row count that the statement's meaning \<open>sql_sem\<close> allows, or an error,
  which leaves the tables as they were unless the connection was lost. \<open>sql_sem\<close> is a relation: where the statement text
  leaves something open (the order of rows without ORDER BY, generated ids, \<^verbatim>\<open>now()\<close>), every
  choice is allowed. \<open>sql_errs\<close> lists the SQLSTATEs of the data and constraint errors that the
  schema in \<^verbatim>\<open>migrations/\<close> makes a statement raise.
\<close>

section \<open>Rows and tables\<close>

record user =
  u_id :: int
  u_phone :: string
  u_account_number :: string
  u_username :: string
  u_password_hash :: string
  u_balance :: int
  u_is_admin :: bool

record transfer =
  t_id :: int
  t_from_user :: int
  t_to_user :: int
  t_amount :: int
  t_created_at :: int

record notification =
  n_id :: int
  n_user_id :: int
  n_message :: string
  n_is_read :: bool
  n_created_at :: int

record db =
  users :: "user list"
  transfers :: "transfer list"
  notifications :: "notification list"

section \<open>Error classification\<close>

fun pg_code :: "goerr \<Rightarrow> string" where
  "pg_code (Wrapf m e) = pg_code e"
| "pg_code (PgError c) = c"
| "pg_code _ = []"

definition pgErrCode :: "goerr option \<Rightarrow> string" where
  "pgErrCode err = (case err of None \<Rightarrow> [] | Some e \<Rightarrow> pg_code e)"

definition err_is :: "goerr option \<Rightarrow> goerr \<Rightarrow> bool" where
  "err_is err t = (case err of None \<Rightarrow> False | Some e \<Rightarrow> errors_Is e t)"

definition IsNotFound :: "goerr option \<Rightarrow> bool" where
  "IsNotFound err = err_is err SqlErrNoRows"

definition IsUniqueViolation :: "goerr option \<Rightarrow> bool" where
  "IsUniqueViolation err \<longleftrightarrow> pgErrCode err = ''23505''"

definition IsSerializationFailure :: "goerr option \<Rightarrow> bool" where
  "IsSerializationFailure err \<longleftrightarrow> pgErrCode err = ''40001''"

section \<open>Statements\<close>

datatype user_col = ColId | ColAccountNumber | ColPhone | ColUsername

datatype sqlarg = ArgInt int | ArgText string

fun user_cell :: "user_col \<Rightarrow> user \<Rightarrow> sqlarg" where
  "user_cell ColId u = ArgInt (u_id u)"
| "user_cell ColAccountNumber u = ArgText (u_account_number u)"
| "user_cell ColPhone u = ArgText (u_phone u)"
| "user_cell ColUsername u = ArgText (u_username u)"

text \<open>The column and value of the first non-empty identifier.\<close>

definition UserIdentifierCol :: "string \<Rightarrow> string \<Rightarrow> string \<Rightarrow> user_col \<times> string" where
  "UserIdentifierCol accountNumber phone username =
     (if accountNumber \<noteq> [] then (ColAccountNumber, accountNumber)
      else if phone \<noteq> [] then (ColPhone, phone)
      else (ColUsername, username))"

definition NotificationToMap :: "notification \<Rightarrow> json" where
  "NotificationToMap n =
     JObj [(''id'', JInt (n_id n)), (''user_id'', JInt (n_user_id n)),
           (''message'', JStr (n_message n)), (''is_read'', JBool (n_is_read n)),
           (''created_at'', JInt (n_created_at n))]"

text \<open>The WHERE clauses over \<open>users\<close>: none, column = arg, id IN / = ANY, and the search filter
  (\<^verbatim>\<open>username ILIKE p OR phone ILIKE p OR account_number ILIKE p\<close>).\<close>

datatype user_where =
    AllUsers
  | UserEq user_col sqlarg
  | UserIdIn "int list"
  | UserSearch string

datatype row_order = Unordered | IdAsc | IdDesc | CreatedAtDesc

datatype user_proj = ProjUser | ProjId | ProjBalance | ProjIdName

type_synonym limit_offset = "(int \<times> int) option"

datatype stmt =
    SelectUsers user_proj user_where row_order limit_offset bool
  | CountUsers user_where
  | UserStats
  | InsertUser string string string string
  | UpdateBalances int int int
  | InsertTransfer int int int
  | InsertNotifications "(int \<times> string) list"
  | SelectTransfers row_order limit_offset
  | CountTransfers
  | TransferStats
  | SelectNotifications "int option" row_order limit_offset
  | CountNotifications
  | AckNotification int int

datatype row =
    UserRow user
  | IntRow int
  | IdNameRow int string
  | StatsRow int int
  | TransferRow transfer
  | NotificationRow notification

section \<open>Meaning of the statements\<close>

fun user_matches :: "(string \<Rightarrow> string \<Rightarrow> bool) \<Rightarrow> user_where \<Rightarrow> user \<Rightarrow> bool" where
  "user_matches ilike AllUsers u \<longleftrightarrow> True"
| "user_matches ilike (UserEq col a) u \<longleftrightarrow> user_cell col u = a"
| "user_matches ilike (UserIdIn ids) u \<longleftrightarrow> u_id u \<in> set ids"
| "user_matches ilike (UserSearch p) u \<longleftrightarrow>
     ilike (u_username u) p \<or> ilike (u_phone u) p \<or> ilike (u_account_number u) p"

fun user_row :: "user_proj \<Rightarrow> user \<Rightarrow> row" where
  "user_row ProjUser u = UserRow u"
| "user_row ProjId u = IntRow (u_id u)"
| "user_row ProjBalance u = IntRow (u_balance u)"
| "user_row ProjIdName u = IdNameRow (u_id u) (u_username u)"

fun order_rel :: "row_order \<Rightarrow> ('a \<Rightarrow> int) \<Rightarrow> ('a \<Rightarrow> int) \<Rightarrow> 'a \<Rightarrow> 'a \<Rightarrow> bool" where
  "order_rel Unordered ident created x y \<longleftrightarrow> True"
| "order_rel IdAsc ident created x y \<longleftrightarrow> ident x \<le> ident y"
| "order_rel IdDesc ident created x y \<longleftrightarrow> ident y \<le> ident x"
| "order_rel CreatedAtDesc ident created x y \<longleftrightarrow> created y \<le> created x"

definition page_of :: "limit_offset \<Rightarrow> 'a list \<Rightarrow> 'a list" where
  "page_of lim xs = (case lim of None \<Rightarrow> xs | Some (l, off) \<Rightarrow> take (nat l) (drop (nat off) xs))"

text \<open>\<open>ys\<close> is a page of the rows \<open>xs\<close> in some order that the ORDER BY clause allows.\<close>

definition selection :: "('a \<Rightarrow> 'a \<Rightarrow> bool) \<Rightarrow> 'a list \<Rightarrow> limit_offset \<Rightarrow> 'a list \<Rightarrow> bool" where
  "selection R xs lim ys \<longleftrightarrow> (\<exists>zs. mset zs = mset xs \<and> sorted_wrt R zs \<and> ys = page_of lim zs)"

text \<open>The CASE expression of the balance update; \<open>None\<close> is NULL (no arm applies, no ELSE).\<close>

definition case_balance :: "int \<Rightarrow> int \<Rightarrow> int \<Rightarrow> user \<Rightarrow> int option" where
  "case_balance sid rid amt u =
     (if u_id u = sid \<and> amt \<le> u_balance u then Some (u_balance u - amt)
      else if u_id u = rid then Some (u_balance u + amt)
      else None)"

definition update_user_balance :: "int \<Rightarrow> int \<Rightarrow> int \<Rightarrow> user \<Rightarrow> user" where
  "update_user_balance sid rid amt u =
     (if u_id u \<in> {sid, rid} then u\<lparr>u_balance := the (case_balance sid rid amt u)\<rparr> else u)"

text \<open>Characters of a UTF-8 text: bytes that are not continuation bytes.\<close>

definition utf8_len :: "string \<Rightarrow> nat" where
  "utf8_len s = length (filter (\<lambda>c. \<not> (128 \<le> (of_char c :: nat) \<and> (of_char c :: nat) < 192)) s)"

definition text_errs :: "nat \<Rightarrow> string \<Rightarrow> string list" where
  "text_errs n s =
     (if n < utf8_len s then [''22001''] else []) @ (if CHR 0x00 \<in> set s then [''22021''] else [])"

fun where_errs :: "user_where \<Rightarrow> string list" where
  "where_errs (UserEq col (ArgText s)) = (if CHR 0x00 \<in> set s then [''22021''] else [])"
| "where_errs (UserSearch s) = (if CHR 0x00 \<in> set s then [''22021''] else [])"
| "where_errs _ = []"

definition page_errs :: "limit_offset \<Rightarrow> string list" where
  "page_errs lim =
     (case lim of None \<Rightarrow> []
      | Some (l, off) \<Rightarrow> (if l < 0 then [''2201W''] else []) @ (if off < 0 then [''2201X''] else []))"

definition user_ids :: "db \<Rightarrow> int set" where
  "user_ids d = u_id ` set (users d)"

fun sql_errs :: "stmt \<Rightarrow> db \<Rightarrow> string list" where
  "sql_errs (SelectUsers proj wh ord lim lock) d = where_errs wh @ page_errs lim"
| "sql_errs (CountUsers wh) d = where_errs wh"
| "sql_errs (InsertUser phone acct username hash) d =
     text_errs 20 phone @ text_errs 20 acct @ text_errs 50 username @ text_errs 255 hash @
     (if list_all (\<lambda>u. u_account_number u \<noteq> acct) (users d) \<and> list_ex (\<lambda>u. u_phone u = phone) (users d)
      then [''23505''] else [])"
| "sql_errs (UpdateBalances sid rid amt) d =
     (let vs = map (case_balance sid rid amt) (filter (\<lambda>u. u_id u \<in> {sid, rid}) (users d))
      in (if None \<in> set vs then [''23502''] else []) @
         (if list_ex (\<lambda>v. v \<noteq> None \<and> \<not> in64 (the v)) vs then [''22003''] else []) @
         (if list_ex (\<lambda>v. v \<noteq> None \<and> the v < 0) vs then [''23514''] else []))"
| "sql_errs (InsertTransfer f t amt) d =
     (if amt \<le> 0 then [''23514''] else []) @
     (if f \<in> user_ids d \<and> t \<in> user_ids d then [] else [''23503''])"
| "sql_errs (InsertNotifications xs) d =
     concat (map (\<lambda>(uid, msg). text_errs 255 msg) xs) @
     (if list_all (\<lambda>(uid, msg). uid \<in> user_ids d) xs then [] else [''23503''])"
| "sql_errs (SelectTransfers ord lim) d = page_errs lim"
| "sql_errs (SelectNotifications uid ord lim) d = page_errs lim"
| "sql_errs _ d = []"

definition fresh :: "int list \<Rightarrow> int \<Rightarrow> bool" where
  "fresh ids i \<longleftrightarrow> i \<notin> set ids \<and> 0 < i \<and> in64 i"

definition new_user :: "int \<Rightarrow> string \<Rightarrow> string \<Rightarrow> string \<Rightarrow> string \<Rightarrow> user" where
  "new_user i phone acct username hash =
     \<lparr>u_id = i, u_phone = phone, u_account_number = acct, u_username = username,
      u_password_hash = hash, u_balance = 100000, u_is_admin = False\<rparr>"

definition new_notifications :: "(int \<times> string) list \<Rightarrow> int list \<Rightarrow> int \<Rightarrow> notification list" where
  "new_notifications xs ids now =
     map2 (\<lambda>(uid, msg) i. \<lparr>n_id = i, n_user_id = uid, n_message = msg, n_is_read = False,
                          n_created_at = now\<rparr>) xs ids"

text \<open>\<open>sql_sem ilike st d rows n d'\<close>: on tables \<open>d\<close> the statement may return \<open>rows\<close>, affect \<open>n\<close>
  rows and leave \<open>d'\<close>. RETURNING of the user insert lists five columns; the scanned struct keeps
  the zero value in the others.\<close>

fun sql_sem ::
  "(string \<Rightarrow> string \<Rightarrow> bool) \<Rightarrow> stmt \<Rightarrow> db \<Rightarrow> row list \<Rightarrow> int \<Rightarrow> db \<Rightarrow> bool" where
  "sql_sem ilike (SelectUsers proj wh ord lim lock) d rows n d' \<longleftrightarrow>
     d' = d \<and> n = int (length rows) \<and>
     (\<exists>us. selection (order_rel ord u_id (\<lambda>_. 0)) (filter (user_matches ilike wh) (users d)) lim us \<and>
           rows = map (user_row proj) us)"
| "sql_sem ilike (CountUsers wh) d rows n d' \<longleftrightarrow>
     d' = d \<and> n = 1 \<and> rows = [IntRow (int (length (filter (user_matches ilike wh) (users d))))]"
| "sql_sem ilike UserStats d rows n d' \<longleftrightarrow>
     d' = d \<and> n = 1 \<and> in64 (sum_list (map u_balance (users d))) \<and>
     rows = [StatsRow (int (length (users d))) (sum_list (map u_balance (users d)))]"
| "sql_sem ilike (InsertUser phone acct username hash) d rows n d' \<longleftrightarrow>
     sql_errs (InsertUser phone acct username hash) d = [] \<and>
     (if list_ex (\<lambda>u. u_account_number u = acct) (users d)
      then d' = d \<and> n = 0 \<and> rows = []
      else \<exists>i. fresh (map u_id (users d)) i \<and>
               d' = d\<lparr>users := users d @ [new_user i phone acct username hash]\<rparr> \<and> n = 1 \<and>
               rows = [UserRow ((new_user i phone acct username hash)\<lparr>u_password_hash := []\<rparr>)])"
| "sql_sem ilike (UpdateBalances sid rid amt) d rows n d' \<longleftrightarrow>
     sql_errs (UpdateBalances sid rid amt) d = [] \<and> rows = [] \<and>
     n = int (length (filter (\<lambda>u. u_id u \<in> {sid, rid}) (users d))) \<and>
     d' = d\<lparr>users := map (update_user_balance sid rid amt) (users d)\<rparr>"
| "sql_sem ilike (InsertTransfer f t amt) d rows n d' \<longleftrightarrow>
     sql_errs (InsertTransfer f t amt) d = [] \<and> n = 1 \<and>
     (\<exists>i now. fresh (map t_id (transfers d)) i \<and> rows = [IntRow i] \<and>
        d' = d\<lparr>transfers := transfers d @
                [\<lparr>t_id = i, t_from_user = f, t_to_user = t, t_amount = amt, t_created_at = now\<rparr>]\<rparr>)"
| "sql_sem ilike (InsertNotifications xs) d rows n d' \<longleftrightarrow>
     sql_errs (InsertNotifications xs) d = [] \<and> rows = [] \<and> n = int (length xs) \<and>
     (\<exists>ids now. length ids = length xs \<and> distinct ids \<and>
        list_all (fresh (map n_id (notifications d))) ids \<and>
        d' = d\<lparr>notifications := notifications d @ new_notifications xs ids now\<rparr>)"
| "sql_sem ilike (SelectTransfers ord lim) d rows n d' \<longleftrightarrow>
     d' = d \<and> n = int (length rows) \<and>
     (\<exists>ts. selection (order_rel ord t_id t_created_at) (transfers d) lim ts \<and> rows = map TransferRow ts)"
| "sql_sem ilike CountTransfers d rows n d' \<longleftrightarrow>
     d' = d \<and> n = 1 \<and> rows = [IntRow (int (length (transfers d)))]"
| "sql_sem ilike TransferStats d rows n d' \<longleftrightarrow>
     d' = d \<and> n = 1 \<and> in64 (sum_list (map t_amount (transfers d))) \<and>
     rows = [StatsRow (int (length (transfers d))) (sum_list (map t_amount (transfers d)))]"
| "sql_sem ilike (SelectNotifications uid ord lim) d rows n d' \<longleftrightarrow>
     d' = d \<and> n = int (length rows) \<and>
     (\<exists>ns. selection (order_rel ord n_id n_created_at)
             (filter (\<lambda>x. case uid of None \<Rightarrow> True | Some i \<Rightarrow> n_user_id x = i) (notifications d)) lim ns \<and>
           rows = map NotificationRow ns)"
| "sql_sem ilike CountNotifications d rows n d' \<longleftrightarrow>
     d' = d \<and> n = 1 \<and> rows = [IntRow (int (length (notifications d)))]"
| "sql_sem ilike (AckNotification i uid) d rows n d' \<longleftrightarrow>
     rows = [] \<and>
     n = int (length (filter (\<lambda>x. n_id x = i \<and> n_user_id x = uid) (notifications d))) \<and>
     d' = d\<lparr>notifications := map (\<lambda>x. if n_id x = i \<and> n_user_id x = uid then x\<lparr>n_is_read := True\<rparr> else x)
              (notifications d)\<rparr>"

text \<open>What the schema of \<^verbatim>\<open>migrations/\<close> keeps true of the tables: keys, uniqueness, foreign keys,
  CHECK constraints and column ranges.\<close>

definition user_row_wf :: "user \<Rightarrow> bool" where
  "user_row_wf u \<longleftrightarrow> 0 \<le> u_balance u \<and> in64 (u_balance u) \<and> in64 (u_id u) \<and>
     utf8_len (u_phone u) \<le> 20 \<and> utf8_len (u_account_number u) \<le> 20 \<and> utf8_len (u_username u) \<le> 50 \<and>
     CHR 0x00 \<notin> set (u_username u)"

definition db_wf :: "db \<Rightarrow> bool" where
  "db_wf d \<longleftrightarrow>
     distinct (map u_id (users d)) \<and> distinct (map u_phone (users d)) \<and>
     distinct (map u_account_number (users d)) \<and> list_all user_row_wf (users d) \<and>
     distinct (map t_id (transfers d)) \<and> distinct (map n_id (notifications d)) \<and>
     list_all (\<lambda>t. 0 < t_amount t \<and> t_from_user t \<in> user_ids d \<and> t_to_user t \<in> user_ids d) (transfers d) \<and>
     list_all (\<lambda>x. n_user_id x \<in> user_ids d \<and> utf8_len (n_message x) \<le> 255) (notifications d)"

end
