(* ===== verification/Db_Service.thy ===== *)
theory Db_Service
  imports Db_Model
begin

text \<open>
  The database service as an interface: the record of driver functions, the locale \<open>postgres\<close>
  with the laws the services rely on, its extension \<open>reliable_postgres\<close> for a service without
  faults, the transaction runner \<open>tx_runner\<close>, and an executable in-memory provider that
  interprets all three (theory \<open>Db_Memory\<close>). The provider runs every statement on the tables themselves; in its faulty
  form it takes the next entry of a script of injected errors before each call.
\<close>

section \<open>The driver and its laws\<close>

record 'c bobdb =
  bob_One :: "stmt \<Rightarrow> 'c \<Rightarrow> (goerr + row) \<times> 'c"
  bob_All :: "stmt \<Rightarrow> 'c \<Rightarrow> (goerr + row list) \<times> 'c"
  bob_Exec :: "stmt \<Rightarrow> 'c \<Rightarrow> (goerr + int) \<times> 'c"

definition app_errors :: "goerr list" where
  "app_errors = [SqlErrNoRows, ErrInsufficientFunds, ErrReceiverNotFound, ErrSelfTransfer, ErrUnauthorized]"

definition app_err :: "goerr \<Rightarrow> bool" where
  "app_err e \<longleftrightarrow> list_ex (errors_Is e) app_errors"

definition constraint_codes :: "string list" where
  "constraint_codes =
     [''22001'', ''22003'', ''22021'', ''2201W'', ''2201X'', ''23502'', ''23503'', ''23505'', ''23514'']"

text \<open>An error the database or its driver may raise for a statement: never one of the services'
  own sentinels, and a data or constraint error only when the statement has it coming.\<close>

definition db_err :: "stmt \<Rightarrow> db \<Rightarrow> goerr \<Rightarrow> bool" where
  "db_err st d e \<longleftrightarrow> \<not> app_err e \<and> (pg_code e \<in> set constraint_codes \<longrightarrow> pg_code e \<in> set (sql_errs st d))"

text \<open>An error leaves the tables as they were, except that a statement outside a transaction whose
  connection broke (an error with no SQLSTATE) may have been carried out.\<close>

definition err_effect ::
  "(string \<Rightarrow> string \<Rightarrow> bool) \<Rightarrow> stmt \<Rightarrow> db \<Rightarrow> goerr \<Rightarrow> db \<Rightarrow> bool" where
  "err_effect ilike st d e d' \<longleftrightarrow> d' = d \<or> pg_code e = [] \<and> (\<exists>rows n. sql_sem ilike st d rows n d')"

locale postgres =
  fixes B :: "'c bobdb" and tables :: "'c \<Rightarrow> db" and ilike :: "string \<Rightarrow> string \<Rightarrow> bool"
  assumes one_row: "bob_One B st w = (Inr r, w') \<Longrightarrow>
      \<exists>rs n. sql_sem ilike st (tables w) (r # rs) n (tables w')"
    and one_none: "bob_One B st w = (Inl e, w') \<Longrightarrow> errors_Is e SqlErrNoRows \<Longrightarrow>
      \<exists>n. sql_sem ilike st (tables w) [] n (tables w')"
    and one_err: "bob_One B st w = (Inl e, w') \<Longrightarrow> \<not> errors_Is e SqlErrNoRows \<Longrightarrow>
      err_effect ilike st (tables w) e (tables w') \<and> db_err st (tables w) e"
    and all_rows: "bob_All B st w = (Inr rs, w') \<Longrightarrow> \<exists>n. sql_sem ilike st (tables w) rs n (tables w')"
    and all_err: "bob_All B st w = (Inl e, w') \<Longrightarrow> err_effect ilike st (tables w) e (tables w') \<and> db_err st (tables w) e"
    and exec_ok: "bob_Exec B st w = (Inr n, w') \<Longrightarrow> \<exists>rs. sql_sem ilike st (tables w) rs n (tables w')"
    and exec_err: "bob_Exec B st w = (Inl e, w') \<Longrightarrow> err_effect ilike st (tables w) e (tables w') \<and> db_err st (tables w) e"

text \<open>A service without faults: a statement the schema accepts, on tables whose id sequences are
  not exhausted and whose sums a 64-bit column can hold, succeeds.\<close>

definition id_room :: "int list \<Rightarrow> bool" where
  "id_room ids \<longleftrightarrow> list_all (\<lambda>i. i < 9223372036854770000) ids"

fun within_limits :: "stmt \<Rightarrow> db \<Rightarrow> bool" where
  "within_limits UserStats d \<longleftrightarrow> in64 (sum_list (map u_balance (users d)))"
| "within_limits TransferStats d \<longleftrightarrow> in64 (sum_list (map t_amount (transfers d)))"
| "within_limits (InsertUser _ _ _ _) d \<longleftrightarrow> id_room (map u_id (users d))"
| "within_limits (InsertTransfer _ _ _) d \<longleftrightarrow> id_room (map t_id (transfers d))"
| "within_limits (InsertNotifications xs) d \<longleftrightarrow> length xs \<le> 1000 \<and> id_room (map n_id (notifications d))"
| "within_limits _ d \<longleftrightarrow> True"

definition accepted :: "stmt \<Rightarrow> db \<Rightarrow> bool" where
  "accepted st d \<longleftrightarrow> sql_errs st d = [] \<and> within_limits st d"

locale reliable_postgres = postgres +
  assumes one_total: "accepted st (tables w) \<Longrightarrow> bob_One B st w = (Inl e, w') \<Longrightarrow> errors_Is e SqlErrNoRows"
    and all_total: "accepted st (tables w) \<Longrightarrow> bob_All B st w \<noteq> (Inl e, w')"
    and exec_total: "accepted st (tables w) \<Longrightarrow> bob_Exec B st w \<noteq> (Inl e, w')"

section \<open>Transactions\<close>

text \<open>
  \<^verbatim>\<open>RunInTx\<close> opens a transaction, calls the function on it, commits when it returns nil and rolls
  back when it returns an error, which is passed on. The function's captured variables are the
  state \<open>'x\<close>. A failed commit leaves the tables as they were, except when the connection was lost
  (an error with no SQLSTATE): then the commit may have taken place. At isolation level
  SERIALIZABLE committed transactions have the effect of some serial order; \<open>tables w\<close> is the
  database at the transaction's place in that order.
\<close>

definition conn_err :: "goerr \<Rightarrow> bool" where
  "conn_err e \<longleftrightarrow> \<not> app_err e \<and> pg_code e \<notin> set constraint_codes"

type_synonym ('x, 'c) tx_fun = "'x \<Rightarrow> 'c \<Rightarrow> goerr option \<times> 'x \<times> 'c"

inductive tx_outcome ::
  "('c \<Rightarrow> db) \<Rightarrow> ('x, 'c) tx_fun \<Rightarrow> 'x \<Rightarrow> 'c \<Rightarrow> goerr option \<Rightarrow> 'x \<Rightarrow> 'c \<Rightarrow> bool"
  for tables f x w where
  begin_failed: "conn_err e \<Longrightarrow> tables w' = tables w \<Longrightarrow> tx_outcome tables f x w (Some e) x w'"
| rolled_back: "tables c = tables w \<Longrightarrow> f x c = (Some e, x', c') \<Longrightarrow> tables w' = tables w \<Longrightarrow>
    tx_outcome tables f x w (Some e) x' w'"
| committed: "tables c = tables w \<Longrightarrow> f x c = (None, x', c') \<Longrightarrow> tables w' = tables c' \<Longrightarrow>
    tx_outcome tables f x w None x' w'"
| commit_failed: "tables c = tables w \<Longrightarrow> f x c = (None, x', c') \<Longrightarrow> conn_err e \<Longrightarrow>
    tables w' = tables w \<Longrightarrow> tx_outcome tables f x w (Some e) x' w'"
| commit_unknown: "tables c = tables w \<Longrightarrow> f x c = (None, x', c') \<Longrightarrow> conn_err e \<Longrightarrow> pg_code e = [] \<Longrightarrow>
    tables w' = tables c' \<Longrightarrow> tx_outcome tables f x w (Some e) x' w'"

inductive_simps tx_outcome_None: "tx_outcome tables f x w None x' w'"

inductive_cases tx_outcome_SomeE: "tx_outcome tables f x w (Some e) x' w'"

lemma serialization_failure_no_effect:
  assumes "tx_outcome tables f x w (Some e) x' w'" and "IsSerializationFailure (Some e)"
  shows "tables w' = tables w"
  using assms by (cases rule: tx_outcome.cases) (auto simp: IsSerializationFailure_def pgErrCode_def)

lemma err_effect_select [simp]:
  "err_effect ilike (SelectUsers proj wh ord lim lock) d e d' \<longleftrightarrow> d' = d"
  "err_effect ilike (CountUsers wh) d e d' \<longleftrightarrow> d' = d" "err_effect ilike UserStats d e d' \<longleftrightarrow> d' = d"
  "err_effect ilike (SelectTransfers ord lim) d e d' \<longleftrightarrow> d' = d" "err_effect ilike CountTransfers d e d' \<longleftrightarrow> d' = d"
  "err_effect ilike TransferStats d e d' \<longleftrightarrow> d' = d" "err_effect ilike CountNotifications d e d' \<longleftrightarrow> d' = d"
  "err_effect ilike (SelectNotifications uid ord lim) d e d' \<longleftrightarrow> d' = d"
  by (auto simp: err_effect_def)

lemma err_effect_refl [simp]: "err_effect ilike st d e d"
  by (simp add: err_effect_def)

locale tx_runner =
  fixes RunInTx :: "('x, 'c) tx_fun \<Rightarrow> ('x, 'c) tx_fun" and tables :: "'c \<Rightarrow> db"
  assumes run_in_tx: "RunInTx f x w = (r, x', w') \<Longrightarrow> tx_outcome tables f x w r x' w'"

text \<open>A runner that never fails on its own account: only the function's error comes back.\<close>

locale reliable_tx_runner = tx_runner +
  assumes run_total: "RunInTx f x w = (Some e, x', w') \<Longrightarrow>
    \<exists>c c'. tables c = tables w \<and> f x c = (Some e, x', c')"

section \<open>The schema invariant\<close>

lemma update_user_balance_fields [simp]:
  "u_id (update_user_balance s r a u) = u_id u" "u_phone (update_user_balance s r a u) = u_phone u"
  "u_account_number (update_user_balance s r a u) = u_account_number u"
  "u_username (update_user_balance s r a u) = u_username u"
  by (simp_all add: update_user_balance_def)

lemma update_user_balance_ids [simp]: "u_id \<circ> update_user_balance s r a = u_id"
  "u_phone \<circ> update_user_balance s r a = u_phone"
  "u_account_number \<circ> update_user_balance s r a = u_account_number"
  by (auto simp: fun_eq_iff)

lemma user_ids_update [simp]:
  "user_ids (d\<lparr>users := map (update_user_balance s r a) (users d)\<rparr>) = user_ids d"
  by (auto simp: user_ids_def image_image)

lemma user_ids_frame [simp]:
  "user_ids (d\<lparr>transfers := ts\<rparr>) = user_ids d" "user_ids (d\<lparr>notifications := ns\<rparr>) = user_ids d"
  "user_ids (d\<lparr>users := users d @ [u]\<rparr>) = insert (u_id u) (user_ids d)"
  by (auto simp: user_ids_def)

lemma update_balances_targets:
  assumes "sql_errs (UpdateBalances s r a) d = []" and "u \<in> set (users d)" and "u_id u \<in> {s, r}"
  shows "\<exists>b. case_balance s r a u = Some b \<and> in64 b \<and> 0 \<le> b"
proof -
  let ?vs = "map (case_balance s r a) (filter (\<lambda>u. u_id u \<in> {s, r}) (users d))"
  from assms(2,3) have v: "case_balance s r a u \<in> set ?vs" by auto
  from assms(1) have "None \<notin> set ?vs" and "\<not> list_ex (\<lambda>v. v \<noteq> None \<and> \<not> in64 (the v)) ?vs"
    and "\<not> list_ex (\<lambda>v. v \<noteq> None \<and> the v < 0) ?vs"
    by (auto simp: Let_def split: if_splits)
  with v have "case_balance s r a u \<noteq> None" and "in64 (the (case_balance s r a u))"
    and "0 \<le> the (case_balance s r a u)"
    unfolding list_ex_iff by (metis, metis, metis linorder_not_less)
  then show ?thesis by auto
qed

lemma update_balance_row_wf:
  assumes "sql_errs (UpdateBalances s r a) d = []" and "u \<in> set (users d)" and "user_row_wf u"
  shows "user_row_wf (update_user_balance s r a u)"
proof (cases "u_id u \<in> {s, r}")
  case False
  with assms show ?thesis by (auto simp: update_user_balance_def)
next
  case True
  with update_balances_targets[OF assms(1,2)]
  obtain b where b: "case_balance s r a u = Some b" "in64 b" "0 \<le> b" by blast
  with True assms(3) show ?thesis by (simp add: update_user_balance_def user_row_wf_def)
qed

lemma new_notifications_props:
  assumes "length ids = length xs"
  shows "map n_id (new_notifications xs ids now) = ids"
    and "map n_user_id (new_notifications xs ids now) = map fst xs"
    and "map n_message (new_notifications xs ids now) = map snd xs"
  using assms by (induction xs ids rule: list_induct2')
    (auto simp: new_notifications_def split: prod.splits)

lemma new_notifications_set:
  assumes "length ids = length xs" and "x \<in> set (new_notifications xs ids now)"
  shows "(n_user_id x, n_message x) \<in> set xs"
  using assms by (auto simp: new_notifications_def dest: set_zip_leftD)

text \<open>Every statement keeps the schema invariant.\<close>

lemma sql_sem_wf:
  assumes "sql_sem ilike st d rows n d'" and "db_wf d"
  shows "db_wf d'"
proof (cases st)
  case (InsertUser phone acct username hash)
  with assms show ?thesis
    by (auto simp: db_wf_def new_user_def fresh_def text_errs_def user_row_wf_def in64_def
        list_all_iff list_ex_iff split: if_splits)
next
  case (UpdateBalances s r a)
  with assms have "list_all user_row_wf (map (update_user_balance s r a) (users d))"
    using update_balance_row_wf[of s r a d] by (auto simp: db_wf_def list_all_iff)
  with assms UpdateBalances show ?thesis by (auto simp: db_wf_def)
next
  case (InsertTransfer f t a)
  with assms show ?thesis by (auto simp: db_wf_def fresh_def split: if_splits)
next
  case (InsertNotifications xs)
  with assms obtain ids now where ids: "length ids = length xs" "distinct ids"
      "list_all (fresh (map n_id (notifications d))) ids"
    and d': "d' = d\<lparr>notifications := notifications d @ new_notifications xs ids now\<rparr>"
    and e: "sql_errs (InsertNotifications xs) d = []" by auto
  have "list_all (\<lambda>x. n_user_id x \<in> user_ids d \<and> utf8_len (n_message x) \<le> 255)
      (new_notifications xs ids now)"
    using e new_notifications_set[OF ids(1)]
    by (fastforce simp: list_all_iff text_errs_def split: if_splits)
  moreover have "set (map n_id (notifications d)) \<inter> set ids = {}"
    using ids(3) by (auto simp: list_all_iff fresh_def)
  ultimately show ?thesis
    using assms(2) ids d' new_notifications_props(1)[OF ids(1), of now]
    by (auto simp: db_wf_def simp flip: set_map)
next
  case (AckNotification i uid)
  let ?f = "\<lambda>x. if n_id x = i \<and> n_user_id x = uid then x\<lparr>n_is_read := True\<rparr> else x"
  have f: "n_id (?f x) = n_id x" "n_user_id (?f x) = n_user_id x" "n_message (?f x) = n_message x" for x
    by auto
  have "map n_id (map ?f (notifications d)) = map n_id (notifications d)"
    unfolding map_map by (rule map_cong) (auto simp: f)
  with assms AckNotification show ?thesis
    by (auto simp: db_wf_def list_all_iff simp del: map_map)
qed (use assms in auto)

end
