(* ===== verification/Schema_Migrations.thy ===== *)
theory Schema_Migrations
  imports Db_Service
begin

text \<open>
  The schema of the database, as the files of \<^verbatim>\<open>migrations/\<close> build it. A migration is the list of its
  statements (\<open>ddl\<close>, one constructor per statement form the files use); \<open>ddl_exec\<close> carries a statement out
  on a schema and the rows stored under it, or raises the SQLSTATE that PostgreSQL documents.
  \<open>conforms\<close> says that stored rows obey a schema.

  The invariant \<open>db_wf\<close> on which the other theories rest is what the schema of the three up migrations
  enforces, and the down migrations undo the up migrations but for the type of the sequences.
\<close>

section \<open>Schemas\<close>

datatype col_type = SqlInteger | SqlBigint | SqlVarchar nat | SqlBoolean | SqlTimestamptz

datatype col_default = NoDefault | Nextval string | DefaultInt int | DefaultBool bool | DefaultNow

record column =
  col_name :: string
  col_type :: col_type
  col_not_null :: bool
  col_default :: col_default

datatype tbl_constraint =
    PrimaryKey string
  | Unique string
  | References string string string
  | CheckGe string int
  | CheckGt string int

record tbl =
  tbl_name :: string
  tbl_columns :: "column list"
  tbl_constraints :: "(string \<times> tbl_constraint) list"

record idx =
  idx_name :: string
  idx_table :: string
  idx_columns :: "(string \<times> bool) list"

record sql_schema =
  sc_tables :: "tbl list"
  sc_indexes :: "idx list"
  sc_sequences :: "(string \<times> col_type) list"

text \<open>A column of an index carries whether it is descending. Stored rows, by table:\<close>

datatype sql_value = VInt int | VText string | VBool bool | VTime int | VNull

type_synonym stored_row = "(string \<times> sql_value) list"

type_synonym stored = "string \<Rightarrow> stored_row list"

definition in32 :: "int \<Rightarrow> bool" where
  "in32 i \<longleftrightarrow> - 2147483648 \<le> i \<and> i \<le> 2147483647"

definition cell :: "string \<Rightarrow> stored_row \<Rightarrow> sql_value" where
  "cell c r = (case map_of r c of None \<Rightarrow> VNull | Some v \<Rightarrow> v)"

fun fits_type :: "col_type \<Rightarrow> sql_value \<Rightarrow> bool" where
  "fits_type ty VNull = True"
| "fits_type SqlInteger (VInt i) \<longleftrightarrow> in32 i"
| "fits_type SqlBigint (VInt i) \<longleftrightarrow> in64 i"
| "fits_type (SqlVarchar n) (VText s) \<longleftrightarrow> utf8_len s \<le> n \<and> CHR 0x00 \<notin> set s"
| "fits_type SqlBoolean (VBool b) = True"
| "fits_type SqlTimestamptz (VTime t) = True"
| "fits_type _ _ = False"

text \<open>NULL satisfies everything but NOT NULL.\<close>

fun satisfied :: "stored \<Rightarrow> stored_row list \<Rightarrow> tbl_constraint \<Rightarrow> bool" where
  "satisfied data rows (PrimaryKey c) \<longleftrightarrow> distinct (map (cell c) rows) \<and> VNull \<notin> set (map (cell c) rows)"
| "satisfied data rows (Unique c) \<longleftrightarrow> distinct (filter (\<lambda>v. v \<noteq> VNull) (map (cell c) rows))"
| "satisfied data rows (References c t c') \<longleftrightarrow>
     list_all (\<lambda>r. cell c r = VNull \<or> cell c r \<in> set (map (cell c') (data t))) rows"
| "satisfied data rows (CheckGe c k) \<longleftrightarrow> list_all (\<lambda>r. case cell c r of VInt i \<Rightarrow> k \<le> i | _ \<Rightarrow> True) rows"
| "satisfied data rows (CheckGt c k) \<longleftrightarrow> list_all (\<lambda>r. case cell c r of VInt i \<Rightarrow> k < i | _ \<Rightarrow> True) rows"

definition column_obeyed :: "stored_row list \<Rightarrow> column \<Rightarrow> bool" where
  "column_obeyed rows c \<longleftrightarrow>
     list_all (\<lambda>r. fits_type (col_type c) (cell (col_name c) r) \<and> (col_not_null c \<longrightarrow> cell (col_name c) r \<noteq> VNull)) rows"

definition table_obeyed :: "stored \<Rightarrow> tbl \<Rightarrow> bool" where
  "table_obeyed data t \<longleftrightarrow>
     list_all (column_obeyed (data (tbl_name t))) (tbl_columns t) \<and>
     list_all (\<lambda>(n, k). satisfied data (data (tbl_name t)) k) (tbl_constraints t)"

definition conforms :: "sql_schema \<Rightarrow> stored \<Rightarrow> bool" where
  "conforms sc data \<longleftrightarrow> list_all (table_obeyed data) (sc_tables sc)"

section \<open>Statements\<close>

datatype alter = SetType string col_type | SetDefault string col_default

text \<open>The statements of the migrations; \<^verbatim>\<open>CREATE\<close> and \<^verbatim>\<open>DROP\<close> of tables and indexes and \<^verbatim>\<open>DROP CONSTRAINT\<close>
  have \<^verbatim>\<open>IF (NOT) EXISTS\<close> throughout.\<close>

datatype ddl =
    CreateTable tbl
  | CreateIndex idx
  | DropTable string
  | DropIndex string
  | AddConstraint string string tbl_constraint
  | DropConstraint string string
  | AlterTable string "alter list"
  | AlterSequenceAs string col_type

type_synonym sql_instance = "sql_schema \<times> stored"

definition find_tbl :: "sql_schema \<Rightarrow> string \<Rightarrow> tbl option" where
  "find_tbl sc n = find (\<lambda>t. tbl_name t = n) (sc_tables sc)"

definition put_tbl :: "tbl \<Rightarrow> sql_schema \<Rightarrow> sql_schema" where
  "put_tbl t sc = sc\<lparr>sc_tables := map (\<lambda>u. if tbl_name u = tbl_name t then t else u) (sc_tables sc)\<rparr>"

definition has_columns :: "tbl \<Rightarrow> string list \<Rightarrow> bool" where
  "has_columns t cs \<longleftrightarrow> set cs \<subseteq> set (map col_name (tbl_columns t))"

text \<open>A SERIAL column owns a sequence of its type, which its default names.\<close>

definition own_sequences :: "tbl \<Rightarrow> (string \<times> col_type) list" where
  "own_sequences t =
     concat (map (\<lambda>c. case col_default c of Nextval s \<Rightarrow> [(s, col_type c)] | _ \<Rightarrow> []) (tbl_columns t))"

fun refers_to :: "string \<Rightarrow> tbl_constraint \<Rightarrow> bool" where
  "refers_to n (References c t c') \<longleftrightarrow> t = n"
| "refers_to n _ \<longleftrightarrow> False"

fun constraint_column :: "tbl_constraint \<Rightarrow> string" where
  "constraint_column (PrimaryKey c) = c"
| "constraint_column (Unique c) = c"
| "constraint_column (References c t c') = c"
| "constraint_column (CheckGe c k) = c"
| "constraint_column (CheckGt c k) = c"

fun alter_column :: "alter \<Rightarrow> column \<Rightarrow> column" where
  "alter_column (SetType c ty) k = (if col_name k = c then k\<lparr>col_type := ty\<rparr> else k)"
| "alter_column (SetDefault c d) k = (if col_name k = c then k\<lparr>col_default := d\<rparr> else k)"

fun alter_name :: "alter \<Rightarrow> string" where
  "alter_name (SetType c ty) = c"
| "alter_name (SetDefault c d) = c"

fun alter_possible :: "stored_row list \<Rightarrow> alter \<Rightarrow> bool" where
  "alter_possible rows (SetType c ty) \<longleftrightarrow> list_all (\<lambda>r. fits_type ty (cell c r)) rows"
| "alter_possible rows (SetDefault c d) \<longleftrightarrow> True"

fun ddl_exec :: "ddl \<Rightarrow> sql_instance \<Rightarrow> string + sql_instance" where
  "ddl_exec (CreateTable t) (sc, data) =
     (if find_tbl sc (tbl_name t) \<noteq> None then Inr (sc, data)
      else Inr (sc\<lparr>sc_tables := sc_tables sc @ [t], sc_sequences := sc_sequences sc @ own_sequences t\<rparr>,
                data(tbl_name t := [])))"
| "ddl_exec (CreateIndex i) (sc, data) =
     (if idx_name i \<in> set (map idx_name (sc_indexes sc)) then Inr (sc, data)
      else (case find_tbl sc (idx_table i) of
              None \<Rightarrow> Inl ''42P01''
            | Some t \<Rightarrow>
                (if has_columns t (map fst (idx_columns i))
                 then Inr (sc\<lparr>sc_indexes := sc_indexes sc @ [i]\<rparr>, data) else Inl ''42703'')))"
| "ddl_exec (DropTable n) (sc, data) =
     (case find_tbl sc n of
        None \<Rightarrow> Inr (sc, data)
      | Some t \<Rightarrow>
          (if list_ex (\<lambda>u. tbl_name u \<noteq> n \<and> list_ex (refers_to n \<circ> snd) (tbl_constraints u)) (sc_tables sc)
           then Inl ''2BP01''
           else Inr (sc\<lparr>sc_tables := filter (\<lambda>u. tbl_name u \<noteq> n) (sc_tables sc),
                        sc_indexes := filter (\<lambda>i. idx_table i \<noteq> n) (sc_indexes sc),
                        sc_sequences := filter (\<lambda>s. fst s \<notin> set (map fst (own_sequences t))) (sc_sequences sc)\<rparr>,
                     data(n := []))))"
| "ddl_exec (DropIndex n) (sc, data) =
     Inr (sc\<lparr>sc_indexes := filter (\<lambda>i. idx_name i \<noteq> n) (sc_indexes sc)\<rparr>, data)"
| "ddl_exec (AddConstraint n name k) (sc, data) =
     (case find_tbl sc n of
        None \<Rightarrow> Inl ''42P01''
      | Some t \<Rightarrow>
          (if name \<in> set (map fst (tbl_constraints t)) then Inl ''42710''
           else if \<not> has_columns t [constraint_column k] then Inl ''42703''
           else if \<not> satisfied data (data n) k then Inl ''23514''
           else Inr (put_tbl (t\<lparr>tbl_constraints := tbl_constraints t @ [(name, k)]\<rparr>) sc, data)))"
| "ddl_exec (DropConstraint n name) (sc, data) =
     (case find_tbl sc n of
        None \<Rightarrow> Inl ''42P01''
      | Some t \<Rightarrow> Inr (put_tbl (t\<lparr>tbl_constraints := filter (\<lambda>c. fst c \<noteq> name) (tbl_constraints t)\<rparr>) sc, data))"
| "ddl_exec (AlterTable n as) (sc, data) =
     (case find_tbl sc n of
        None \<Rightarrow> Inl ''42P01''
      | Some t \<Rightarrow>
          (if \<not> has_columns t (map alter_name as) then Inl ''42703''
           else if \<not> list_all (alter_possible (data n)) as then Inl ''22003''
           else Inr (put_tbl (t\<lparr>tbl_columns := map (fold alter_column as) (tbl_columns t)\<rparr>) sc, data)))"
| "ddl_exec (AlterSequenceAs s ty) (sc, data) =
     (if s \<notin> set (map fst (sc_sequences sc)) then Inl ''42P01''
      else Inr (sc\<lparr>sc_sequences := map (\<lambda>(n, u). if n = s then (n, ty) else (n, u)) (sc_sequences sc)\<rparr>, data))"

text \<open>A migration is sent as one query, which PostgreSQL carries out as one transaction: the first error
  undoes all of it.\<close>

fun migrate :: "ddl list \<Rightarrow> sql_instance \<Rightarrow> string + sql_instance" where
  "migrate [] s = Inr s"
| "migrate (d # ds) s = (case ddl_exec d s of Inl e \<Rightarrow> Inl e | Inr s' \<Rightarrow> migrate ds s')"

section \<open>The migrations\<close>

text \<open>The columns of a table, with the id type as an argument: SERIAL is an INTEGER, BIGSERIAL a BIGINT column
  that draws its default from a sequence.\<close>

definition serial :: "string \<Rightarrow> col_type \<Rightarrow> column" where
  "serial t ty = \<lparr>col_name = ''id'', col_type = ty, col_not_null = True, col_default = Nextval (t @ ''_id_seq'')\<rparr>"

definition required :: "string \<Rightarrow> col_type \<Rightarrow> col_default \<Rightarrow> column" where
  "required c ty dflt = \<lparr>col_name = c, col_type = ty, col_not_null = True, col_default = dflt\<rparr>"

definition users_table :: "col_type \<Rightarrow> tbl" where
  "users_table int_ty =
     \<lparr>tbl_name = ''users'',
      tbl_columns =
        [serial ''users'' int_ty, required ''phone'' (SqlVarchar 20) NoDefault, required ''account_number'' (SqlVarchar 20) NoDefault,
         required ''username'' (SqlVarchar 50) NoDefault, required ''password_hash'' (SqlVarchar 255) NoDefault,
         required ''balance'' int_ty (DefaultInt 100000), required ''is_admin'' SqlBoolean (DefaultBool False)],
      tbl_constraints =
        [(''users_pkey'', PrimaryKey ''id''), (''users_phone_key'', Unique ''phone''),
         (''users_account_number_key'', Unique ''account_number'')]\<rparr>"

definition transfers_table :: "col_type \<Rightarrow> tbl" where
  "transfers_table int_ty =
     \<lparr>tbl_name = ''transfers'',
      tbl_columns =
        [serial ''transfers'' int_ty, required ''from_user'' int_ty NoDefault, required ''to_user'' int_ty NoDefault,
         required ''amount'' int_ty NoDefault, required ''created_at'' SqlTimestamptz DefaultNow],
      tbl_constraints =
        [(''transfers_pkey'', PrimaryKey ''id''), (''transfers_from_user_fkey'', References ''from_user'' ''users'' ''id''),
         (''transfers_to_user_fkey'', References ''to_user'' ''users'' ''id'')]\<rparr>"

definition notifications_table :: "col_type \<Rightarrow> tbl" where
  "notifications_table int_ty =
     \<lparr>tbl_name = ''notifications'',
      tbl_columns =
        [serial ''notifications'' int_ty, required ''user_id'' int_ty NoDefault, required ''message'' (SqlVarchar 255) NoDefault,
         required ''is_read'' SqlBoolean (DefaultBool False), required ''created_at'' SqlTimestamptz DefaultNow],
      tbl_constraints =
        [(''notifications_pkey'', PrimaryKey ''id''), (''notifications_user_id_fkey'', References ''user_id'' ''users'' ''id'')]\<rparr>"

definition ascending :: "string \<Rightarrow> string \<Rightarrow> string \<Rightarrow> ddl" where
  "ascending i t c = CreateIndex \<lparr>idx_name = i, idx_table = t, idx_columns = [(c, False)]\<rparr>"

definition recent_first :: "string \<Rightarrow> string \<Rightarrow> string \<Rightarrow> ddl" where
  "recent_first i t c = CreateIndex \<lparr>idx_name = i, idx_table = t, idx_columns = [(c, False), (''created_at'', True)]\<rparr>"

definition init_up :: "ddl list" where
  "init_up =
     [CreateTable (users_table SqlInteger),
      ascending ''idx_users_phone'' ''users'' ''phone'', ascending ''idx_users_account_number'' ''users'' ''account_number'',
      ascending ''idx_users_username'' ''users'' ''username'',
      CreateTable (transfers_table SqlInteger), CreateTable (notifications_table SqlInteger),
      ascending ''idx_notifications_user_id'' ''notifications'' ''user_id'']"

definition init_down :: "ddl list" where
  "init_down = [DropTable ''notifications'', DropTable ''transfers'', DropTable ''users'']"

definition constraints_and_indexes_up :: "ddl list" where
  "constraints_and_indexes_up =
     [AddConstraint ''users'' ''users_balance_non_negative'' (CheckGe ''balance'' 0),
      AddConstraint ''transfers'' ''transfers_amount_positive'' (CheckGt ''amount'' 0),
      ascending ''idx_transfers_from_user'' ''transfers'' ''from_user'', ascending ''idx_transfers_to_user'' ''transfers'' ''to_user'',
      recent_first ''idx_transfers_from_user_created_at'' ''transfers'' ''from_user'',
      recent_first ''idx_notifications_user_id_created_at'' ''notifications'' ''user_id'']"

definition constraints_and_indexes_down :: "ddl list" where
  "constraints_and_indexes_down =
     [DropIndex ''idx_notifications_user_id_created_at'', DropIndex ''idx_transfers_from_user_created_at'',
      DropIndex ''idx_transfers_to_user'', DropIndex ''idx_transfers_from_user'',
      DropConstraint ''transfers'' ''transfers_amount_positive'', DropConstraint ''users'' ''users_balance_non_negative'']"

definition bigint_ids_up :: "ddl list" where
  "bigint_ids_up =
     [AlterTable ''users''
        [SetType ''id'' SqlBigint, SetDefault ''id'' (Nextval ''users_id_seq''), SetType ''balance'' SqlBigint],
      AlterSequenceAs ''users_id_seq'' SqlBigint,
      AlterTable ''transfers''
        [SetType ''id'' SqlBigint, SetDefault ''id'' (Nextval ''transfers_id_seq''), SetType ''from_user'' SqlBigint,
         SetType ''to_user'' SqlBigint, SetType ''amount'' SqlBigint],
      AlterSequenceAs ''transfers_id_seq'' SqlBigint,
      AlterTable ''notifications''
        [SetType ''id'' SqlBigint, SetDefault ''id'' (Nextval ''notifications_id_seq''), SetType ''user_id'' SqlBigint],
      AlterSequenceAs ''notifications_id_seq'' SqlBigint]"

definition bigint_ids_down :: "ddl list" where
  "bigint_ids_down =
     [AlterTable ''notifications'' [SetType ''user_id'' SqlInteger, SetType ''id'' SqlInteger],
      AlterTable ''transfers''
        [SetType ''amount'' SqlInteger, SetType ''to_user'' SqlInteger, SetType ''from_user'' SqlInteger, SetType ''id'' SqlInteger],
      AlterTable ''users'' [SetType ''balance'' SqlInteger, SetType ''id'' SqlInteger]]"

text \<open>The init scripts of the Helm chart, which set up the database of a cluster instead of the migrations.\<close>

definition helm_init :: "ddl list" where
  "helm_init =
     [CreateTable (users_table SqlBigint),
      ascending ''idx_users_phone'' ''users'' ''phone'', ascending ''idx_users_account_number'' ''users'' ''account_number'',
      ascending ''idx_users_username'' ''users'' ''username'',
      CreateTable (transfers_table SqlBigint), CreateTable (notifications_table SqlBigint),
      ascending ''idx_notifications_user_id'' ''notifications'' ''user_id''] @
     [AddConstraint ''users'' ''users_balance_non_negative'' (CheckGe ''balance'' 0),
      AddConstraint ''transfers'' ''transfers_amount_positive'' (CheckGt ''amount'' 0),
      ascending ''idx_transfers_from_user'' ''transfers'' ''from_user'', ascending ''idx_transfers_to_user'' ''transfers'' ''to_user'',
      recent_first ''idx_transfers_from_user_created_at'' ''transfers'' ''from_user'',
      recent_first ''idx_notifications_user_id_created_at'' ''notifications'' ''user_id'']"

definition no_schema :: sql_schema where
  "no_schema = \<lparr>sc_tables = [], sc_indexes = [], sc_sequences = []\<rparr>"

definition nothing :: sql_instance where
  "nothing = (no_schema, \<lambda>_. [])"

definition all_up :: "ddl list" where
  "all_up = init_up @ constraints_and_indexes_up @ bigint_ids_up"

text \<open>The schema after the migrations: \<open>int_ty\<close> is the type of ids, balances and amounts, \<open>seq_ty\<close> that of
  the sequences, \<open>checked\<close> whether the second migration has been applied.\<close>

definition with_check :: "bool \<Rightarrow> string \<times> tbl_constraint \<Rightarrow> tbl \<Rightarrow> tbl" where
  "with_check checked k t = (if checked then t\<lparr>tbl_constraints := tbl_constraints t @ [k]\<rparr> else t)"

definition bank_schema :: "col_type \<Rightarrow> col_type \<Rightarrow> bool \<Rightarrow> sql_schema" where
  "bank_schema int_ty seq_ty checked =
     \<lparr>sc_tables =
        [with_check checked (''users_balance_non_negative'', CheckGe ''balance'' 0) (users_table int_ty),
         with_check checked (''transfers_amount_positive'', CheckGt ''amount'' 0) (transfers_table int_ty),
         notifications_table int_ty],
      sc_indexes =
        [\<lparr>idx_name = ''idx_users_phone'', idx_table = ''users'', idx_columns = [(''phone'', False)]\<rparr>,
         \<lparr>idx_name = ''idx_users_account_number'', idx_table = ''users'', idx_columns = [(''account_number'', False)]\<rparr>,
         \<lparr>idx_name = ''idx_users_username'', idx_table = ''users'', idx_columns = [(''username'', False)]\<rparr>,
         \<lparr>idx_name = ''idx_notifications_user_id'', idx_table = ''notifications'', idx_columns = [(''user_id'', False)]\<rparr>] @
        (if checked then
        [\<lparr>idx_name = ''idx_transfers_from_user'', idx_table = ''transfers'', idx_columns = [(''from_user'', False)]\<rparr>,
         \<lparr>idx_name = ''idx_transfers_to_user'', idx_table = ''transfers'', idx_columns = [(''to_user'', False)]\<rparr>,
         \<lparr>idx_name = ''idx_transfers_from_user_created_at'', idx_table = ''transfers'',
          idx_columns = [(''from_user'', False), (''created_at'', True)]\<rparr>,
         \<lparr>idx_name = ''idx_notifications_user_id_created_at'', idx_table = ''notifications'',
          idx_columns = [(''user_id'', False), (''created_at'', True)]\<rparr>] else []),
      sc_sequences = [(''users_id_seq'', seq_ty), (''transfers_id_seq'', seq_ty), (''notifications_id_seq'', seq_ty)]\<rparr>"

section \<open>Each migration\<close>

lemma migrate_append:
  "migrate (xs @ ys) s = (case migrate xs s of Inl e \<Rightarrow> Inl e | Inr s' \<Rightarrow> migrate ys s')"
  by (induction xs arbitrary: s) (auto split: sum.splits)

lemma no_rows [simp]: "(\<lambda>_. [])(t := []) = (\<lambda>_. [])"
  by (rule fun_upd_idem) (rule refl)

lemmas table_defs = users_table_def transfers_table_def notifications_table_def serial_def required_def

lemmas ddl_defs = find_tbl_def put_tbl_def has_columns_def own_sequences_def ascending_def recent_first_def
  bank_schema_def with_check_def

lemma init_up_ok: "migrate init_up nothing = Inr (bank_schema SqlInteger SqlInteger False, \<lambda>_. [])"
  by (simp add: init_up_def nothing_def no_schema_def table_defs ddl_defs)

lemma constraints_up:
  "migrate constraints_and_indexes_up (bank_schema ty q False, data) =
     (if satisfied data (data ''users'') (CheckGe ''balance'' 0) \<and> satisfied data (data ''transfers'') (CheckGt ''amount'' 0)
      then Inr (bank_schema ty q True, data) else Inl ''23514'')"
  by (simp add: constraints_and_indexes_up_def table_defs ddl_defs del: satisfied.simps)

lemma constraints_down:
  "migrate constraints_and_indexes_down (bank_schema ty q True, data) = Inr (bank_schema ty q False, data)"
  by (simp add: constraints_and_indexes_down_def table_defs ddl_defs)

text \<open>The columns whose type the third migration changes.\<close>

definition int_columns :: "(string \<times> string) list" where
  "int_columns =
     [(''users'', ''id''), (''users'', ''balance''), (''transfers'', ''id''), (''transfers'', ''from_user''),
      (''transfers'', ''to_user''), (''transfers'', ''amount''), (''notifications'', ''id''), (''notifications'', ''user_id'')]"

definition values_fit :: "col_type \<Rightarrow> stored \<Rightarrow> bool" where
  "values_fit ty data \<longleftrightarrow> list_all (\<lambda>(t, c). list_all (\<lambda>r. fits_type ty (cell c r)) (data t)) int_columns"

lemma bigint_up:
  "migrate bigint_ids_up (bank_schema SqlInteger q k, data) =
     (if values_fit SqlBigint data then Inr (bank_schema SqlBigint SqlBigint k, data) else Inl ''22003'')"
  by (cases k) (auto simp: bigint_ids_up_def table_defs ddl_defs values_fit_def int_columns_def)

lemma bigint_down:
  "migrate bigint_ids_down (bank_schema SqlBigint q k, data) =
     (if values_fit SqlInteger data then Inr (bank_schema SqlInteger q k, data) else Inl ''22003'')"
  by (cases k) (auto simp: bigint_ids_down_def table_defs ddl_defs values_fit_def int_columns_def)

lemma init_down_ok:
  "migrate init_down (bank_schema ty q k, data) =
     Inr (no_schema, data(''notifications'' := [], ''transfers'' := [], ''users'' := []))"
  by (cases k) (simp_all add: init_down_def no_schema_def table_defs ddl_defs)

lemma helm_init_ok: "migrate helm_init nothing = Inr (bank_schema SqlBigint SqlBigint True, \<lambda>_. [])"
  by (simp add: helm_init_def nothing_def no_schema_def table_defs ddl_defs)

lemma values_fit_none [simp]: "values_fit ty (\<lambda>_. [])"
  by (simp add: values_fit_def list_all_iff)

lemma all_up_ok: "migrate all_up nothing = Inr (bank_schema SqlBigint SqlBigint True, \<lambda>_. [])"
  by (simp add: all_up_def migrate_append init_up_ok constraints_up bigint_up)

section \<open>The rows of the tables\<close>

definition user_stored :: "user \<Rightarrow> stored_row" where
  "user_stored u =
     [(''id'', VInt (u_id u)), (''phone'', VText (u_phone u)), (''account_number'', VText (u_account_number u)),
      (''username'', VText (u_username u)), (''password_hash'', VText (u_password_hash u)),
      (''balance'', VInt (u_balance u)), (''is_admin'', VBool (u_is_admin u))]"

definition transfer_stored :: "transfer \<Rightarrow> stored_row" where
  "transfer_stored t =
     [(''id'', VInt (t_id t)), (''from_user'', VInt (t_from_user t)), (''to_user'', VInt (t_to_user t)),
      (''amount'', VInt (t_amount t)), (''created_at'', VTime (t_created_at t))]"

definition notification_stored :: "notification \<Rightarrow> stored_row" where
  "notification_stored x =
     [(''id'', VInt (n_id x)), (''user_id'', VInt (n_user_id x)), (''message'', VText (n_message x)),
      (''is_read'', VBool (n_is_read x)), (''created_at'', VTime (n_created_at x))]"

definition rows_of :: "db \<Rightarrow> stored" where
  "rows_of d =
     (\<lambda>_. [])(''users'' := map user_stored (users d), ''transfers'' := map transfer_stored (transfers d),
               ''notifications'' := map notification_stored (notifications d))"

text \<open>The column ranges that \<open>db_wf\<close> does not mention because no handler depends on them.\<close>

definition other_ranges :: "db \<Rightarrow> bool" where
  "other_ranges d \<longleftrightarrow>
     list_all (\<lambda>u. CHR 0x00 \<notin> set (u_phone u) \<and> CHR 0x00 \<notin> set (u_account_number u) \<and>
       utf8_len (u_password_hash u) \<le> 255 \<and> CHR 0x00 \<notin> set (u_password_hash u)) (users d) \<and>
     list_all (\<lambda>t. in64 (t_id t) \<and> in64 (t_amount t)) (transfers d) \<and>
     list_all (\<lambda>x. in64 (n_id x) \<and> CHR 0x00 \<notin> set (n_message x)) (notifications d)"

lemma rows_of_tables [simp]:
  "rows_of d ''users'' = map user_stored (users d)" "rows_of d ''transfers'' = map transfer_stored (transfers d)"
  "rows_of d ''notifications'' = map notification_stored (notifications d)"
  by (simp_all add: rows_of_def)

lemma user_cells [simp]:
  "cell ''id'' (user_stored u) = VInt (u_id u)" "cell ''phone'' (user_stored u) = VText (u_phone u)"
  "cell ''account_number'' (user_stored u) = VText (u_account_number u)"
  "cell ''username'' (user_stored u) = VText (u_username u)"
  "cell ''password_hash'' (user_stored u) = VText (u_password_hash u)"
  "cell ''balance'' (user_stored u) = VInt (u_balance u)" "cell ''is_admin'' (user_stored u) = VBool (u_is_admin u)"
  by (simp_all add: cell_def user_stored_def)

lemma transfer_cells [simp]:
  "cell ''id'' (transfer_stored t) = VInt (t_id t)" "cell ''from_user'' (transfer_stored t) = VInt (t_from_user t)"
  "cell ''to_user'' (transfer_stored t) = VInt (t_to_user t)" "cell ''amount'' (transfer_stored t) = VInt (t_amount t)"
  "cell ''created_at'' (transfer_stored t) = VTime (t_created_at t)"
  by (simp_all add: cell_def transfer_stored_def)

lemma notification_cells [simp]:
  "cell ''id'' (notification_stored x) = VInt (n_id x)" "cell ''user_id'' (notification_stored x) = VInt (n_user_id x)"
  "cell ''message'' (notification_stored x) = VText (n_message x)"
  "cell ''is_read'' (notification_stored x) = VBool (n_is_read x)"
  "cell ''created_at'' (notification_stored x) = VTime (n_created_at x)"
  by (simp_all add: cell_def notification_stored_def)

lemma distinct_VInt: "distinct (map (\<lambda>x. VInt (f x)) xs) \<longleftrightarrow> distinct (map f xs)"
  by (simp add: distinct_map inj_on_def)

lemma distinct_VText: "distinct (map (\<lambda>x. VText (f x)) xs) \<longleftrightarrow> distinct (map f xs)"
  by (simp add: distinct_map inj_on_def)

lemma VInt_image [simp]: "VInt i \<in> (\<lambda>x. VInt (f x)) ` A \<longleftrightarrow> i \<in> f ` A"
  by auto

lemma table_obeyed_users:
  "table_obeyed (rows_of d) (with_check k (''users_balance_non_negative'', CheckGe ''balance'' 0) (users_table SqlBigint)) \<longleftrightarrow>
   distinct (map u_id (users d)) \<and> distinct (map u_phone (users d)) \<and> distinct (map u_account_number (users d)) \<and>
   list_all (\<lambda>u. in64 (u_id u) \<and> in64 (u_balance u) \<and> (k \<longrightarrow> 0 \<le> u_balance u) \<and>
     utf8_len (u_phone u) \<le> 20 \<and> CHR 0x00 \<notin> set (u_phone u) \<and>
     utf8_len (u_account_number u) \<le> 20 \<and> CHR 0x00 \<notin> set (u_account_number u) \<and>
     utf8_len (u_username u) \<le> 50 \<and> CHR 0x00 \<notin> set (u_username u) \<and>
     utf8_len (u_password_hash u) \<le> 255 \<and> CHR 0x00 \<notin> set (u_password_hash u)) (users d)"
  by (cases k) (auto simp: table_obeyed_def column_obeyed_def with_check_def table_defs list.pred_map comp_def list_all_iff
      distinct_VInt distinct_VText)

lemma table_obeyed_transfers:
  "table_obeyed (rows_of d) (with_check k (''transfers_amount_positive'', CheckGt ''amount'' 0) (transfers_table SqlBigint)) \<longleftrightarrow>
   distinct (map t_id (transfers d)) \<and>
   list_all (\<lambda>t. in64 (t_id t) \<and> in64 (t_from_user t) \<and> in64 (t_to_user t) \<and> in64 (t_amount t) \<and>
     (k \<longrightarrow> 0 < t_amount t) \<and> t_from_user t \<in> user_ids d \<and> t_to_user t \<in> user_ids d) (transfers d)"
  by (cases k) (auto simp: table_obeyed_def column_obeyed_def with_check_def table_defs list.pred_map comp_def list_all_iff
      distinct_VInt user_ids_def)

lemma table_obeyed_notifications:
  "table_obeyed (rows_of d) (notifications_table SqlBigint) \<longleftrightarrow>
   distinct (map n_id (notifications d)) \<and>
   list_all (\<lambda>x. in64 (n_id x) \<and> in64 (n_user_id x) \<and> n_user_id x \<in> user_ids d \<and>
     utf8_len (n_message x) \<le> 255 \<and> CHR 0x00 \<notin> set (n_message x)) (notifications d)"
  by (auto simp: table_obeyed_def column_obeyed_def table_defs list.pred_map comp_def list_all_iff
      distinct_VInt user_ids_def)

lemma conforms_iff:
  "conforms (bank_schema SqlBigint q True) (rows_of d) \<longleftrightarrow> db_wf d \<and> other_ranges d"
  unfolding conforms_def bank_schema_def
  by (auto simp: table_obeyed_users table_obeyed_transfers table_obeyed_notifications db_wf_def other_ranges_def
      user_row_wf_def list_all_iff user_ids_def)

definition obeys_schema :: "db \<Rightarrow> bool" where
  "obeys_schema d \<longleftrightarrow> conforms (bank_schema SqlBigint SqlBigint True) (rows_of d)"

lemma obeys_iff: "obeys_schema d \<longleftrightarrow> db_wf d \<and> other_ranges d"
  by (simp add: obeys_schema_def conforms_iff)

section \<open>Statements and the schema\<close>

text \<open>A statement that changes the tables raises an error of \<open>sql_errs\<close> exactly when the tables would not
  obey the schema afterwards.\<close>

lemma text_errs_none: "text_errs n s = [] \<longleftrightarrow> utf8_len s \<le> n \<and> CHR 0x00 \<notin> set s"
  by (auto simp: text_errs_def)

lemma insert_user_errs:
  assumes "obeys_schema d" and "fresh (map u_id (users d)) i" and "list_all (\<lambda>u. u_account_number u \<noteq> acct) (users d)"
  shows "(sql_errs (InsertUser phone acct username hash) d = []) =
    obeys_schema (d\<lparr>users := users d @ [new_user i phone acct username hash]\<rparr>)"
  using assms
  by (auto simp: obeys_iff db_wf_def other_ranges_def user_row_wf_def new_user_def fresh_def text_errs_none in64_def
      list_all_iff list_ex_iff user_ids_def)

lemma insert_transfer_errs:
  assumes "obeys_schema d" and "fresh (map t_id (transfers d)) i" and "in64 amt"
  shows "(sql_errs (InsertTransfer f t amt) d = []) =
    obeys_schema (d\<lparr>transfers := transfers d @
      [\<lparr>t_id = i, t_from_user = f, t_to_user = t, t_amount = amt, t_created_at = now\<rparr>]\<rparr>)"
  using assms
  by (auto simp: obeys_iff db_wf_def other_ranges_def fresh_def list_all_iff user_ids_def)

lemma insert_notifications_errs:
  assumes "obeys_schema d" and "length ids = length xs" and "distinct ids" and "list_all (fresh (map n_id (notifications d))) ids"
  shows "(sql_errs (InsertNotifications xs) d = []) =
    obeys_schema (d\<lparr>notifications := notifications d @ new_notifications xs ids now\<rparr>)"
proof -
  let ?d = "d\<lparr>notifications := notifications d @ new_notifications xs ids now\<rparr>"
  have ids: "map n_id (new_notifications xs ids now) = ids" by (rule new_notifications_props(1)[OF assms(2)])
  have all: "list_all (\<lambda>x. P (n_user_id x) (n_message x)) (new_notifications xs ids now) = list_all (\<lambda>(u, m). P u m) xs" for P
    using assms(2) by (induction xs ids rule: list_induct2') (auto simp: new_notifications_def)
  have in64: "list_all (\<lambda>x. in64 (n_id x)) (new_notifications xs ids now)"
  proof -
    have "list_all in64 (map n_id (new_notifications xs ids now))"
      unfolding ids using assms(4) by (auto simp: list_all_iff fresh_def)
    then show ?thesis by (simp add: list.pred_map comp_def)
  qed
  have "distinct (map n_id (notifications ?d))"
    using assms ids by (auto simp: obeys_iff db_wf_def list_all_iff fresh_def simp flip: set_map)
  then have "obeys_schema ?d = list_all (\<lambda>x. n_user_id x \<in> user_ids d \<and> utf8_len (n_message x) \<le> 255 \<and> CHR 0x00 \<notin> set (n_message x))
      (new_notifications xs ids now)"
    using assms(1) in64 by (auto simp: obeys_iff db_wf_def other_ranges_def list_all_iff user_ids_def)
  also have "\<dots> = (sql_errs (InsertNotifications xs) d = [])"
    unfolding all[of "\<lambda>u m. u \<in> user_ids d \<and> utf8_len m \<le> 255 \<and> CHR 0x00 \<notin> set m"]
    by (auto simp: list_all_iff text_errs_none)
  finally show ?thesis ..
qed

text \<open>For the balance update this holds where no CASE arm leaves the new balance NULL, which a row of the
  model cannot hold.\<close>

lemma update_balances_errs:
  assumes "obeys_schema d" and "list_all (\<lambda>u. u_id u \<in> {s, r} \<longrightarrow> case_balance s r a u \<noteq> None) (users d)"
  shows "(sql_errs (UpdateBalances s r a) d = []) =
    obeys_schema (d\<lparr>users := map (update_user_balance s r a) (users d)\<rparr>)"
proof -
  let ?d = "d\<lparr>users := map (update_user_balance s r a) (users d)\<rparr>"
  let ?ok = "\<lambda>u. u_id u \<in> {s, r} \<longrightarrow> in64 (the (case_balance s r a u)) \<and> 0 \<le> the (case_balance s r a u)"
  have "(sql_errs (UpdateBalances s r a) d = []) = list_all ?ok (users d)"
  proof -
    define us where "us = filter (\<lambda>u. u_id u \<in> {s, r}) (users d)"
    have c: "\<forall>u \<in> set us. case_balance s r a u \<noteq> None" using assms(2) by (auto simp: list_all_iff us_def)
    have "(sql_errs (UpdateBalances s r a) d = []) =
        (\<forall>u \<in> set us. case_balance s r a u \<noteq> None \<and> in64 (the (case_balance s r a u)) \<and> 0 \<le> the (case_balance s r a u))"
      unfolding sql_errs.simps Let_def us_def[symmetric] using c by (force simp: list_ex_iff not_less)
    then show ?thesis using c by (auto simp: us_def list_all_iff)
  qed
  also have "\<dots> = list_all (\<lambda>u. in64 (u_balance (update_user_balance s r a u)) \<and> 0 \<le> u_balance (update_user_balance s r a u)) (users d)"
    using assms(1) by (auto simp: list_all_iff update_user_balance_def obeys_iff db_wf_def user_row_wf_def)
  also have "\<dots> = obeys_schema ?d"
  proof -
    have p: "u_password_hash (update_user_balance s r a u) = u_password_hash u" for u by (simp add: update_user_balance_def)
    show ?thesis using assms(1)
      by (auto simp: obeys_iff db_wf_def other_ranges_def user_row_wf_def list_all_iff p list.pred_map comp_def)
  qed
  finally show ?thesis .
qed

section \<open>Properties\<close>

text \<open>Property C20. The schema is what the other theories assume of it. From an empty database, the three up migrations
  and, independently, the init scripts of the Helm chart succeed and build the same schema, with the
  same tables, constraints, indexes and sequences; and tables obey it exactly when they satisfy the
  invariant \<open>db_wf\<close> and their remaining values are within the ranges of their columns.\<close>

theorem migrations_build_the_schema:
  "\<exists>sc. migrate all_up nothing = Inr (sc, \<lambda>_. []) \<and> migrate helm_init nothing = Inr (sc, \<lambda>_. []) \<and>
     (\<forall>d. conforms sc (rows_of d) = (db_wf d \<and> other_ranges d))"
  by (intro exI[of _ "bank_schema SqlBigint SqlBigint True"] conjI allI) (simp_all add: all_up_ok helm_init_ok conforms_iff)

lemma conforms_fit:
  assumes "conforms (bank_schema SqlInteger q k) data"
  shows "values_fit SqlInteger data" "values_fit SqlBigint data"
proof -
  have "fits_type SqlInteger v \<Longrightarrow> fits_type SqlBigint v" for v by (cases v) (auto simp: in32_def in64_def)
  moreover show "values_fit SqlInteger data"
    using assms by (cases k) (auto simp: conforms_def bank_schema_def with_check_def table_obeyed_def column_obeyed_def
        table_defs values_fit_def int_columns_def list_all_iff)
  ultimately show "values_fit SqlBigint data" by (auto simp: values_fit_def list_all_iff)
qed

text \<open>Property C22. The migrations can be taken back. On stored rows that obey the schema of the first migration: the
  second is refused exactly when a balance is negative or an amount is not positive, and its down
  migration restores the schema; the third is never refused, keeps every row, and its down migration
  is refused (numeric value out of range) exactly when a value needs more than 32 bits, and otherwise
  restores the schema, except that the sequences stay BIGINT; the last down migration leaves
  nothing.\<close>

theorem migrations_are_reversible:
  assumes "conforms (bank_schema SqlInteger SqlInteger False) data"
  shows "migrate constraints_and_indexes_up (bank_schema SqlInteger SqlInteger False, data) =
      (if satisfied data (data ''users'') (CheckGe ''balance'' 0) \<and> satisfied data (data ''transfers'') (CheckGt ''amount'' 0)
       then Inr (bank_schema SqlInteger SqlInteger True, data) else Inl ''23514'') \<and>
    migrate constraints_and_indexes_down (bank_schema SqlInteger SqlInteger True, data) =
      Inr (bank_schema SqlInteger SqlInteger False, data) \<and>
    migrate bigint_ids_up (bank_schema SqlInteger SqlInteger True, data) = Inr (bank_schema SqlBigint SqlBigint True, data) \<and>
    migrate (bigint_ids_up @ bigint_ids_down) (bank_schema SqlInteger SqlInteger True, data) =
      Inr (bank_schema SqlInteger SqlBigint True, data) \<and>
    migrate bigint_ids_down (bank_schema SqlBigint SqlBigint True, data') =
      (if values_fit SqlInteger data' then Inr (bank_schema SqlInteger SqlBigint True, data') else Inl ''22003'') \<and>
    migrate (constraints_and_indexes_down @ init_down) (bank_schema SqlInteger SqlBigint True, data) =
      Inr (no_schema, data(''notifications'' := [], ''transfers'' := [], ''users'' := []))"
  by (simp add: constraints_up constraints_down bigint_up bigint_down conforms_fit[OF assms] migrate_append init_down_ok
      del: satisfied.simps)

text \<open>Rows that obey the first schema: one user who owes money (the second migration refuses them).\<close>

definition indebted :: stored where
  "indebted = (\<lambda>_. [])(''users'' := [user_stored \<lparr>u_id = 1, u_phone = ''0901'', u_account_number = ''11'', u_username = ''alice'',
     u_password_hash = ''pw'', u_balance = - 5, u_is_admin = False\<rparr>])"

theorem migrations_are_reversible_witness:
  "migrate constraints_and_indexes_up (bank_schema SqlInteger SqlInteger False, indebted) = Inl ''23514'' \<and>
   migrate (bigint_ids_up @ bigint_ids_down) (bank_schema SqlInteger SqlInteger True, indebted) =
     Inr (bank_schema SqlInteger SqlBigint True, indebted)"
proof -
  have "conforms (bank_schema SqlInteger SqlInteger False) indebted"
    by (simp add: conforms_def bank_schema_def with_check_def table_obeyed_def column_obeyed_def table_defs indebted_def
        in32_def utf8_len_def)
  from migrations_are_reversible[OF this] show ?thesis by (simp add: indebted_def)
qed

text \<open>Property C21. The errors the services have to expect are those of the schema: on tables that obey it, a statement that
  adds a user (whose account number is free), a transfer or notifications, or that moves money, raises
  an error of \<open>sql_errs\<close> exactly when the tables it would leave do not obey the schema.\<close>

theorem statement_errors_match_schema:
  assumes "obeys_schema d" and "in64 amt"
    and "fresh (map u_id (users d)) ui" and "list_all (\<lambda>u. u_account_number u \<noteq> acct) (users d)"
    and "fresh (map t_id (transfers d)) ti"
    and "length ids = length xs" and "distinct ids" and "list_all (fresh (map n_id (notifications d))) ids"
    and "list_all (\<lambda>u. u_id u \<in> {s, r} \<longrightarrow> case_balance s r amt u \<noteq> None) (users d)"
  shows "(sql_errs (InsertUser phone acct username hash) d = []) =
      obeys_schema (d\<lparr>users := users d @ [new_user ui phone acct username hash]\<rparr>) \<and>
    (sql_errs (InsertTransfer s r amt) d = []) =
      obeys_schema (d\<lparr>transfers := transfers d @
        [\<lparr>t_id = ti, t_from_user = s, t_to_user = r, t_amount = amt, t_created_at = now\<rparr>]\<rparr>) \<and>
    (sql_errs (InsertNotifications xs) d = []) =
      obeys_schema (d\<lparr>notifications := notifications d @ new_notifications xs ids now\<rparr>) \<and>
    (sql_errs (UpdateBalances s r amt) d = []) =
      obeys_schema (d\<lparr>users := map (update_user_balance s r amt) (users d)\<rparr>)"
  using insert_user_errs[OF assms(1,3,4)] insert_transfer_errs[OF assms(1,5,2)] insert_notifications_errs[OF assms(1,6-8)]
    update_balances_errs[OF assms(1,9)] by blast

theorem statement_errors_match_schema_witness:
  "\<not> obeys_schema \<lparr>users = [new_user 1 ''0901'' ''11'' ''alice'' ''pw''],
     transfers = [\<lparr>t_id = 1, t_from_user = 1, t_to_user = 1, t_amount = 0, t_created_at = 7\<rparr>], notifications = []\<rparr> \<and>
   obeys_schema \<lparr>users = [new_user 1 ''0901'' ''11'' ''alice'' ''pw'', new_user 2 ''0902'' ''22'' ''bob'' ''pw''], transfers = [],
     notifications = []\<rparr>"
proof -
  let ?d = "\<lparr>users = [new_user 1 ''0901'' ''11'' ''alice'' ''pw''], transfers = [], notifications = []\<rparr>"
  have "obeys_schema ?d" unfolding obeys_iff by code_simp
  moreover have "sql_errs (InsertUser ''0902'' ''22'' ''bob'' ''pw'') ?d = []" by code_simp
  moreover have "sql_errs (InsertTransfer 1 1 0) ?d \<noteq> []" by code_simp
  ultimately show ?thesis
    using statement_errors_match_schema[of ?d 0 2 "''22''" 1 "[]" "[]" 1 1 "''0902''" "''bob''" "''pw''" 7]
    by (simp add: fresh_def in64_def new_user_def case_balance_def)
qed

end
