(* ===== verification/Redis_Service.thy ===== *)
theory Redis_Service
  imports Db_Service
begin

text \<open>
  The Redis service as an interface. \<^verbatim>\<open>internal/redis\<close> sends single commands and pipelines through
  \<^verbatim>\<open>go-redis\<close>; both are fields of a record \<open>redis\<close>, and \<open>'r\<close> is the state behind the client. The
  locale \<open>redis_service\<close> states what the code relies on: a command that succeeds has the documented
  effect on the keyspace, a failed one has it or not, a failed pipeline has applied some
  subsequence of its commands (a pipeline is no transaction), and between any two calls keys with a
  time to live may expire.

  A stored value is either plain text or the bytes \<^verbatim>\<open>json.Marshal\<close> writes for a value, which \<open>RJson\<close>
  keeps as that value. \<open>r_published\<close> is the sequence of messages published on channels.
\<close>

section \<open>Keyspace and commands\<close>

datatype rval = RText string | RJson json

fun as_text :: "rval \<Rightarrow> string" where
  "as_text (RText s) = s"
| "as_text (RJson (JInt i)) = Itoa i"
| "as_text (RJson _) = ''{''"

fun as_raw :: "rval \<Rightarrow> raw_message" where
  "as_raw (RJson j) = Some j"
| "as_raw (RText s) = None"

record keyspace =
  r_string :: "string \<rightharpoonup> rval \<times> int"
  r_hash :: "string \<times> string \<rightharpoonup> rval"
  r_published :: "(string \<times> rval) list"

datatype rcmd =
    RSet string rval int
  | RGet string
  | RGetToBuffer string nat
  | RDel "string list"
  | RHSet string string rval
  | RHGet string string
  | RPublish string rval

fun redis_apply :: "rcmd \<Rightarrow> keyspace \<Rightarrow> keyspace" where
  "redis_apply (RSet k v ttl) ks = ks\<lparr>r_string := (r_string ks)(k \<mapsto> (v, ttl))\<rparr>"
| "redis_apply (RDel kl) ks = ks\<lparr>r_string := r_string ks |` (- set kl)\<rparr>"
| "redis_apply (RHSet k f v) ks = ks\<lparr>r_hash := (r_hash ks)((k, f) \<mapsto> v)\<rparr>"
| "redis_apply (RPublish ch v) ks = ks\<lparr>r_published := r_published ks @ [(ch, v)]\<rparr>"
| "redis_apply _ ks = ks"

text \<open>The reply; \<open>None\<close> is the nil reply, which \<^verbatim>\<open>go-redis\<close> turns into the error \<^verbatim>\<open>redis.Nil\<close>.\<close>

fun redis_reply :: "rcmd \<Rightarrow> keyspace \<Rightarrow> rval option" where
  "redis_reply (RGet k) ks = map_option fst (r_string ks k)"
| "redis_reply (RGetToBuffer k n) ks = map_option fst (r_string ks k)"
| "redis_reply (RHGet k f) ks = r_hash ks (k, f)"
| "redis_reply _ ks = Some (RText ''OK'')"

text \<open>Only keys stored with a positive time to live may disappear on their own.\<close>

definition expired :: "keyspace \<Rightarrow> keyspace \<Rightarrow> bool" where
  "expired ks ks' \<longleftrightarrow>
     r_string ks' \<subseteq>\<^sub>m r_string ks \<and>
     (\<forall>k v ttl. r_string ks k = Some (v, ttl) \<and> ttl \<le> 0 \<longrightarrow> r_string ks' k = Some (v, ttl)) \<and>
     r_hash ks' = r_hash ks \<and> r_published ks' = r_published ks"

record 'r redis =
  rc_Do :: "rcmd \<Rightarrow> 'r \<Rightarrow> (goerr + rval) \<times> 'r"
  rc_Pipeline :: "rcmd list \<Rightarrow> 'r \<Rightarrow> goerr option \<times> 'r"

locale redis_service =
  fixes R :: "'r redis" and keys :: "'r \<Rightarrow> keyspace"
  assumes do_ok: "rc_Do R c w = (Inr v, w') \<Longrightarrow>
      \<exists>ks. expired (keys w) ks \<and> redis_reply c ks = Some v \<and> keys w' = redis_apply c ks"
    and do_nil: "rc_Do R c w = (Inl e, w') \<Longrightarrow> errors_Is e RedisNil \<Longrightarrow>
      \<exists>ks. expired (keys w) ks \<and> redis_reply c ks = None \<and> keys w' = redis_apply c ks"
    and do_err: "rc_Do R c w = (Inl e, w') \<Longrightarrow> \<not> errors_Is e RedisNil \<Longrightarrow>
      \<not> app_err e \<and> (\<exists>ks. expired (keys w) ks \<and> (keys w' = ks \<or> keys w' = redis_apply c ks))"
    and pipe_ok: "rc_Pipeline R cs w = (None, w') \<Longrightarrow>
      \<exists>ks. expired (keys w) ks \<and> keys w' = fold redis_apply cs ks"
    and pipe_err: "rc_Pipeline R cs w = (Some e, w') \<Longrightarrow>
      \<not> app_err e \<and> (\<exists>ks I. expired (keys w) ks \<and> keys w' = fold redis_apply (nths cs I) ks)"

text \<open>A service without faults: nothing but the nil reply is reported as an error.\<close>

locale reliable_redis = redis_service +
  assumes do_total: "rc_Do R c w = (Inl e, w') \<Longrightarrow> errors_Is e RedisNil"
    and pipe_total: "rc_Pipeline R cs w \<noteq> (Some e, w')"

section \<open>An executable provider\<close>

text \<open>Before each call the next scripted event happens: an error before or after the command took
  effect, or the expiry of keys.\<close>

datatype revent = RFault goerr bool | RExpire "string list" | RQuiet

record memredis =
  mr_keys :: keyspace
  mr_script :: "revent list"

definition mem_expire :: "string list \<Rightarrow> keyspace \<Rightarrow> keyspace" where
  "mem_expire kl ks = ks\<lparr>r_string := (\<lambda>k. case r_string ks k of
      None \<Rightarrow> None
    | Some (v, ttl) \<Rightarrow> (if k \<in> set kl \<and> 0 < ttl then None else Some (v, ttl)))\<rparr>"

definition redis_fault :: "goerr \<Rightarrow> bool" where
  "redis_fault e \<longleftrightarrow> \<not> app_err e \<and> \<not> errors_Is e RedisNil"

definition mr_tick :: "bool \<Rightarrow> memredis \<Rightarrow> (goerr \<times> bool) option \<times> memredis" where
  "mr_tick faulty w =
     (case mr_script w of
        [] \<Rightarrow> (None, w)
      | ev # evs \<Rightarrow>
          (case ev of
             RFault e applied \<Rightarrow> ((if faulty \<and> redis_fault e then Some (e, applied) else None), w\<lparr>mr_script := evs\<rparr>)
           | RExpire kl \<Rightarrow> (None, w\<lparr>mr_script := evs, mr_keys := mem_expire kl (mr_keys w)\<rparr>)
           | RQuiet \<Rightarrow> (None, w\<lparr>mr_script := evs\<rparr>)))"

definition mem_redis :: "bool \<Rightarrow> memredis redis" where
  "mem_redis faulty =
     \<lparr>rc_Do = (\<lambda>c w. case mr_tick faulty w of
          (Some (e, applied), w1) \<Rightarrow> (Inl e, if applied then w1\<lparr>mr_keys := redis_apply c (mr_keys w1)\<rparr> else w1)
        | (None, w1) \<Rightarrow>
            ((case redis_reply c (mr_keys w1) of None \<Rightarrow> Inl RedisNil | Some v \<Rightarrow> Inr v),
             w1\<lparr>mr_keys := redis_apply c (mr_keys w1)\<rparr>)),
      rc_Pipeline = (\<lambda>cs w. case mr_tick faulty w of
          (Some (e, applied), w1) \<Rightarrow>
            (Some e, if applied then w1\<lparr>mr_keys := fold redis_apply (take 1 cs) (mr_keys w1)\<rparr> else w1)
        | (None, w1) \<Rightarrow> (None, w1\<lparr>mr_keys := fold redis_apply cs (mr_keys w1)\<rparr>))\<rparr>"

lemma expired_refl [simp]: "expired ks ks"
  by (simp add: expired_def)

lemma expired_mem_expire: "expired ks (mem_expire kl ks)"
  by (auto simp: expired_def mem_expire_def map_le_def split: option.splits if_splits)

lemma mr_tick_expired: "expired (mr_keys w) (mr_keys (snd (mr_tick faulty w)))"
  using expired_mem_expire by (auto simp: mr_tick_def split: list.splits revent.splits)

lemma mr_tick_fault: "fst (mr_tick faulty w) = Some (e, a) \<Longrightarrow> faulty \<and> redis_fault e"
  by (auto simp: mr_tick_def split: list.splits revent.splits if_splits)

lemma mem_redis_Do:
  assumes "rc_Do (mem_redis faulty) c w = (r, w')"
  obtains (fault) e a where "r = Inl e" "faulty" "redis_fault e"
      "mr_keys w' = (if a then redis_apply c (mr_keys (snd (mr_tick faulty w))) else mr_keys (snd (mr_tick faulty w)))"
  | (reply) "r = (case redis_reply c (mr_keys (snd (mr_tick faulty w))) of None \<Rightarrow> Inl RedisNil | Some v \<Rightarrow> Inr v)"
      "mr_keys w' = redis_apply c (mr_keys (snd (mr_tick faulty w)))"
proof (cases "fst (mr_tick faulty w)")
  case None
  with assms reply show thesis by (auto simp: mem_redis_def split: prod.splits)
next
  case (Some ea)
  then obtain e a where ea: "fst (mr_tick faulty w) = Some (e, a)" by (cases ea) auto
  with assms mr_tick_fault[OF ea] fault[of e a] show thesis
    by (auto simp: mem_redis_def split: prod.splits)
qed

lemma mem_redis_Pipeline:
  assumes "rc_Pipeline (mem_redis faulty) cs w = (r, w')"
  obtains (fault) e I where "r = Some e" "faulty" "redis_fault e"
      "mr_keys w' = fold redis_apply (nths cs I) (mr_keys (snd (mr_tick faulty w)))"
  | (ok) "r = None" "mr_keys w' = fold redis_apply cs (mr_keys (snd (mr_tick faulty w)))"
proof (cases "fst (mr_tick faulty w)")
  case None
  with assms ok show thesis by (auto simp: mem_redis_def split: prod.splits)
next
  case (Some ea)
  then obtain e a where ea: "fst (mr_tick faulty w) = Some (e, a)" by (cases ea) auto
  with assms mr_tick_fault[OF ea] fault[of e "if a then {..<1} else {}"] show thesis
    by (auto simp: mem_redis_def split: prod.splits if_splits)
qed

interpretation mred: redis_service "mem_redis faulty" mr_keys
proof (unfold_locales, goal_cases)
  case (1 c w v w')
  then show ?case
    using mr_tick_expired[of w faulty] by (elim mem_redis_Do) (auto split: option.splits)
next
  case (2 c w e w')
  then show ?case
    using mr_tick_expired[of w faulty]
    by (elim mem_redis_Do) (auto simp: redis_fault_def split: option.splits)
next
  case (3 c w e w')
  then show ?case
    using mr_tick_expired[of w faulty]
    by (elim mem_redis_Do) (auto simp: redis_fault_def split: option.splits if_splits)
next
  case (4 cs w w')
  then show ?case
    using mr_tick_expired[of w faulty] by (elim mem_redis_Pipeline) auto
next
  case (5 cs w e w')
  then show ?case
    using mr_tick_expired[of w faulty] by (elim mem_redis_Pipeline) (auto simp: redis_fault_def)
qed

interpretation rel_mred: reliable_redis "mem_redis False" mr_keys
proof (unfold_locales, goal_cases)
  case (1 c w e w')
  then show ?case by (elim mem_redis_Do) (auto split: option.splits)
next
  case (2 cs w e w')
  show ?case
  proof
    assume "rc_Pipeline (mem_redis False) cs w = (Some e, w')"
    then show False by (elim mem_redis_Pipeline) auto
  qed
qed

end
