(* ===== verification/Redis_Access.thy ===== *)
theory Redis_Access
  imports Redis_Service
begin

text \<open>
  The operations of \<^verbatim>\<open>internal/redis/redis.go\<close>: sessions, the login cache, presence, the balance
  read model and the post-commit pipeline. Times to live are in nanoseconds; the random session id
  of \<^verbatim>\<open>uuid.NewString\<close> is an argument.
\<close>

section \<open>Lazily read durations\<close>

text \<open>\<open>onceDuration\<close> with its \<^verbatim>\<open>sync.Once\<close> state: \<open>None\<close> before the first call.\<close>

definition onceDuration :: "(string \<Rightarrow> string) \<Rightarrow> string \<Rightarrow> int \<Rightarrow> int option \<Rightarrow> int \<times> int option" where
  "onceDuration env envKey defaultVal st =
     (case st of
        Some v \<Rightarrow> (v, Some v)
      | None \<Rightarrow>
          (let s = env envKey;
               v = (if s \<noteq> []
                    then (case Atoi s of
                            Some n \<Rightarrow> (if 0 < n then i64 (n * 1000000000) else defaultVal)
                          | None \<Rightarrow> defaultVal)
                    else defaultVal)
           in (v, Some v)))"

definition session_TTL :: "(string \<Rightarrow> string) \<Rightarrow> int option \<Rightarrow> int \<times> int option" where
  "session_TTL env = onceDuration env ''SESSION_TTL_SECONDS'' (24 * 60 * 60 * 1000000000)"

definition user_cache_TTL :: "(string \<Rightarrow> string) \<Rightarrow> int option \<Rightarrow> int \<times> int option" where
  "user_cache_TTL env = onceDuration env ''USER_CACHE_TTL_SECONDS'' (5 * 60 * 1000000000)"

definition PresenceTTL :: "(string \<Rightarrow> string) \<Rightarrow> int option \<Rightarrow> int \<times> int option" where
  "PresenceTTL env = onceDuration env ''PRESENCE_TTL_SECONDS'' (60 * 1000000000)"

section \<open>Sessions\<close>

definition session_key :: "string \<Rightarrow> string" where
  "session_key sid = ''session:'' @ sid"

definition CreateSession :: "'r redis \<Rightarrow> int \<Rightarrow> string \<Rightarrow> int \<Rightarrow> 'r \<Rightarrow> (goerr + string) \<times> 'r" where
  "CreateSession R sessionTTL sid userID w =
     (case rc_Do R (RSet (session_key sid) (RText (Itoa userID)) sessionTTL) w of
        (Inl e, w') \<Rightarrow> (Inl (Wrapf ''create session'' e), w')
      | (Inr _, w') \<Rightarrow> (Inr sid, w'))"

definition DeleteSession :: "'r redis \<Rightarrow> string \<Rightarrow> 'r \<Rightarrow> goerr option \<times> 'r" where
  "DeleteSession R sid w =
     (if sid = [] then (None, w)
      else (case rc_Do R (RDel [session_key sid]) w of
              (Inl e, w') \<Rightarrow> (Some e, w')
            | (Inr _, w') \<Rightarrow> (None, w')))"

definition GetUserIDFromSession :: "'r redis \<Rightarrow> string \<Rightarrow> 'r \<Rightarrow> (goerr + int) \<times> 'r" where
  "GetUserIDFromSession R sid w =
     (if sid = [] then (Inl ErrUnauthorized, w)
      else (case rc_Do R (RGet (session_key sid)) w of
              (Inl e, w') \<Rightarrow>
                (if errors_Is e RedisNil then (Inl ErrUnauthorized, w')
                 else (Inl (Wrapf ''get session'' e), w'))
            | (Inr v, w') \<Rightarrow>
                (case Atoi (as_text v) of
                   None \<Rightarrow> (Inl ErrUnauthorized, w')
                 | Some i \<Rightarrow> (Inr i, w'))))"

section \<open>The login cache\<close>

record cached_user =
  cu_id :: int
  cu_phone :: string
  cu_username :: string
  cu_account_number :: string
  cu_password_hash :: string
  cu_balance :: int
  cu_is_admin :: bool

definition cached_user_zero :: cached_user where
  "cached_user_zero = \<lparr>cu_id = 0, cu_phone = [], cu_username = [], cu_account_number = [],
     cu_password_hash = [], cu_balance = 0, cu_is_admin = False\<rparr>"

definition cached_user_json :: "cached_user \<Rightarrow> json" where
  "cached_user_json u =
     JObj [(''id'', JInt (cu_id u)), (''phone'', JStr (cu_phone u)), (''username'', JStr (cu_username u)),
           (''account_number'', JStr (cu_account_number u)),
           (''password_hash'', JStr (cu_password_hash u)), (''balance'', JInt (cu_balance u)),
           (''is_admin'', JBool (cu_is_admin u))]"

definition cached_user_fields :: "string list" where
  "cached_user_fields =
     [''id'', ''phone'', ''username'', ''account_number'', ''password_hash'', ''balance'', ''is_admin'']"

definition cached_user_set :: "string \<Rightarrow> json \<Rightarrow> cached_user \<Rightarrow> cached_user option" where
  "cached_user_set f v u =
     (if f = ''id'' then map_option (\<lambda>x. u\<lparr>cu_id := x\<rparr>) (decode_int v (cu_id u))
      else if f = ''phone'' then map_option (\<lambda>x. u\<lparr>cu_phone := x\<rparr>) (decode_string v (cu_phone u))
      else if f = ''username'' then map_option (\<lambda>x. u\<lparr>cu_username := x\<rparr>) (decode_string v (cu_username u))
      else if f = ''account_number''
        then map_option (\<lambda>x. u\<lparr>cu_account_number := x\<rparr>) (decode_string v (cu_account_number u))
      else if f = ''password_hash''
        then map_option (\<lambda>x. u\<lparr>cu_password_hash := x\<rparr>) (decode_string v (cu_password_hash u))
      else if f = ''balance'' then map_option (\<lambda>x. u\<lparr>cu_balance := x\<rparr>) (decode_int v (cu_balance u))
      else map_option (\<lambda>x. u\<lparr>cu_is_admin := x\<rparr>) (decode_bool v (cu_is_admin u)))"

definition cache_phone_key :: "string \<Rightarrow> string" where
  "cache_phone_key phone = ''user_cache:phone:'' @ phone"

definition cache_username_key :: "string \<Rightarrow> string" where
  "cache_username_key username = ''user_cache:username:'' @ username"

definition SetUserCache :: "'r redis \<Rightarrow> int \<Rightarrow> cached_user \<Rightarrow> 'r \<Rightarrow> goerr option \<times> 'r" where
  "SetUserCache R userCacheTTL u w =
     (let data = RJson (cached_user_json u) in
      case rc_Do R (RSet (cache_phone_key (cu_phone u)) data userCacheTTL) w of
        (Inl e, w1) \<Rightarrow> (Some (Wrapf ''set user cache phone'' e), w1)
      | (Inr _, w1) \<Rightarrow>
          (if cu_username u \<noteq> []
           then (case rc_Do R (RSet (cache_username_key (cu_username u)) data userCacheTTL) w1 of
                   (Inl e, w2) \<Rightarrow> (Some (Wrapf ''set user cache username'' e), w2)
                 | (Inr _, w2) \<Rightarrow> (None, w2))
           else (None, w1)))"

text \<open>\<open>Inr None\<close> is the cache miss (\<^verbatim>\<open>nil, nil\<close>). A stored value that does not fit into the buffer of 512
  bytes is an error of the client; like its other errors it comes from \<open>rc_Do\<close>, and the laws of
  \<open>redis_service\<close> allow it. A service that satisfies \<open>reliable_redis\<close> holds no such value.\<close>

definition GetUserCache :: "'r redis \<Rightarrow> string \<Rightarrow> 'r \<Rightarrow> (goerr + cached_user option) \<times> 'r" where
  "GetUserCache R key w =
     (case rc_Do R (RGetToBuffer (''user_cache:'' @ key) 512) w of
        (Inl e, w') \<Rightarrow>
          (if errors_Is e RedisNil then (Inr None, w') else (Inl (Wrapf ''get user cache'' e), w'))
      | (Inr v, w') \<Rightarrow>
          (case unmarshal_obj cached_user_fields cached_user_set cached_user_zero (as_raw v) of
             None \<Rightarrow> (Inl (Wrapf ''unmarshal user cache'' (OtherErr ''json'')), w')
           | Some u \<Rightarrow> (Inr (Some u), w')))"

definition GetUserCacheByPhone :: "'r redis \<Rightarrow> string \<Rightarrow> 'r \<Rightarrow> (goerr + cached_user option) \<times> 'r" where
  "GetUserCacheByPhone R phone w = GetUserCache R (''phone:'' @ phone) w"

definition GetUserCacheByUsername :: "'r redis \<Rightarrow> string \<Rightarrow> 'r \<Rightarrow> (goerr + cached_user option) \<times> 'r" where
  "GetUserCacheByUsername R username w = GetUserCache R (''username:'' @ username) w"

section \<open>Presence\<close>

definition presence_key :: "int \<Rightarrow> string" where
  "presence_key userID = ''presence:'' @ Itoa userID"

definition SetPresence :: "'r redis \<Rightarrow> int \<Rightarrow> int \<Rightarrow> bool \<Rightarrow> 'r \<Rightarrow> goerr option \<times> 'r" where
  "SetPresence R presenceTTL userID online w =
     (case rc_Do R (if online then RSet (presence_key userID) (RText ''online'') presenceTTL
                    else RDel [presence_key userID]) w of
        (Inl e, w') \<Rightarrow> (Some e, w')
      | (Inr _, w') \<Rightarrow> (None, w'))"

section \<open>Transfer events and the balance read model\<close>

record transfer_completed =
  tc_transfer_id :: int
  tc_amount :: int
  tc_sender_id :: int
  tc_sender_balance :: int
  tc_receiver_id :: int
  tc_receiver_balance :: int

definition transfer_completed_zero :: transfer_completed where
  "transfer_completed_zero = \<lparr>tc_transfer_id = 0, tc_amount = 0, tc_sender_id = 0, tc_sender_balance = 0,
     tc_receiver_id = 0, tc_receiver_balance = 0\<rparr>"

definition transfer_completed_json :: "transfer_completed \<Rightarrow> json" where
  "transfer_completed_json e =
     JObj [(''transfer_id'', JInt (tc_transfer_id e)), (''amount'', JInt (tc_amount e)),
           (''sender_id'', JInt (tc_sender_id e)), (''sender_balance'', JInt (tc_sender_balance e)),
           (''receiver_id'', JInt (tc_receiver_id e)), (''receiver_balance'', JInt (tc_receiver_balance e))]"

definition transfer_completed_fields :: "string list" where
  "transfer_completed_fields =
     [''transfer_id'', ''amount'', ''sender_id'', ''sender_balance'', ''receiver_id'', ''receiver_balance'']"

definition transfer_completed_set :: "string \<Rightarrow> json \<Rightarrow> transfer_completed \<Rightarrow> transfer_completed option" where
  "transfer_completed_set f v e =
     (if f = ''transfer_id'' then map_option (\<lambda>x. e\<lparr>tc_transfer_id := x\<rparr>) (decode_int v (tc_transfer_id e))
      else if f = ''amount'' then map_option (\<lambda>x. e\<lparr>tc_amount := x\<rparr>) (decode_int v (tc_amount e))
      else if f = ''sender_id'' then map_option (\<lambda>x. e\<lparr>tc_sender_id := x\<rparr>) (decode_int v (tc_sender_id e))
      else if f = ''sender_balance''
        then map_option (\<lambda>x. e\<lparr>tc_sender_balance := x\<rparr>) (decode_int v (tc_sender_balance e))
      else if f = ''receiver_id''
        then map_option (\<lambda>x. e\<lparr>tc_receiver_id := x\<rparr>) (decode_int v (tc_receiver_id e))
      else map_option (\<lambda>x. e\<lparr>tc_receiver_balance := x\<rparr>) (decode_int v (tc_receiver_balance e)))"

definition decode_transfer_completed :: "raw_message \<Rightarrow> transfer_completed option" where
  "decode_transfer_completed raw =
     unmarshal_obj transfer_completed_fields transfer_completed_set transfer_completed_zero raw"

definition notify_channel :: "int \<Rightarrow> string" where
  "notify_channel userID = ''notify:'' @ Itoa userID"

definition hset_balance :: "int \<Rightarrow> int \<Rightarrow> rcmd" where
  "hset_balance userID balance = RHSet ''balance'' (Itoa userID) (RText (Itoa balance))"

definition SetBalance :: "'r redis \<Rightarrow> int \<Rightarrow> int \<Rightarrow> 'r \<Rightarrow> goerr option \<times> 'r" where
  "SetBalance R userID balance w =
     (case rc_Do R (hset_balance userID balance) w of
        (Inl e, w') \<Rightarrow> (Some e, w')
      | (Inr _, w') \<Rightarrow> (None, w'))"

definition SetBalanceBatch :: "'r redis \<Rightarrow> int \<Rightarrow> int \<Rightarrow> int \<Rightarrow> int \<Rightarrow> 'r \<Rightarrow> goerr option \<times> 'r" where
  "SetBalanceBatch R senderID senderBalance receiverID receiverBalance w =
     rc_Pipeline R [hset_balance senderID senderBalance, hset_balance receiverID receiverBalance] w"

text \<open>\<open>Inr None\<close> is the miss \<^verbatim>\<open>(0, false, nil)\<close>.\<close>

definition GetBalance :: "'r redis \<Rightarrow> int \<Rightarrow> 'r \<Rightarrow> (goerr + int option) \<times> 'r" where
  "GetBalance R userID w =
     (case rc_Do R (RHGet ''balance'' (Itoa userID)) w of
        (Inl e, w') \<Rightarrow> (if errors_Is e RedisNil then (Inr None, w') else (Inl e, w'))
      | (Inr v, w') \<Rightarrow>
          (case Atoi (as_text v) of
             None \<Rightarrow> (Inl (OtherErr ''strconv.Atoi''), w')
           | Some i \<Rightarrow> (Inr (Some i), w')))"

definition completed_cmds :: "transfer_completed \<Rightarrow> string \<Rightarrow> string \<Rightarrow> rcmd list" where
  "completed_cmds evt senderPhone receiverPhone =
     [RDel [cache_phone_key senderPhone, cache_phone_key receiverPhone],
      hset_balance (tc_sender_id evt) (tc_sender_balance evt),
      hset_balance (tc_receiver_id evt) (tc_receiver_balance evt),
      RPublish (notify_channel (tc_sender_id evt)) (RJson (transfer_completed_json evt)),
      RPublish (notify_channel (tc_receiver_id evt)) (RJson (transfer_completed_json evt))]"

definition PublishTransferCompleted ::
  "'r redis \<Rightarrow> transfer_completed \<Rightarrow> string \<Rightarrow> string \<Rightarrow> 'r \<Rightarrow> goerr option \<times> 'r" where
  "PublishTransferCompleted R evt senderPhone receiverPhone w =
     rc_Pipeline R (completed_cmds evt senderPhone receiverPhone) w"

definition PublishNotify :: "'r redis \<Rightarrow> int \<Rightarrow> int \<Rightarrow> int \<Rightarrow> 'r \<Rightarrow> goerr option \<times> 'r" where
  "PublishNotify R userID transferID amount w =
     (case rc_Do R (RPublish (notify_channel userID)
              (RJson (JObj [(''transfer_id'', JInt transferID), (''amount'', JInt amount)]))) w of
        (Inl e, w') \<Rightarrow> (Some e, w')
      | (Inr _, w') \<Rightarrow> (None, w'))"

section \<open>Facts\<close>

text \<open>The value is read once: later calls return the first one, whatever the environment has become.\<close>

lemma onceDuration_once: "onceDuration env' key dflt (snd (onceDuration env key dflt st)) = onceDuration env key dflt st"
  by (simp add: onceDuration_def Let_def split: option.splits)

lemma onceDuration_range:
  assumes "0 < dflt" and "\<forall>n. Atoi (env key) = Some n \<longrightarrow> n \<le> 9223372036"
  shows "0 < fst (onceDuration env key dflt None)"
  using assms by (auto simp: onceDuration_def Let_def i64_id in64_def split: option.splits)

definition in64_event :: "transfer_completed \<Rightarrow> bool" where
  "in64_event e \<longleftrightarrow> in64 (tc_transfer_id e) \<and> in64 (tc_amount e) \<and> in64 (tc_sender_id e) \<and>
     in64 (tc_sender_balance e) \<and> in64 (tc_receiver_id e) \<and> in64 (tc_receiver_balance e)"

lemma decode_encode_event:
  "in64_event e \<Longrightarrow> decode_transfer_completed (Some (transfer_completed_json e)) = Some e"
  by (simp add: decode_transfer_completed_def transfer_completed_json_def unmarshal_obj_def
      transfer_completed_fields_def transfer_completed_set_def transfer_completed_zero_def in64_event_def)

lemma decode_encode_cached_user:
  "in64 (cu_id u) \<Longrightarrow> in64 (cu_balance u) \<Longrightarrow>
   unmarshal_obj cached_user_fields cached_user_set cached_user_zero (Some (cached_user_json u)) = Some u"
  by (simp add: cached_user_json_def unmarshal_obj_def cached_user_fields_def cached_user_set_def
      cached_user_zero_def)

text \<open>The balance read model as a map from user ids.\<close>

definition balance_of :: "keyspace \<Rightarrow> int \<Rightarrow> int option" where
  "balance_of ks i = (case r_hash ks (''balance'', Itoa i) of None \<Rightarrow> None | Some v \<Rightarrow> Atoi (as_text v))"

lemma balance_of_hset [balance_rules]:
  "in64 i \<Longrightarrow> in64 j \<Longrightarrow> in64 b \<Longrightarrow>
   balance_of (redis_apply (hset_balance i b) ks) j = (if j = i then Some b else balance_of ks j)"
  by (auto simp: balance_of_def hset_balance_def Atoi_Itoa Itoa_inject)

lemma balance_of_frame [simp, balance_rules]:
  "balance_of (redis_apply (RDel kl) ks) i = balance_of ks i"
  "balance_of (redis_apply (RPublish ch v) ks) i = balance_of ks i"
  by (simp_all add: balance_of_def)

lemma balance_of_expired: "expired ks ks' \<Longrightarrow> balance_of ks' i = balance_of ks i"
  by (simp add: expired_def balance_of_def)

lemma hset_balance_frame [simp]:
  "r_string (redis_apply (hset_balance i b) ks) = r_string ks"
  "r_published (redis_apply (hset_balance i b) ks) = r_published ks"
  by (simp_all add: hset_balance_def)

lemma expired_Some: "expired ks ks' \<Longrightarrow> r_string ks' k = Some x \<Longrightarrow> r_string ks k = Some x"
  unfolding expired_def map_le_def by (metis domI)

lemma expired_None: "expired ks ks' \<Longrightarrow> r_string ks k = None \<Longrightarrow> r_string ks' k = None"
  using expired_Some by (cases "r_string ks' k") fastforce+

lemma session_key_inject [simp]: "session_key a = session_key b \<longleftrightarrow> a = b"
  by (simp add: session_key_def)

text \<open>The effect of the complete post-commit pipeline.\<close>

lemma completed_cmds_effect:
  assumes "in64_event evt" and "in64 i" and "tc_sender_id evt \<noteq> tc_receiver_id evt"
  shows "balance_of (fold redis_apply (completed_cmds evt sp rp) ks) i =
      (if i = tc_sender_id evt then Some (tc_sender_balance evt)
       else if i = tc_receiver_id evt then Some (tc_receiver_balance evt) else balance_of ks i)"
    and "r_string (fold redis_apply (completed_cmds evt sp rp) ks) =
      r_string ks |` (- {cache_phone_key sp, cache_phone_key rp})"
    and "r_published (fold redis_apply (completed_cmds evt sp rp) ks) = r_published ks @
      [(notify_channel (tc_sender_id evt), RJson (transfer_completed_json evt)),
       (notify_channel (tc_receiver_id evt), RJson (transfer_completed_json evt))]"
  using assms
  by (auto simp: completed_cmds_def hset_balance_def balance_of_def in64_event_def Atoi_Itoa Itoa_inject)

context redis_service
begin

lemma GetUserIDFromSession_sound:
  assumes "GetUserIDFromSession R sid w = (Inr i, w')"
  shows "expired (keys w) (keys w') \<and>
    (\<exists>v ttl. r_string (keys w) (session_key sid) = Some (v, ttl) \<and> Atoi (as_text v) = Some i)"
  using assms
  by (auto simp: GetUserIDFromSession_def split: if_splits prod.splits sum.splits option.splits
      dest!: do_ok) (blast dest: expired_Some)

lemma GetUserIDFromSession_keys:
  assumes "GetUserIDFromSession R sid w = (r, w')"
  shows "\<exists>ks. expired (keys w) ks \<and> keys w' = ks"
  using assms
  by (auto simp: GetUserIDFromSession_def split: if_splits prod.splits sum.splits option.splits
      dest: do_ok do_nil do_err intro: expired_refl)

lemma GetUserIDFromSession_absent:
  assumes "r_string (keys w) (session_key sid) = None"
  shows "GetUserIDFromSession R sid w \<noteq> (Inr i, w')"
  using assms GetUserIDFromSession_sound by fastforce

lemma CreateSession_stores:
  assumes "CreateSession R ttl sid uid w = (Inr s, w')"
  shows "s = sid \<and> r_string (keys w') (session_key sid) = Some (RText (Itoa uid), ttl)"
  using assms by (auto simp: CreateSession_def split: prod.splits sum.splits dest!: do_ok)

lemma DeleteSession_removes:
  assumes "DeleteSession R sid w = (None, w')" and "sid \<noteq> []"
  shows "r_string (keys w') (session_key sid) = None"
  using assms by (auto simp: DeleteSession_def split: prod.splits sum.splits dest!: do_ok)

lemma GetBalance_hit:
  assumes "GetBalance R uid w = (Inr (Some b), w')"
  shows "balance_of (keys w) uid = Some b \<and> expired (keys w) (keys w')"
  using assms
  by (auto simp: GetBalance_def balance_of_def expired_def split: if_splits prod.splits sum.splits option.splits
      dest!: do_ok)

lemma GetBalance_miss:
  assumes "GetBalance R uid w = (Inr None, w')"
  shows "r_hash (keys w) (''balance'', Itoa uid) = None \<and> expired (keys w) (keys w')"
  using assms
  by (auto simp: GetBalance_def expired_def split: if_splits prod.splits sum.splits option.splits
      dest!: do_nil)

end

end
