(* ===== verification/Db_Access.thy ===== *)
theory Db_Access
  imports Db_Service
begin

text \<open>
  The query helpers, the retrying transaction wrapper and the pool configuration of
  \<^verbatim>\<open>internal/db/db.go\<close>.

  \<open>SerializableTx\<close> takes the transaction runner, the cancellation of the context during each
  back-off (\<open>ctx_done\<close>), the random source of the jitter (\<open>rnd\<close>) and \<open>sleep\<close>, the database
  handle after a back-off: other sessions may have committed in the meantime. It returns the error,
  the captured variables, the handle and the durations slept, in nanoseconds.
\<close>

section \<open>Query helpers\<close>

fun scan_user :: "goerr + row \<Rightarrow> goerr + user" where
  "scan_user (Inr (UserRow u)) = Inr u"
| "scan_user (Inr _) = Inl (OtherErr ''scan'')"
| "scan_user (Inl e) = Inl e"

fun scan_int :: "goerr + row \<Rightarrow> goerr + int" where
  "scan_int (Inr (IntRow i)) = Inr i"
| "scan_int (Inr _) = Inl (OtherErr ''scan'')"
| "scan_int (Inl e) = Inl e"

fun scan_users :: "row list \<Rightarrow> user list option" where
  "scan_users [] = Some []"
| "scan_users (UserRow u # rs) = map_option ((#) u) (scan_users rs)"
| "scan_users _ = None"

definition scan_all_users :: "goerr + row list \<Rightarrow> goerr + user list" where
  "scan_all_users r =
     (case r of Inl e \<Rightarrow> Inl e
      | Inr rs \<Rightarrow> (case scan_users rs of None \<Rightarrow> Inl (OtherErr ''scan'') | Some us \<Rightarrow> Inr us))"

definition QueryUser :: "'c bobdb \<Rightarrow> user_col \<Rightarrow> sqlarg \<Rightarrow> 'c \<Rightarrow> (goerr + user) \<times> 'c" where
  "QueryUser B col val w = apfst scan_user (bob_One B (SelectUsers ProjUser (UserEq col val) Unordered None False) w)"

definition QueryUserForUpdate :: "'c bobdb \<Rightarrow> user_col \<Rightarrow> sqlarg \<Rightarrow> 'c \<Rightarrow> (goerr + user) \<times> 'c" where
  "QueryUserForUpdate B col val w =
     apfst scan_user (bob_One B (SelectUsers ProjUser (UserEq col val) Unordered None True) w)"

section \<open>The retry loop\<close>

definition maxSerializableRetries :: nat where
  "maxSerializableRetries = 5"

definition backoff :: "nat \<Rightarrow> int" where
  "backoff attempt =
     (let maxDelay = i64 (i64 (2 ^ attempt * 2) * 1000000)
      in if 100 * 1000000 < maxDelay then 100 * 1000000 else maxDelay)"

fun retry_loop ::
  "(('x, 'c) tx_fun \<Rightarrow> ('x, 'c) tx_fun) \<Rightarrow> (nat \<Rightarrow> goerr option) \<Rightarrow> (nat \<Rightarrow> int \<Rightarrow> int) \<Rightarrow> (nat \<Rightarrow> 'c \<Rightarrow> 'c) \<Rightarrow>
   ('x, 'c) tx_fun \<Rightarrow> nat list \<Rightarrow> 'x \<Rightarrow> 'c \<Rightarrow> int list \<Rightarrow> goerr option \<times> 'x \<times> 'c \<times> int list" where
  "retry_loop RunInTx ctx_done rnd sleep fn [] x w slept = (None, x, w, slept)"
| "retry_loop RunInTx ctx_done rnd sleep fn (attempt # rest) x w slept =
     (case RunInTx fn x w of (err, x', w') \<Rightarrow>
       (case err of
          None \<Rightarrow> (None, x', w', slept)
        | Some e \<Rightarrow>
            (if \<not> IsSerializationFailure (Some e) then (Some e, x', w', slept)
             else if attempt = maxSerializableRetries - 1
             then (Some (Wrapf ''serializable tx failed after 5 attempts'' e), x', w', slept)
             else (case ctx_done attempt of
                     Some ce \<Rightarrow>
                       (Some (Wrapf ''serializable tx cancelled during retry backoff'' ce), x', w', slept)
                   | None \<Rightarrow>
                       retry_loop RunInTx ctx_done rnd sleep fn rest x' (sleep attempt w')
                         (slept @ [rnd attempt (backoff attempt)])))))"

definition SerializableTx ::
  "(('x, 'c) tx_fun \<Rightarrow> ('x, 'c) tx_fun) \<Rightarrow> (nat \<Rightarrow> goerr option) \<Rightarrow> (nat \<Rightarrow> int \<Rightarrow> int) \<Rightarrow> (nat \<Rightarrow> 'c \<Rightarrow> 'c) \<Rightarrow>
   ('x, 'c) tx_fun \<Rightarrow> 'x \<Rightarrow> 'c \<Rightarrow> goerr option \<times> 'x \<times> 'c \<times> int list" where
  "SerializableTx RunInTx ctx_done rnd sleep fn x w =
     retry_loop RunInTx ctx_done rnd sleep fn [0..<maxSerializableRetries] x w []"

section \<open>Pool configuration\<close>

record pool_config =
  MaxConns :: int
  MinConns :: int
  MaxConnLifetime :: int
  MaxConnIdleTime :: int
  HealthCheckPeriod :: int
  RuntimeParams :: "string \<rightharpoonup> string"

text \<open>\<open>env\<close> is \<^verbatim>\<open>os.Getenv\<close>; parsing the DSN and opening the pool belong to \<^verbatim>\<open>pgxpool\<close>. Durations are
  in nanoseconds.\<close>

definition NewPool ::
  "(string \<Rightarrow> string) \<Rightarrow> (string \<Rightarrow> goerr + pool_config) \<Rightarrow> (pool_config \<Rightarrow> goerr + 'p) \<Rightarrow> string \<Rightarrow> goerr + 'p" where
  "NewPool env ParseConfig NewWithConfig dsn0 =
     (let dsn = (if dsn0 = [] then env ''DATABASE_URL'' else dsn0) in
      if dsn = [] then Inl (OtherErr ''DATABASE_URL is not set'')
      else (case ParseConfig dsn of
          Inl e \<Rightarrow> Inl (Wrapf ''parse database url'' e)
        | Inr cfg0 \<Rightarrow>
            (let s = env ''DB_POOL_SIZE'';
                 cfg1 = (if s \<noteq> []
                         then (case Atoi s of
                                 Some n \<Rightarrow> (if 0 < n then cfg0\<lparr>MaxConns := i32 n\<rparr> else cfg0)
                               | None \<Rightarrow> cfg0)
                         else cfg0\<lparr>MaxConns := 15\<rparr>);
                 t = env ''STATEMENT_TIMEOUT_MS'';
                 stmtTimeoutMs = (if t \<noteq> [] then t else ''30000'');
                 cfg2 = cfg1\<lparr>MinConns := 2,
                             MaxConnLifetime := 30 * 60 * 1000000000,
                             MaxConnIdleTime := 5 * 60 * 1000000000,
                             HealthCheckPeriod := 60 * 1000000000,
                             RuntimeParams := (RuntimeParams cfg1)
                                (''idle_in_transaction_session_timeout'' \<mapsto> ''30000'',
                                 ''statement_timeout'' \<mapsto> stmtTimeoutMs)\<rparr>
             in (case NewWithConfig cfg2 of
                   Inl e \<Rightarrow> Inl (Wrapf ''create pool'' e)
                 | Inr p \<Rightarrow> Inr p))))"

section \<open>Facts\<close>

lemma selection_all: "selection R xs None ys \<longleftrightarrow> mset ys = mset xs \<and> sorted_wrt R ys"
  by (auto simp: selection_def page_of_def)

lemma user_row_ProjUser [simp]: "user_row ProjUser = UserRow"
  by (simp add: fun_eq_iff)

lemma scan_users_map [simp]: "scan_users (map UserRow us) = Some us"
  by (induction us) simp_all

context postgres
begin

lemma QueryUser_row:
  assumes "QueryUser B col val c = (Inr u, c')"
  shows "tables c' = tables c \<and> u \<in> set (users (tables c)) \<and> user_cell col u = val"
proof -
  let ?st = "SelectUsers ProjUser (UserEq col val) Unordered None False"
  obtain q where q: "bob_One B ?st c = (Inr q, c')" "q = UserRow u"
    using assms by (cases "bob_One B ?st c") (auto simp: QueryUser_def elim: scan_user.elims)
  from one_row[OF q(1)] obtain us where t: "tables c' = tables c"
    "mset (u # us) = mset (filter (user_matches ilike (UserEq col val)) (users (tables c)))"
    unfolding q(2) by (auto simp: selection_all Cons_eq_map_conv)
  then have "u \<in> set (filter (user_matches ilike (UserEq col val)) (users (tables c)))"
    by (metis list.set_intros(1) mset_eq_setD)
  with t(1) show ?thesis by simp
qed

lemma QueryUser_tables: "QueryUser B col val c = (q, c') \<Longrightarrow> tables c' = tables c"
  using one_row one_none one_err
  by (cases "bob_One B (SelectUsers ProjUser (UserEq col val) Unordered None False) c"; cases "fst (bob_One B (SelectUsers ProjUser (UserEq col val) Unordered None False) c)")
    (fastforce simp: QueryUser_def)+

lemma QueryUser_absent:
  assumes "QueryUser B col val c = (Inl e, c')" and "IsNotFound (Some e)"
  shows "\<forall>u \<in> set (users (tables c)). user_cell col u \<noteq> val"
proof -
  let ?st = "SelectUsers ProjUser (UserEq col val) Unordered None False"
  have "bob_One B ?st c = (Inl e, c')"
    using assms one_row[of ?st c] by (cases "bob_One B ?st c"; cases "fst (bob_One B ?st c)")
      (auto simp: QueryUser_def IsNotFound_def err_is_def elim!: scan_user.elims)
  with one_none assms(2) show ?thesis
    by (fastforce simp: IsNotFound_def err_is_def selection_all filter_empty_conv)
qed

end

lemma backoff_values:
  "map backoff [0, 1, 2, 3] = [2000000, 4000000, 8000000, 16000000]"
  by (simp add: backoff_def i64_id in64_def)

lemma retry_loop_slept:
  assumes "retry_loop RunInTx ctx_done rnd sleep fn as x w slept = (r, x', w', slept')"
    and "as \<noteq> []" and "last as = maxSerializableRetries - 1"
  shows "\<exists>k < length as. slept' = slept @ map (\<lambda>i. rnd i (backoff i)) (take k as)"
  using assms
proof (induction as arbitrary: x w slept)
  case (Cons attempt rest)
  obtain r1 x1 w1 where run: "RunInTx fn x w = (r1, x1, w1)" using prod_cases3 by blast
  show ?case
  proof (cases "\<exists>e. r1 = Some e \<and> IsSerializationFailure (Some e) \<and>
      attempt \<noteq> maxSerializableRetries - 1 \<and> ctx_done attempt = None")
    case False
    with Cons.prems(1) run have "slept' = slept @ map (\<lambda>i. rnd i (backoff i)) (take 0 (attempt # rest))"
      by (auto split: option.splits if_splits)
    then show ?thesis by blast
  next
    case True
    with Cons.prems run have "rest \<noteq> []" "last rest = maxSerializableRetries - 1"
      and "retry_loop RunInTx ctx_done rnd sleep fn rest x1 (sleep attempt w1)
         (slept @ [rnd attempt (backoff attempt)]) = (r, x', w', slept')"
      by (auto split: if_splits)
    with Cons.IH obtain k where "k < length rest"
      "slept' = (slept @ [rnd attempt (backoff attempt)]) @ map (\<lambda>i. rnd i (backoff i)) (take k rest)"
      by blast
    then show ?thesis by (intro exI[of _ "Suc k"]) simp
  qed
qed simp

lemma attempts_list: "[0..<maxSerializableRetries] = [0, 1, 2, 3, 4]"
  by (simp add: maxSerializableRetries_def upt_rec)

lemma attempts_list_props:
  "[0..<maxSerializableRetries] \<noteq> []" "last [0..<maxSerializableRetries] = maxSerializableRetries - 1"
  "distinct [0..<maxSerializableRetries]"
  by (simp_all add: maxSerializableRetries_def)

lemma SerializableTx_first:
  assumes "RunInTx fn x w = (r, x', w')" and "\<not> IsSerializationFailure r"
  shows "SerializableTx RunInTx ctx_done rnd sleep fn x w = (r, x', w', [])"
  using assms by (cases r) (simp_all add: SerializableTx_def attempts_list)

text \<open>Between two attempts only what other sessions commit during the sleep is visible.\<close>

definition interference :: "('c \<Rightarrow> db) \<Rightarrow> (nat \<Rightarrow> 'c \<Rightarrow> 'c) \<Rightarrow> db \<Rightarrow> db \<Rightarrow> bool" where
  "interference tables sleep d d' \<longleftrightarrow> (\<exists>i w. d = tables w \<and> d' = tables (sleep i w))"

text \<open>What the wrapper reports for the outcome \<open>r0\<close> of its last run.\<close>

definition reported :: "(nat \<Rightarrow> goerr option) \<Rightarrow> goerr option \<Rightarrow> goerr option \<Rightarrow> bool" where
  "reported ctx_done r0 r \<longleftrightarrow>
     (if IsSerializationFailure r0
      then \<exists>m e. r = Some (Wrapf m e) \<and> (Some e = r0 \<or> (\<exists>i. ctx_done i = Some e))
      else r = r0)"

lemma reported_None: "reported ctx_done r0 None \<longleftrightarrow> r0 = None"
  by (auto simp: reported_def IsSerializationFailure_def pgErrCode_def split: option.splits)

context tx_runner
begin

text \<open>However often the loop retries, its result is that of one last run of the transaction, and
  before that run the tables changed only by interference.\<close>

lemma retry_loop_last_attempt:
  assumes "retry_loop RunInTx ctx_done rnd sleep fn as x w slept = (r, x', w', slept')"
    and "as \<noteq> []" and "last as = maxSerializableRetries - 1"
  shows "\<exists>x0 w0 r0. (interference tables sleep)\<^sup>*\<^sup>* (tables w) (tables w0) \<and>
      tx_outcome tables fn x0 w0 r0 x' w' \<and> reported ctx_done r0 r"
  using assms
proof (induction as arbitrary: x w slept)
  case (Cons attempt rest)
  obtain r1 x1 w1 where run: "RunInTx fn x w = (r1, x1, w1)" using prod_cases3 by blast
  have out: "tx_outcome tables fn x w r1 x1 w1" using run by (rule run_in_tx)
  show ?case
  proof (cases "IsSerializationFailure r1 \<and> attempt \<noteq> maxSerializableRetries - 1 \<and> ctx_done attempt = None")
    case False
    with Cons.prems(1) run have "x' = x1" "w' = w1" "reported ctx_done r1 r"
      by (auto simp: reported_def IsSerializationFailure_def pgErrCode_def split: option.splits if_splits)
    with out show ?thesis by blast
  next
    case True
    then obtain e where e: "r1 = Some e"
      by (cases r1) (auto simp: IsSerializationFailure_def pgErrCode_def)
    from True e Cons.prems(1,3) run
    have step: "retry_loop RunInTx ctx_done rnd sleep fn rest x1 (sleep attempt w1)
         (slept @ [rnd attempt (backoff attempt)]) = (r, x', w', slept')"
      and rest: "rest \<noteq> []" "last rest = maxSerializableRetries - 1"
      by (auto split: if_splits)
    have "tables w1 = tables w"
      using serialization_failure_no_effect out True e by metis
    then have i: "interference tables sleep (tables w) (tables (sleep attempt w1))"
      unfolding interference_def by metis
    from Cons.IH[OF step rest] obtain x0 w0 r0
      where *: "(interference tables sleep)\<^sup>*\<^sup>* (tables (sleep attempt w1)) (tables w0)"
        "tx_outcome tables fn x0 w0 r0 x' w'" "reported ctx_done r0 r" by blast
    from i *(1) have "(interference tables sleep)\<^sup>*\<^sup>* (tables w) (tables w0)"
      by (rule converse_rtranclp_into_rtranclp)
    with * show ?thesis by blast
  qed
qed simp

lemma SerializableTx_last_attempt:
  assumes "SerializableTx RunInTx ctx_done rnd sleep fn x w = (r, x', w', slept)"
  shows "\<exists>x0 w0 r0. (interference tables sleep)\<^sup>*\<^sup>* (tables w) (tables w0) \<and>
      tx_outcome tables fn x0 w0 r0 x' w' \<and> reported ctx_done r0 r"
  using assms unfolding SerializableTx_def by (rule retry_loop_last_attempt[OF _ attempts_list_props(1,2)])

end

end
