(* ===== verification/Rpc_Consumer.thy ===== *)
theory Rpc_Consumer
  imports Redis_Access Db_Access
begin

text \<open>
  The RPC framework of \<^verbatim>\<open>internal/nats/consumer.go\<close>: handlers, the session and admin middleware,
  consumer construction, and the dispatch of one request.

  A handler takes the context (the user id the middleware put in, the cancellation of the request,
  the cancellation seen during each database back-off), the action, the raw payload and the
  forwarded headers, and acts on the world: the states behind the database, Redis and JetStream
  clients. It returns an error or a result; \<open>Rpc\<close> is a result that already is an
  \<^verbatim>\<open>rpcResponse\<close>. Bodies are JSON values, which \<^verbatim>\<open>json.Marshal\<close> always can write, so the
  marshal-failure fallback of \<^verbatim>\<open>dispatch\<close> has no counterpart. Log lines, spans and metrics carry no
  state of the services and are left out.
\<close>

record ('c, 'r, 'j) world =
  w_db :: 'c
  w_redis :: 'r
  w_js :: 'j

record goctx =
  ctx_user :: "int option"
  ctx_Err :: "goerr option"
  ctx_backoff :: "nat \<Rightarrow> goerr option"

record rpc_response =
  rpc_status :: int
  rpc_body :: json

datatype any_result = Rpc rpc_response | Plain json

type_synonym headers = "string \<Rightarrow> string"

type_synonym ('c, 'r, 'j) handler =
  "goctx \<Rightarrow> string \<Rightarrow> raw_message \<Rightarrow> headers \<Rightarrow> ('c, 'r, 'j) world \<Rightarrow>
   (goerr + any_result) \<times> ('c, 'r, 'j) world"

definition Reply :: "int \<Rightarrow> json \<Rightarrow> rpc_response" where
  "Reply status body = \<lparr>rpc_status = status, rpc_body = body\<rparr>"

abbreviation reply :: "int \<Rightarrow> json \<Rightarrow> goerr + any_result" where
  "reply status body \<equiv> Inr (Rpc (Reply status body))"

definition withUserID :: "goctx \<Rightarrow> int \<Rightarrow> goctx" where
  "withUserID ctx i = ctx\<lparr>ctx_user := Some i\<rparr>"

text \<open>The value part of \<^verbatim>\<open>UserIDFromContext\<close>; handlers ignore the flag.\<close>

definition UserIDFromContext :: "goctx \<Rightarrow> int \<times> bool" where
  "UserIDFromContext ctx = (case ctx_user ctx of None \<Rightarrow> (0, False) | Some i \<Rightarrow> (i, True))"

section \<open>Middleware\<close>

definition RequireSession :: "'r redis \<Rightarrow> ('c, 'r, 'j) handler \<Rightarrow> ('c, 'r, 'j) handler" where
  "RequireSession R nxt ctx action payload headers w =
     (case GetUserIDFromSession R (headers ''x-session'') (w_redis w) of
        (Inl e, r') \<Rightarrow>
          (if errors_Is e ErrUnauthorized then reply 401 (detail ''Unauthorized'')
           else reply 500 (detail ''session error''), w\<lparr>w_redis := r'\<rparr>)
      | (Inr userID, r') \<Rightarrow> nxt (withUserID ctx userID) action payload headers (w\<lparr>w_redis := r'\<rparr>))"

definition RequireAdmin :: "string \<Rightarrow> 'r redis \<Rightarrow> ('c, 'r, 'j) handler \<Rightarrow> ('c, 'r, 'j) handler" where
  "RequireAdmin secret R nxt ctx action payload headers w =
     (if headers ''x-admin-secret'' \<noteq> secret then (reply 403 (detail ''Forbidden''), w)
      else (case GetUserIDFromSession R (headers ''x-session'') (w_redis w) of
        (Inl e, r') \<Rightarrow>
          (if errors_Is e ErrUnauthorized then reply 401 (detail ''Unauthorized'')
           else reply 500 (detail ''session error''), w\<lparr>w_redis := r'\<rparr>)
      | (Inr userID, r') \<Rightarrow> nxt (withUserID ctx userID) action payload headers (w\<lparr>w_redis := r'\<rparr>)))"

definition SessionMiddleware :: "'r redis \<Rightarrow> ('c, 'r, 'j) handler \<Rightarrow> ('c, 'r, 'j) handler" where
  "SessionMiddleware R = (\<lambda>h. RequireSession R h)"

definition AdminMiddleware :: "string \<Rightarrow> 'r redis \<Rightarrow> ('c, 'r, 'j) handler \<Rightarrow> ('c, 'r, 'j) handler" where
  "AdminMiddleware secret R = (\<lambda>h. RequireAdmin secret R h)"

section \<open>Consumers\<close>

record ('c, 'r, 'j) consumer =
  c_url :: string
  c_name :: string
  c_subjectPrefix :: string
  c_handlers :: "string \<rightharpoonup> ('c, 'r, 'j) handler"
  c_pendingMsgs :: int
  c_metrics :: bool
  c_conn :: bool

type_synonym ('c, 'r, 'j) consumer_option = "('c, 'r, 'j) consumer \<Rightarrow> ('c, 'r, 'j) consumer"

definition WithHandler :: "string \<Rightarrow> ('c, 'r, 'j) handler \<Rightarrow> ('c, 'r, 'j) consumer_option" where
  "WithHandler action h c = c\<lparr>c_handlers := (c_handlers c)(action \<mapsto> h)\<rparr>"

definition WithPendingMsgs :: "int \<Rightarrow> ('c, 'r, 'j) consumer_option" where
  "WithPendingMsgs n c = (if 0 < n then c\<lparr>c_pendingMsgs := n\<rparr> else c)"

definition WithMetrics :: "('c, 'r, 'j) consumer_option" where
  "WithMetrics c = c\<lparr>c_metrics := True\<rparr>"

definition WithConn :: "('c, 'r, 'j) consumer_option" where
  "WithConn c = c\<lparr>c_conn := True\<rparr>"

definition NewConsumer ::
  "string \<Rightarrow> string \<Rightarrow> string \<Rightarrow> ('c, 'r, 'j) consumer_option list \<Rightarrow> ('c, 'r, 'j) consumer" where
  "NewConsumer url name subjectPrefix opts =
     fold (\<lambda>opt c. opt c) opts
       \<lparr>c_url = url, c_name = name, c_subjectPrefix = subjectPrefix, c_handlers = Map.empty,
        c_pendingMsgs = 64, c_metrics = False, c_conn = False\<rparr>"

text \<open>The endpoint an action is registered on by \<^verbatim>\<open>Run\<close>: subject, queue group and the pending
  limits in messages and bytes.\<close>

record endpoint =
  ep_subject :: string
  ep_queue_group :: string
  ep_pending_msgs :: int
  ep_pending_bytes :: int

definition endpoint_of :: "('c, 'r, 'j) consumer \<Rightarrow> string \<Rightarrow> endpoint" where
  "endpoint_of c action =
     (let subject = c_subjectPrefix c @ ''.'' @ action
      in \<lparr>ep_subject = subject, ep_queue_group = subject, ep_pending_msgs = c_pendingMsgs c,
          ep_pending_bytes = i64 (c_pendingMsgs c * 4096)\<rparr>)"

text \<open>The handler a message on a subject reaches: that of the registered action.\<close>

definition route :: "('c, 'r, 'j) consumer \<Rightarrow> string \<Rightarrow> (string \<times> ('c, 'r, 'j) handler) option" where
  "route c subject =
     (let p = c_subjectPrefix c @ ''.'' in
      if starts_with p subject
      then (let action = drop (length p) subject
            in map_option (\<lambda>h. (action, h)) (c_handlers c action))
      else None)"

section \<open>Dispatch\<close>

record request =
  req_data :: raw_message
  req_headers :: headers

datatype outcome =
    NoReply
  | ServiceError string string
  | Respond rpc_response

definition decode_rpc_request :: "raw_message \<Rightarrow> raw_message option" where
  "decode_rpc_request raw = unmarshal_obj [''payload''] (\<lambda>f v p. Some (Some v)) None raw"

definition forwarded_headers :: "headers \<Rightarrow> headers" where
  "forwarded_headers hs =
     (\<lambda>k. if k = ''x-session'' then hs ''x-session''
          else if k = ''x-admin-secret'' then hs ''x-admin-secret'' else [])"

definition dispatch ::
  "goctx \<Rightarrow> request \<Rightarrow> string \<Rightarrow> ('c, 'r, 'j) handler \<Rightarrow> ('c, 'r, 'j) world \<Rightarrow> outcome \<times> ('c, 'r, 'j) world" where
  "dispatch ctx req action h w =
     (if ctx_Err ctx \<noteq> None then (NoReply, w)
      else (case decode_rpc_request (req_data req) of
              None \<Rightarrow> (ServiceError ''400'' ''invalid request body'', w)
            | Some payload \<Rightarrow>
                (case h ctx action payload (forwarded_headers (req_headers req)) w of
                   (Inl e, w') \<Rightarrow> (Respond (Reply 500 (detail ''internal error'')), w')
                 | (Inr (Rpc r), w') \<Rightarrow> (Respond r, w')
                 | (Inr (Plain j), w') \<Rightarrow> (Respond (Reply 200 j), w'))))"

section \<open>Facts\<close>

lemma rpc_status_Reply [simp]: "rpc_status (Reply s b) = s" "rpc_body (Reply s b) = b"
  by (simp_all add: Reply_def)

lemma reply_eq_iff [simp]: "Reply s b = Reply s' b' \<longleftrightarrow> s = s' \<and> b = b'"
  by (simp add: Reply_def)

lemma UserIDFromContext_withUserID [simp]: "UserIDFromContext (withUserID ctx i) = (i, True)"
  by (simp add: UserIDFromContext_def withUserID_def)

lemma route_endpoint:
  "c_handlers c action = Some h \<Longrightarrow> route c (ep_subject (endpoint_of c action)) = Some (action, h)"
  by (simp add: route_def endpoint_of_def starts_with_iff Let_def)

lemma route_subject: "route c subject = Some (action, h) \<Longrightarrow>
    subject = ep_subject (endpoint_of c action) \<and> c_handlers c action = Some h"
  by (auto simp: route_def endpoint_of_def starts_with_iff Let_def split: if_splits)

lemma dispatch_always_replies:
  "ctx_Err ctx = None \<Longrightarrow> fst (dispatch ctx req action h w) \<noteq> NoReply"
  by (auto simp: dispatch_def split: option.splits prod.splits sum.splits any_result.splits)

context redis_service
begin

text \<open>What a handler behind the session middleware is given, and what happens otherwise.\<close>

lemma RequireSession_cases:
  obtains (run) uid r' v ttl where
      "RequireSession R nxt ctx action payload headers w =
         nxt (withUserID ctx uid) action payload headers (w\<lparr>w_redis := r'\<rparr>)"
      "expired (keys (w_redis w)) (keys r')"
      "r_string (keys (w_redis w)) (session_key (headers ''x-session'')) = Some (v, ttl)"
      "Atoi (as_text v) = Some uid"
  | (refused) r' s b where
      "RequireSession R nxt ctx action payload headers w = (reply s b, w\<lparr>w_redis := r'\<rparr>)"
      "s = 401 \<or> s = 500" "expired (keys (w_redis w)) (keys r')"
proof -
  obtain res r' where g: "GetUserIDFromSession R (headers ''x-session'') (w_redis w) = (res, r')"
    by fastforce
  show thesis
  proof (cases res)
    case (Inl e)
    with g GetUserIDFromSession_keys[OF g] show thesis
      by (intro refused[of "if errors_Is e ErrUnauthorized then 401 else 500"
            "if errors_Is e ErrUnauthorized then detail ''Unauthorized'' else detail ''session error''" r'])
        (auto simp: RequireSession_def)
  next
    case (Inr uid)
    with g GetUserIDFromSession_sound obtain v ttl
      where "expired (keys (w_redis w)) (keys r')" "Atoi (as_text v) = Some uid"
        "r_string (keys (w_redis w)) (session_key (headers ''x-session'')) = Some (v, ttl)"
      by blast
    with Inr g show thesis by (intro run[of uid r' v ttl]) (simp_all add: RequireSession_def)
  qed
qed

end

section \<open>The contract of the middleware\<close>

text \<open>A guard does not run what stands behind it without a session that Redis holds: it refuses with one
  of its statuses and changes nothing but for expiry in Redis.\<close>

locale guard = redis_service R keys
  for R :: "'r redis" and keys :: "'r \<Rightarrow> keyspace" +
  fixes mw :: "('c, 'r, 'j) handler \<Rightarrow> ('c, 'r, 'j) handler" and refusals :: "int set"
  assumes refuses:
    "r_string (keys (w_redis w)) (session_key (headers ''x-session'')) = None \<Longrightarrow>
     mw nxt ctx action payload headers w = (res, w') \<Longrightarrow>
     \<exists>s b r'. res = reply s b \<and> s \<in> refusals \<and> w' = w\<lparr>w_redis := r'\<rparr> \<and> expired (keys (w_redis w)) (keys r')"

lemma session_guard:
  assumes "redis_service R keys"
  shows "guard R keys (RequireSession R) {401, 500}"
proof (intro guard.intro guard_axioms.intro assms)
  fix w headers nxt ctx action payload res w'
  assume "r_string (keys (w_redis w)) (session_key (headers ''x-session'')) = None"
    "RequireSession R nxt ctx action payload headers w = (res, w')"
  then show "\<exists>s b r'. res = reply s b \<and> s \<in> {401, 500} \<and> w' = w\<lparr>w_redis := r'\<rparr> \<and> expired (keys (w_redis w)) (keys r')"
    by (cases rule: redis_service.RequireSession_cases[OF assms, of nxt ctx action payload headers w]) auto
qed

lemma admin_guard:
  assumes "redis_service R keys"
  shows "guard R keys (RequireAdmin secret R) {401, 403, 500}"
proof (intro guard.intro guard_axioms.intro assms)
  fix w headers nxt ctx action payload res w'
  assume none: "r_string (keys (w_redis w)) (session_key (headers ''x-session'')) = None"
    and run: "RequireAdmin secret R nxt ctx action payload headers w = (res, w')"
  show "\<exists>s b r'. res = reply s b \<and> s \<in> {401, 403, 500} \<and> w' = w\<lparr>w_redis := r'\<rparr> \<and> expired (keys (w_redis w)) (keys r')"
  proof (cases "headers ''x-admin-secret'' = secret")
    case True
    with run have "RequireSession R nxt ctx action payload headers w = (res, w')"
      by (simp add: RequireAdmin_def RequireSession_def)
    with none guard.refuses[OF session_guard[OF assms], of w headers nxt ctx action payload res w'] show ?thesis by blast
  next
    case False
    with run show ?thesis
      by (intro exI[of _ 403] exI[of _ "detail ''Forbidden''"] exI[of _ "w_redis w"]) (simp add: RequireAdmin_def)
  qed
qed

interpretation mem_session: guard "mem_redis faulty" mr_keys "RequireSession (mem_redis faulty)" "{401, 500}"
  by (rule session_guard) (rule mred.redis_service_axioms)

interpretation mem_admin: guard "mem_redis faulty" mr_keys "RequireAdmin secret (mem_redis faulty)" "{401, 403, 500}"
  by (rule admin_guard) (rule mred.redis_service_axioms)

end
