(* ===== verification/Jetstream.thy ===== *)
theory Jetstream
  imports Redis_Access
begin

text \<open>
  The durable event bus of \<^verbatim>\<open>internal/nats/jetstream.go\<close>. Creating the stream and the consumer and
  publishing a message belong to the NATS server and its client; they are arguments. The locale
  \<open>jetstream_service\<close> says what publishing promises: a successful publish appends the message, or
  leaves the stream alone when it still holds a message with the same deduplication id; a failed
  one may have been stored all the same. Old messages may leave the front of the stream at any time
  (its 30-day limit).
\<close>

section \<open>Configuration\<close>

definition StreamName :: string where
  "StreamName = ''BANKING_EVENTS''"

definition SubjectTransferCompleted :: string where
  "SubjectTransferCompleted = ''banking.events.transfer.completed''"

definition ConsumerBalanceProjection :: string where
  "ConsumerBalanceProjection = ''account-service-balance''"

definition second :: int where
  "second = 1000000000"

definition streamDuplicateWindow :: int where
  "streamDuplicateWindow = 5 * 60 * second"

record stream_config =
  sc_Name :: string
  sc_Subjects :: "string list"
  sc_MaxAge :: int
  sc_FileStorage :: bool
  sc_LimitsPolicy :: bool
  sc_Replicas :: int
  sc_Duplicates :: int

definition banking_stream_config :: stream_config where
  "banking_stream_config =
     \<lparr>sc_Name = StreamName, sc_Subjects = [''banking.events.>''], sc_MaxAge = 30 * 24 * 60 * 60 * second,
      sc_FileStorage = True, sc_LimitsPolicy = True, sc_Replicas = 1, sc_Duplicates = streamDuplicateWindow\<rparr>"

definition InitStream ::
  "('n \<Rightarrow> goerr + 'js) \<Rightarrow> ('js \<Rightarrow> stream_config \<Rightarrow> goerr option) \<Rightarrow> 'n \<Rightarrow> goerr + 'js" where
  "InitStream js_New CreateOrUpdateStream nc =
     (case js_New nc of
        Inl e \<Rightarrow> Inl (Wrapf ''jetstream.New'' e)
      | Inr js \<Rightarrow>
          (case CreateOrUpdateStream js banking_stream_config of
             Some e \<Rightarrow> Inl (Wrapf (''create stream '' @ StreamName) e)
           | None \<Rightarrow> Inr js))"

record consumer_config =
  cc_Durable :: string
  cc_FilterSubject :: string
  cc_AckExplicit :: bool
  cc_DeliverAll :: bool
  cc_AckWait :: int
  cc_MaxAckPending :: int
  cc_MaxDeliver :: int
  cc_BackOff :: "int list"

definition balance_consumer_config :: consumer_config where
  "balance_consumer_config =
     \<lparr>cc_Durable = ConsumerBalanceProjection, cc_FilterSubject = SubjectTransferCompleted,
      cc_AckExplicit = True, cc_DeliverAll = True, cc_AckWait = 10 * second, cc_MaxAckPending = 100,
      cc_MaxDeliver = 5, cc_BackOff = [2 * second, 10 * second, 30 * second]\<rparr>"

definition NewBalanceConsumer ::
  "('js \<Rightarrow> string \<Rightarrow> consumer_config \<Rightarrow> goerr + 'k) \<Rightarrow> 'js \<Rightarrow> goerr + 'k" where
  "NewBalanceConsumer CreateOrUpdateConsumer js =
     (case CreateOrUpdateConsumer js StreamName balance_consumer_config of
        Inl e \<Rightarrow> Inl (Wrapf (''create consumer '' @ ConsumerBalanceProjection) e)
      | Inr k \<Rightarrow> Inr k)"

section \<open>Publishing\<close>

record js_msg =
  jm_subject :: string
  jm_id :: string
  jm_data :: json

record 'j jetstream =
  js_PublishMsg :: "js_msg \<Rightarrow> 'j \<Rightarrow> goerr option \<times> 'j"

definition PublishTransferEvent :: "'j jetstream \<Rightarrow> transfer_completed \<Rightarrow> 'j \<Rightarrow> goerr option \<times> 'j" where
  "PublishTransferEvent J evt j =
     (case js_PublishMsg J \<lparr>jm_subject = SubjectTransferCompleted,
                            jm_id = Itoa (i64 (tc_transfer_id evt)),
                            jm_data = transfer_completed_json evt\<rparr> j of
        (Some e, j') \<Rightarrow> (Some (Wrapf ''publish transfer event'' e), j')
      | (None, j') \<Rightarrow> (None, j'))"

locale jetstream_service =
  fixes J :: "'j jetstream" and stream :: "'j \<Rightarrow> js_msg list"
  assumes publish_ok: "js_PublishMsg J m j = (None, j') \<Longrightarrow>
      \<exists>k. stream j' = drop k (stream j) @ [m] \<or>
          (\<exists>m' \<in> set (drop k (stream j)). jm_id m' = jm_id m \<and> stream j' = drop k (stream j))"
    and publish_err: "js_PublishMsg J m j = (Some e, j') \<Longrightarrow>
      \<exists>k. stream j' = drop k (stream j) \<or> stream j' = drop k (stream j) @ [m]"

section \<open>An executable provider\<close>

text \<open>It removes duplicates against every stored message and takes injected faults from a script.\<close>

record memjs =
  mj_stream :: "js_msg list"
  mj_faults :: "goerr option list"

definition mem_js :: "memjs jetstream" where
  "mem_js = \<lparr>js_PublishMsg = (\<lambda>m j.
     (case mj_faults j of
        Some e # fs \<Rightarrow> (Some e, j\<lparr>mj_faults := fs\<rparr>)
      | fs \<Rightarrow>
         (None, j\<lparr>mj_stream := (if list_ex (\<lambda>m'. jm_id m' = jm_id m) (mj_stream j) then mj_stream j
                              else mj_stream j @ [m]),
                  mj_faults := drop 1 fs\<rparr>)))\<rparr>"

interpretation mjs: jetstream_service mem_js mj_stream
proof (unfold_locales, goal_cases)
  case (1 m j j')
  then show ?case
    by (auto simp: mem_js_def list_ex_iff intro!: exI[of _ 0] split: list.splits option.splits if_splits)
next
  case (2 m j e j')
  then show ?case
    by (auto simp: mem_js_def intro!: exI[of _ 0] split: list.splits option.splits if_splits)
qed

context jetstream_service
begin

text \<open>A published event is in the stream afterwards, or the stream held one with its id.\<close>

lemma PublishTransferEvent_stored:
  assumes "PublishTransferEvent J evt j = (None, j')"
  shows "\<exists>m \<in> set (stream j'). jm_id m = Itoa (i64 (tc_transfer_id evt))"
  using assms
  by (fastforce simp: PublishTransferEvent_def split: prod.splits option.splits dest: publish_ok)

end

end
