(* ===== verification/Db_Memory.thy ===== *)
theory Db_Memory
  imports Db_Service
begin

text \<open>
  An executable provider of the database interface: tables in memory, each statement computed as
  \<open>sql_sem\<close> allows, with a script of injected faults. It shows that the laws of \<open>postgres\<close>,
  \<open>tx_runner\<close> and their reliable extensions can hold together, and the witnesses of the
  properties run on it.
\<close>

record memdb =
  m_db :: db
  m_now :: int
  m_faults :: "goerr option list"

fun mem_order :: "row_order \<Rightarrow> ('a \<Rightarrow> int) \<Rightarrow> ('a \<Rightarrow> int) \<Rightarrow> 'a list \<Rightarrow> 'a list" where
  "mem_order Unordered ident created xs = xs"
| "mem_order IdAsc ident created xs = sort_key ident xs"
| "mem_order IdDesc ident created xs = sort_key (\<lambda>x. - ident x) xs"
| "mem_order CreatedAtDesc ident created xs = sort_key (\<lambda>x. - created x) xs"

definition next_id :: "int list \<Rightarrow> int" where
  "next_id ids = foldr max ids 0 + 1"

fun mem_sql :: "(string \<Rightarrow> string \<Rightarrow> bool) \<Rightarrow> int \<Rightarrow> stmt \<Rightarrow> db \<Rightarrow> row list \<times> int \<times> db" where
  "mem_sql ilike now (SelectUsers proj wh ord lim lock) d =
     (let rows = map (user_row proj)
            (page_of lim (mem_order ord u_id (\<lambda>_. 0) (filter (user_matches ilike wh) (users d))))
      in (rows, int (length rows), d))"
| "mem_sql ilike now (CountUsers wh) d =
     ([IntRow (int (length (filter (user_matches ilike wh) (users d))))], 1, d)"
| "mem_sql ilike now UserStats d =
     ([StatsRow (int (length (users d))) (sum_list (map u_balance (users d)))], 1, d)"
| "mem_sql ilike now (InsertUser phone acct username hash) d =
     (if list_ex (\<lambda>u. u_account_number u = acct) (users d) then ([], 0, d)
      else (let i = next_id (map u_id (users d)) in
        ([UserRow ((new_user i phone acct username hash)\<lparr>u_password_hash := []\<rparr>)], 1,
         d\<lparr>users := users d @ [new_user i phone acct username hash]\<rparr>)))"
| "mem_sql ilike now (UpdateBalances sid rid amt) d =
     ([], int (length (filter (\<lambda>u. u_id u \<in> {sid, rid}) (users d))),
      d\<lparr>users := map (update_user_balance sid rid amt) (users d)\<rparr>)"
| "mem_sql ilike now (InsertTransfer f t amt) d =
     (let i = next_id (map t_id (transfers d)) in
      ([IntRow i], 1,
       d\<lparr>transfers := transfers d @
          [\<lparr>t_id = i, t_from_user = f, t_to_user = t, t_amount = amt, t_created_at = now\<rparr>]\<rparr>))"
| "mem_sql ilike now (InsertNotifications xs) d =
     (let i = next_id (map n_id (notifications d)) in
      ([], int (length xs),
       d\<lparr>notifications := notifications d @
          new_notifications xs (map (\<lambda>k. i + int k) [0..<length xs]) now\<rparr>))"
| "mem_sql ilike now (SelectTransfers ord lim) d =
     (let rows = map TransferRow (page_of lim (mem_order ord t_id t_created_at (transfers d)))
      in (rows, int (length rows), d))"
| "mem_sql ilike now CountTransfers d = ([IntRow (int (length (transfers d)))], 1, d)"
| "mem_sql ilike now TransferStats d =
     ([StatsRow (int (length (transfers d))) (sum_list (map t_amount (transfers d)))], 1, d)"
| "mem_sql ilike now (SelectNotifications uid ord lim) d =
     (let rows = map NotificationRow (page_of lim (mem_order ord n_id n_created_at
            (filter (\<lambda>x. case uid of None \<Rightarrow> True | Some i \<Rightarrow> n_user_id x = i) (notifications d))))
      in (rows, int (length rows), d))"
| "mem_sql ilike now CountNotifications d = ([IntRow (int (length (notifications d)))], 1, d)"
| "mem_sql ilike now (AckNotification i uid) d =
     ([], int (length (filter (\<lambda>x. n_id x = i \<and> n_user_id x = uid) (notifications d))),
      d\<lparr>notifications := map (\<lambda>x. if n_id x = i \<and> n_user_id x = uid then x\<lparr>n_is_read := True\<rparr> else x)
          (notifications d)\<rparr>)"

text \<open>One call: the next scripted fault (when it is one a connection can have), then the schema's
  refusal, then the result.\<close>

definition pop_fault :: "bool \<Rightarrow> memdb \<Rightarrow> goerr option \<times> memdb" where
  "pop_fault faulty w =
     (case m_faults w of
        [] \<Rightarrow> (None, w)
      | x # xs \<Rightarrow> ((case x of Some e \<Rightarrow> (if faulty \<and> conn_err e then Some e else None) | None \<Rightarrow> None),
                   w\<lparr>m_faults := xs\<rparr>))"

definition mem_run ::
  "(string \<Rightarrow> string \<Rightarrow> bool) \<Rightarrow> bool \<Rightarrow> stmt \<Rightarrow> memdb \<Rightarrow> (goerr + row list \<times> int) \<times> memdb" where
  "mem_run ilike faulty st w =
     (case pop_fault faulty w of (flt, w1) \<Rightarrow>
       (case flt of
          Some e \<Rightarrow> (Inl e, w1)
        | None \<Rightarrow>
           (case sql_errs st (m_db w1) of
              c # cs \<Rightarrow> (Inl (PgError c), w1)
            | [] \<Rightarrow>
               (if \<not> within_limits st (m_db w1)
                then (Inl (OtherErr ''limit exceeded''), w1)
                else (case mem_sql ilike (m_now w1) st (m_db w1) of (rows, n, d') \<Rightarrow>
                       (Inr (rows, n), w1\<lparr>m_db := d', m_now := m_now w1 + 1\<rparr>))))))"

definition mem_bob :: "(string \<Rightarrow> string \<Rightarrow> bool) \<Rightarrow> bool \<Rightarrow> memdb bobdb" where
  "mem_bob ilike faulty =
     \<lparr>bob_One = (\<lambda>st w. case mem_run ilike faulty st w of
          (Inl e, w') \<Rightarrow> (Inl e, w')
        | (Inr (rows, n), w') \<Rightarrow> (case rows of [] \<Rightarrow> (Inl SqlErrNoRows, w') | r # rs \<Rightarrow> (Inr r, w'))),
      bob_All = (\<lambda>st w. case mem_run ilike faulty st w of
          (Inl e, w') \<Rightarrow> (Inl e, w') | (Inr (rows, n), w') \<Rightarrow> (Inr rows, w')),
      bob_Exec = (\<lambda>st w. case mem_run ilike faulty st w of
          (Inl e, w') \<Rightarrow> (Inl e, w') | (Inr (rows, n), w') \<Rightarrow> (Inr n, w'))\<rparr>"

definition mem_RunInTx :: "bool \<Rightarrow> ('x, memdb) tx_fun \<Rightarrow> ('x, memdb) tx_fun" where
  "mem_RunInTx faulty f x w =
     (case pop_fault faulty w of
        (Some e, w1) \<Rightarrow> (Some e, x, w1)
      | (None, w1) \<Rightarrow>
         (case f x w1 of
            (Some e, x', w2) \<Rightarrow> (Some e, x', w2\<lparr>m_db := m_db w1\<rparr>)
          | (None, x', w2) \<Rightarrow>
             (case pop_fault faulty w2 of
                (None, w3) \<Rightarrow> (None, x', w3)
              | (Some e, w3) \<Rightarrow>
                  (Some e, x', if pg_code e = [] then w3 else w3\<lparr>m_db := m_db w1\<rparr>))))"

section \<open>The provider keeps the laws\<close>

lemma mem_order_mset [simp]: "mset (mem_order ord ident created xs) = mset xs"
  by (cases ord) simp_all

lemma order_rel_eqs:
  "order_rel Unordered ident created = (\<lambda>x y. True)"
  "order_rel IdAsc ident created = (\<lambda>x y. ident x \<le> ident y)"
  "order_rel IdDesc ident created = (\<lambda>x y. ident y \<le> ident x)"
  "order_rel CreatedAtDesc ident created = (\<lambda>x y. created y \<le> created x)"
  by (simp_all add: fun_eq_iff)

lemma mem_order_sorted: "sorted_wrt (order_rel ord ident created) (mem_order ord ident created xs)"
proof (cases ord)
  case IdAsc
  then show ?thesis using sorted_sort_key[of ident xs] by (simp add: sorted_map order_rel_eqs)
next
  case IdDesc
  then show ?thesis using sorted_sort_key[of "\<lambda>x. - ident x" xs] by (simp add: sorted_map order_rel_eqs)
next
  case CreatedAtDesc
  then show ?thesis using sorted_sort_key[of "\<lambda>x. - created x" xs] by (simp add: sorted_map order_rel_eqs)
qed (simp add: order_rel_eqs sorted_wrt_iff_nth_less)

lemma mem_order_selection:
  "selection (order_rel ord ident created) xs lim (page_of lim (mem_order ord ident created xs))"
  unfolding selection_def using mem_order_mset mem_order_sorted by blast

lemma foldr_max_ge: "i \<in> set ids \<Longrightarrow> i \<le> foldr max ids (0::int)"
  by (induction ids) auto

lemma foldr_max_bound: "list_all (\<lambda>i. i < m) ids \<Longrightarrow> 0 < m \<Longrightarrow> foldr max ids (0::int) < m"
  by (induction ids) auto

lemma foldr_max_nonneg: "0 \<le> foldr max ids (0::int)"
  by (induction ids) auto

lemma next_id_fresh:
  assumes "id_room ids" and "k \<le> 1000"
  shows "fresh ids (next_id ids + int k)"
  using foldr_max_ge[of _ ids] foldr_max_bound[OF assms(1)[unfolded id_room_def]] foldr_max_nonneg[of ids] assms(2)
  by (fastforce simp: fresh_def next_id_def in64_def)

lemma mem_sql_sem:
  assumes "sql_errs st d = []" and "within_limits st d"
    and "mem_sql ilike now st d = (rows, n, d')"
  shows "sql_sem ilike st d rows n d'"
proof (cases st)
  case (InsertUser phone acct username hash)
  with assms next_id_fresh[of "map u_id (users d)" 0] show ?thesis
    by (auto simp: Let_def split: if_splits)
next
  case (InsertTransfer f t a)
  with assms next_id_fresh[of "map t_id (transfers d)" 0] show ?thesis
    by (auto simp: Let_def)
next
  case (InsertNotifications xs)
  let ?i = "next_id (map n_id (notifications d))"
  have "list_all (fresh (map n_id (notifications d))) (map (\<lambda>k. ?i + int k) [0..<length xs])"
    using assms(2) InsertNotifications next_id_fresh[of "map n_id (notifications d)"]
    by (auto simp: list_all_iff)
  moreover have "distinct (map (\<lambda>k. ?i + int k) [0..<length xs])"
    by (simp add: distinct_map inj_on_def)
  ultimately show ?thesis
    using assms InsertNotifications
    by (auto simp: Let_def intro!: exI[of _ "map (\<lambda>k. ?i + int k) [0..<length xs]"])
qed (use assms in \<open>auto simp: Let_def intro: mem_order_selection intro!: exI[where P = "\<lambda>us. selection _ _ _ us \<and> map _ _ = map _ us"]\<close>)

lemma pop_fault_db: "pop_fault faulty w = (r, w') \<Longrightarrow> m_db w' = m_db w"
  by (auto simp: pop_fault_def split: list.splits)

lemma pop_fault_conn: "pop_fault faulty w = (Some e, w') \<Longrightarrow> faulty \<and> conn_err e"
  by (auto simp: pop_fault_def split: list.splits option.splits if_splits)

lemma app_err_simps [simp]: "\<not> app_err (PgError c)" "\<not> app_err (OtherErr m)"
  by (simp_all add: app_err_def app_errors_def)

text \<open>The four outcomes of a call.\<close>

lemma mem_run_cases:
  obtains (fault) e w1 where "mem_run ilike faulty st w = (Inl e, w1)" "faulty" "conn_err e" "m_db w1 = m_db w"
  | (refused) c w1 where "mem_run ilike faulty st w = (Inl (PgError c), w1)"
      "c \<in> set (sql_errs st (m_db w))" "m_db w1 = m_db w"
  | (limit) w1 where "mem_run ilike faulty st w = (Inl (OtherErr ''limit exceeded''), w1)"
      "\<not> accepted st (m_db w)" "m_db w1 = m_db w"
  | (ok) rows n w1 where "mem_run ilike faulty st w = (Inr (rows, n), w1)"
      "sql_sem ilike st (m_db w) rows n (m_db w1)"
proof -
  obtain flt w1 where w1: "pop_fault faulty w = (flt, w1)" by fastforce
  then have d: "m_db w1 = m_db w" by (rule pop_fault_db)
  obtain rows n d' where m: "mem_sql ilike (m_now w1) st (m_db w1) = (rows, n, d')"
    using prod_cases3 by blast
  consider (1) e where "flt = Some e" | (2) c cs where "flt = None" "sql_errs st (m_db w1) = c # cs"
    | (3) "flt = None" "sql_errs st (m_db w1) = []" "\<not> within_limits st (m_db w1)"
    | (4) "flt = None" "sql_errs st (m_db w1) = []" "within_limits st (m_db w1)"
    by (cases flt; cases "sql_errs st (m_db w1)") auto
  then show thesis
  proof cases
    case 1
    with w1 have "faulty" "conn_err e" using pop_fault_conn by auto
    with 1 w1 d show thesis by (intro fault[of e w1]) (simp_all add: mem_run_def)
  next
    case 2
    with w1 d refused show thesis by (auto simp: mem_run_def)
  next
    case 3
    with w1 d limit show thesis by (auto simp: mem_run_def accepted_def)
  next
    case 4
    with mem_sql_sem m have "sql_sem ilike st (m_db w1) rows n d'" by blast
    with 4 w1 d m ok show thesis by (simp add: mem_run_def)
  qed
qed

lemma mem_run_Inr:
  "mem_run ilike faulty st w = (Inr (rows, n), w') \<Longrightarrow> sql_sem ilike st (m_db w) rows n (m_db w')"
  by (rule mem_run_cases[of ilike faulty st w]) auto

lemma mem_run_Inl:
  "mem_run ilike faulty st w = (Inl e, w') \<Longrightarrow>
     m_db w' = m_db w \<and> db_err st (m_db w) e \<and> \<not> errors_Is e SqlErrNoRows"
  by (rule mem_run_cases[of ilike faulty st w])
    (auto simp: db_err_def conn_err_def constraint_codes_def app_err_def app_errors_def)

lemma mem_run_total: "accepted st (m_db w) \<Longrightarrow> mem_run ilike False st w \<noteq> (Inl e, w')"
  by (rule mem_run_cases[of ilike False st w]) (auto simp: accepted_def)

lemma mem_tx_outcome:
  assumes "mem_RunInTx faulty f x w = (r, x', w')"
  shows "tx_outcome m_db f x w r x' w'"
proof -
  obtain flt w1 where w1: "pop_fault faulty w = (flt, w1)" by fastforce
  show ?thesis
  proof (cases flt)
    case (Some e)
    with w1 have "conn_err e" "m_db w1 = m_db w" using pop_fault_conn pop_fault_db by auto
    with assms w1 Some show ?thesis by (auto simp: mem_RunInTx_def intro: tx_outcome.begin_failed)
  next
    case None
    obtain fr x2 w2 where f: "f x w1 = (fr, x2, w2)" using prod_cases3 by blast
    obtain flt2 w3 where w3: "pop_fault faulty w2 = (flt2, w3)" by fastforce
    note eq = assms[unfolded mem_RunInTx_def w1 None f w3, simplified, unfolded f w3, simplified]
    have "m_db w1 = m_db w" "m_db w3 = m_db w2" using w1 w3 by (auto dest: pop_fault_db)
    then show ?thesis
      using eq f w3 pop_fault_conn[of faulty w2]
      by (cases fr; cases flt2)
        (auto split: if_splits intro: tx_outcome.intros(2-5)[where c = w1 and c' = w2])
  qed
qed

interpretation mem: postgres "mem_bob ilike faulty" m_db ilike
  by unfold_locales
    (auto simp: mem_bob_def split: prod.splits sum.splits list.splits dest: mem_run_Inr mem_run_Inl)

interpretation rel_mem: reliable_postgres "mem_bob ilike False" m_db ilike
  by unfold_locales
    (auto simp: mem_bob_def mem_run_total split: prod.splits sum.splits list.splits)

interpretation mem_tx: tx_runner "mem_RunInTx faulty" m_db
  by unfold_locales (rule mem_tx_outcome)

interpretation rel_mem_tx: reliable_tx_runner "mem_RunInTx False" m_db
  by unfold_locales
    (auto simp: mem_RunInTx_def split: prod.splits option.splits dest: pop_fault_conn pop_fault_db)

end
