(* ===== verification/Transfer_Service.thy ===== *)
theory Transfer_Service
  imports Rpc_Consumer Jetstream Db_Memory
begin

text \<open>
  \<^verbatim>\<open>services/transfer-service/handlers.go\<close>: the transfer handler, the transaction it runs and the
  work after the commit. \<open>transfer_tx\<close> is the function passed to \<^verbatim>\<open>SerializableTx\<close>; the variable
  \<^verbatim>\<open>res\<close> it captures is its state argument, so a retried attempt starts from what the failed one
  left in it. The handler takes the database driver, the transaction runner, the Redis client, the
  optional event publisher, the random source of the back-off and what other sessions do during it.

  The abstract contract of a transfer is the relation \<open>transfer_spec\<close> on tables.
\<close>

section \<open>Payload and result\<close>

record transfer_payload =
  tp_account_number :: string
  tp_phone :: string
  tp_username :: string
  tp_amount :: int

definition transfer_payload_zero :: transfer_payload where
  "transfer_payload_zero = \<lparr>tp_account_number = [], tp_phone = [], tp_username = [], tp_amount = 0\<rparr>"

definition transfer_payload_fields :: "string list" where
  "transfer_payload_fields = [''account_number'', ''phone'', ''username'', ''amount'']"

definition transfer_payload_set :: "string \<Rightarrow> json \<Rightarrow> transfer_payload \<Rightarrow> transfer_payload option" where
  "transfer_payload_set f v p =
     (if f = ''account_number''
        then map_option (\<lambda>x. p\<lparr>tp_account_number := x\<rparr>) (decode_string v (tp_account_number p))
      else if f = ''phone'' then map_option (\<lambda>x. p\<lparr>tp_phone := x\<rparr>) (decode_string v (tp_phone p))
      else if f = ''username'' then map_option (\<lambda>x. p\<lparr>tp_username := x\<rparr>) (decode_string v (tp_username p))
      else map_option (\<lambda>x. p\<lparr>tp_amount := x\<rparr>) (decode_int v (tp_amount p)))"

definition decode_transfer_payload :: "raw_message \<Rightarrow> transfer_payload option" where
  "decode_transfer_payload raw =
     unmarshal_obj transfer_payload_fields transfer_payload_set transfer_payload_zero raw"

record transfer_result =
  tr_transferID :: int
  tr_senderID :: int
  tr_receiverID :: int
  tr_senderPhone :: string
  tr_receiverPhone :: string
  tr_senderBalance :: int
  tr_receiverBalance :: int

definition transfer_result_zero :: transfer_result where
  "transfer_result_zero = \<lparr>tr_transferID = 0, tr_senderID = 0, tr_receiverID = 0, tr_senderPhone = [],
     tr_receiverPhone = [], tr_senderBalance = 0, tr_receiverBalance = 0\<rparr>"

section \<open>The steps of the transaction\<close>

definition resolveReceiver :: "'c bobdb \<Rightarrow> transfer_payload \<Rightarrow> 'c \<Rightarrow> (goerr + int) \<times> 'c" where
  "resolveReceiver B p w =
     (case UserIdentifierCol (tp_account_number p) (tp_phone p) (tp_username p) of (col, val) \<Rightarrow>
       (case bob_One B (SelectUsers ProjId (UserEq col (ArgText val)) Unordered None False) w of
          (r, w') \<Rightarrow>
            (case scan_int r of
               Inl e \<Rightarrow> (if IsNotFound (Some e) then (Inl ErrReceiverNotFound, w') else (Inl e, w'))
             | Inr i \<Rightarrow> (Inr i, w'))))"

definition lockBothUsers :: "'c bobdb \<Rightarrow> int \<Rightarrow> int \<Rightarrow> 'c \<Rightarrow> (goerr + user \<times> user) \<times> 'c" where
  "lockBothUsers B senderID receiverID w =
     (case bob_All B (SelectUsers ProjUser (UserIdIn [senderID, receiverID]) IdAsc None True) w of
        (r, w') \<Rightarrow>
          (case scan_all_users r of
             Inl e \<Rightarrow> (Inl (Wrapf ''lock both users'' e), w')
           | Inr rows \<Rightarrow>
               (case rows of
                  [r0, r1] \<Rightarrow> (Inr (if u_id r0 = senderID then (r0, r1) else (r1, r0)), w')
                | _ \<Rightarrow> (Inl (OtherErr (''lock both users: expected 2 rows, got '' @ Itoa (int (length rows)))), w'))))"

definition updateBalances :: "'c bobdb \<Rightarrow> int \<Rightarrow> int \<Rightarrow> int \<Rightarrow> 'c \<Rightarrow> goerr option \<times> 'c" where
  "updateBalances B senderID receiverID amount w =
     (case bob_Exec B (UpdateBalances senderID receiverID amount) w of
        (Inl e, w') \<Rightarrow> (Some (Wrapf ''update balances'' e), w')
      | (Inr n, w') \<Rightarrow> (if n \<noteq> 2 then (Some ErrInsufficientFunds, w') else (None, w')))"

definition insertTransferRecord :: "'c bobdb \<Rightarrow> int \<Rightarrow> int \<Rightarrow> int \<Rightarrow> 'c \<Rightarrow> (goerr + int) \<times> 'c" where
  "insertTransferRecord B senderID receiverID amount w =
     (case bob_One B (InsertTransfer senderID receiverID amount) w of
        (r, w') \<Rightarrow>
          (case scan_int r of
             Inl e \<Rightarrow> (Inl (Wrapf ''insert transfer'' e), w')
           | Inr i \<Rightarrow> (Inr i, w')))"

definition sent_msg :: "int \<Rightarrow> user \<Rightarrow> string" where
  "sent_msg amount receiver = ''You sent '' @ Itoa amount @ '' to '' @ u_username receiver"

definition received_msg :: "int \<Rightarrow> user \<Rightarrow> string" where
  "received_msg amount sender = ''You received '' @ Itoa amount @ '' from '' @ u_username sender"

definition insertNotifications :: "'c bobdb \<Rightarrow> user \<Rightarrow> user \<Rightarrow> int \<Rightarrow> 'c \<Rightarrow> goerr option \<times> 'c" where
  "insertNotifications B sender receiver amount w =
     (case bob_Exec B (InsertNotifications
              [(u_id sender, sent_msg amount receiver), (u_id receiver, received_msg amount sender)]) w of
        (Inl e, w') \<Rightarrow> (Some (Wrapf ''insert notifications'' e), w')
      | (Inr _, w') \<Rightarrow> (None, w'))"

definition transfer_tx :: "'c bobdb \<Rightarrow> int \<Rightarrow> transfer_payload \<Rightarrow> (transfer_result, 'c) tx_fun" where
  "transfer_tx B senderID p res w =
     (case resolveReceiver B p w of
        (Inl e, w1) \<Rightarrow> (Some e, res, w1)
      | (Inr receiverID, w1) \<Rightarrow>
          (if senderID = receiverID then (Some ErrSelfTransfer, res, w1)
           else (let res1 = res\<lparr>tr_receiverID := receiverID\<rparr> in
             case lockBothUsers B senderID receiverID w1 of
               (Inl e, w2) \<Rightarrow> (Some e, res1, w2)
             | (Inr (sender, receiver), w2) \<Rightarrow>
                 (if u_balance sender < tp_amount p then (Some ErrInsufficientFunds, res1, w2)
                  else (case updateBalances B (u_id sender) (u_id receiver) (tp_amount p) w2 of
                    (Some e, w3) \<Rightarrow> (Some e, res1, w3)
                  | (None, w3) \<Rightarrow>
                      (case insertTransferRecord B (u_id sender) (u_id receiver) (tp_amount p) w3 of
                         (Inl e, w4) \<Rightarrow> (Some e, res1, w4)
                       | (Inr tfr, w4) \<Rightarrow>
                           (let res2 = res1\<lparr>tr_transferID := tfr,
                                            tr_senderID := u_id sender,
                                            tr_senderPhone := u_phone sender,
                                            tr_senderBalance := i64 (u_balance sender - tp_amount p),
                                            tr_receiverPhone := u_phone receiver,
                                            tr_receiverBalance := i64 (u_balance receiver + tp_amount p)\<rparr>
                            in (case insertNotifications B sender receiver (tp_amount p) w4 of
                                  (err, w5) \<Rightarrow> (err, res2, w5)))))))))"

definition runTransferTx ::
  "'c bobdb \<Rightarrow> ((transfer_result, 'c) tx_fun \<Rightarrow> (transfer_result, 'c) tx_fun) \<Rightarrow> (nat \<Rightarrow> int \<Rightarrow> int) \<Rightarrow>
   (nat \<Rightarrow> 'c \<Rightarrow> 'c) \<Rightarrow> goctx \<Rightarrow> int \<Rightarrow> transfer_payload \<Rightarrow> 'c \<Rightarrow> transfer_result \<times> goerr option \<times> 'c" where
  "runTransferTx B RunInTx rnd sleep ctx senderID p w =
     (case SerializableTx RunInTx (ctx_backoff ctx) rnd sleep (transfer_tx B senderID p) transfer_result_zero w of
        (err, res, w', slept) \<Rightarrow> (res, err, w'))"

section \<open>The handler\<close>

definition trim_payload :: "transfer_payload \<Rightarrow> transfer_payload" where
  "trim_payload p = p\<lparr>tp_account_number := TrimSpace (tp_account_number p), tp_phone := TrimSpace (tp_phone p),
                      tp_username := TrimSpace (tp_username p)\<rparr>"

definition serialization_detail :: string where
  "serialization_detail =
     ''Serialization failure '' @ [CHR 0xE2, CHR 0x80, CHR 0x94] @ '' please retry''"

definition event_of :: "transfer_payload \<Rightarrow> transfer_result \<Rightarrow> transfer_completed" where
  "event_of p res =
     \<lparr>tc_transfer_id = tr_transferID res, tc_amount = tp_amount p, tc_sender_id = tr_senderID res,
      tc_sender_balance = tr_senderBalance res, tc_receiver_id = tr_receiverID res,
      tc_receiver_balance = tr_receiverBalance res\<rparr>"

text \<open>The handler after the commit: the Redis pipeline, the event when there is a publisher (the
  errors of both are only logged), and the reply.\<close>

definition after_commit ::
  "'r redis \<Rightarrow> (transfer_completed \<Rightarrow> 'j \<Rightarrow> goerr option \<times> 'j) option \<Rightarrow> transfer_payload \<Rightarrow> transfer_result \<Rightarrow>
   ('c, 'r, 'j) world \<Rightarrow> (goerr + any_result) \<times> ('c, 'r, 'j) world" where
  "after_commit R publishEvent p res w =
     (let evt = event_of p res;
          r' = snd (PublishTransferCompleted R evt (tr_senderPhone res) (tr_receiverPhone res) (w_redis w));
          j' = (case publishEvent of None \<Rightarrow> w_js w | Some pub \<Rightarrow> snd (pub evt (w_js w)))
      in (reply 200 (JObj [(''transfer_id'', JInt (tr_transferID res)), (''amount'', JInt (tp_amount p))]),
          w\<lparr>w_redis := r', w_js := j'\<rparr>))"

definition handleTransfer ::
  "'c bobdb \<Rightarrow> ((transfer_result, 'c) tx_fun \<Rightarrow> (transfer_result, 'c) tx_fun) \<Rightarrow> 'r redis \<Rightarrow>
   (transfer_completed \<Rightarrow> 'j \<Rightarrow> goerr option \<times> 'j) option \<Rightarrow> (nat \<Rightarrow> int \<Rightarrow> int) \<Rightarrow> (nat \<Rightarrow> 'c \<Rightarrow> 'c) \<Rightarrow>
   ('c, 'r, 'j) handler" where
  "handleTransfer B RunInTx R publishEvent rnd sleep ctx action raw headers w =
     (let senderID = fst (UserIDFromContext ctx) in
      case decode_transfer_payload raw of
        None \<Rightarrow> (reply 400 (detail ''invalid payload''), w)
      | Some p0 \<Rightarrow>
         (let p = trim_payload p0 in
          if tp_account_number p = [] \<and> tp_phone p = [] \<and> tp_username p = []
          then (reply 400 (detail ''provide account_number, phone, or username''), w)
          else if tp_amount p \<le> 0 then (reply 400 (detail ''amount must be positive''), w)
          else (case runTransferTx B RunInTx rnd sleep ctx senderID p (w_db w) of
                  (res, txErr, c') \<Rightarrow>
                    (let w1 = w\<lparr>w_db := c'\<rparr> in
                     if err_is txErr ErrInsufficientFunds
                     then (reply 400 (detail ''Insufficient funds''), w1)
                     else if err_is txErr ErrReceiverNotFound
                     then (reply 404 (detail ''Receiver not found''), w1)
                     else if err_is txErr ErrSelfTransfer
                     then (reply 400 (detail ''Cannot transfer to yourself''), w1)
                     else if IsSerializationFailure txErr
                     then (reply 503 (detail serialization_detail), w1)
                     else (case txErr of
                             Some e \<Rightarrow> (Inl (Wrapf ''transfer tx'' e), w1)
                           | None \<Rightarrow> after_commit R publishEvent p res w1)))))"

end
