(* ===== verification/Transfer_Proofs.thy ===== *)
theory Transfer_Proofs
  imports Transfer_Service
begin

text \<open>
  The contract of a transfer and the lemmas that the transaction of the transfer service meets it:
  what a successful run does to the tables (\<open>transfer_spec\<close>) and which refusals a failed run can
  report (\<open>transfer_refused\<close>), for every database service that keeps the laws of \<open>postgres\<close>.
\<close>

section \<open>The contract\<close>

text \<open>\<open>u\<close> is a user the payload names.\<close>

definition names_user :: "transfer_payload \<Rightarrow> user \<Rightarrow> bool" where
  "names_user p u =
     (case UserIdentifierCol (tp_account_number p) (tp_phone p) (tp_username p) of (col, val) \<Rightarrow>
        user_cell col u = ArgText val)"

definition move_money :: "int \<Rightarrow> int \<Rightarrow> int \<Rightarrow> user list \<Rightarrow> user list" where
  "move_money s r a us =
     map (\<lambda>u. if u_id u = s then u\<lparr>u_balance := u_balance u - a\<rparr>
              else if u_id u = r then u\<lparr>u_balance := u_balance u + a\<rparr> else u) us"

inductive transfer_spec :: "int \<Rightarrow> transfer_payload \<Rightarrow> db \<Rightarrow> transfer_result \<Rightarrow> db \<Rightarrow> bool" where
  transferred:
    "\<lbrakk>s \<in> set (users d); r \<in> set (users d); u_id s = sid; names_user p r; u_id r \<noteq> sid;
      tp_amount p \<le> u_balance s; in64 (u_balance r + tp_amount p);
      fresh (map t_id (transfers d)) i; distinct [j, k];
      fresh (map n_id (notifications d)) j; fresh (map n_id (notifications d)) k;
      d' = \<lparr>users = move_money sid (u_id r) (tp_amount p) (users d),
            transfers = transfers d @
              [\<lparr>t_id = i, t_from_user = sid, t_to_user = u_id r, t_amount = tp_amount p, t_created_at = now\<rparr>],
            notifications = notifications d @
              [\<lparr>n_id = j, n_user_id = sid, n_message = sent_msg (tp_amount p) r, n_is_read = False,
                n_created_at = now'\<rparr>,
               \<lparr>n_id = k, n_user_id = u_id r, n_message = received_msg (tp_amount p) s, n_is_read = False,
                n_created_at = now'\<rparr>]\<rparr>;
      res = \<lparr>tr_transferID = i, tr_senderID = sid, tr_receiverID = u_id r, tr_senderPhone = u_phone s,
             tr_receiverPhone = u_phone r, tr_senderBalance = u_balance s - tp_amount p,
             tr_receiverBalance = u_balance r + tp_amount p\<rparr>\<rbrakk>
     \<Longrightarrow> transfer_spec sid p d res d'"

inductive_cases transfer_specE: "transfer_spec sid p d res d'"

text \<open>Why a run may fail: the three business refusals; a sender that has no row; a receiver whose
  balance would leave the column's range; an identifier PostgreSQL cannot take as text; or a fault
  that is not a data or constraint error.\<close>

inductive transfer_refused :: "int \<Rightarrow> transfer_payload \<Rightarrow> db \<Rightarrow> goerr \<Rightarrow> bool" for sid p d where
  receiver_not_found: "\<forall>u \<in> set (users d). \<not> names_user p u \<Longrightarrow> transfer_refused sid p d ErrReceiverNotFound"
| self_transfer: "u \<in> set (users d) \<Longrightarrow> names_user p u \<Longrightarrow> u_id u = sid \<Longrightarrow>
    transfer_refused sid p d ErrSelfTransfer"
| insufficient_funds: "s \<in> set (users d) \<Longrightarrow> r \<in> set (users d) \<Longrightarrow> u_id s = sid \<Longrightarrow> names_user p r \<Longrightarrow>
    u_id r \<noteq> sid \<Longrightarrow> u_balance s < tp_amount p \<Longrightarrow> transfer_refused sid p d ErrInsufficientFunds"
| no_sender: "sid \<notin> user_ids d \<Longrightarrow> transfer_refused sid p d (OtherErr m)"
| balance_overflow: "r \<in> set (users d) \<Longrightarrow> names_user p r \<Longrightarrow> u_id r \<noteq> sid \<Longrightarrow>
    \<not> in64 (u_balance r + tp_amount p) \<Longrightarrow> \<not> app_err e \<Longrightarrow> pg_code e = ''22003'' \<Longrightarrow> transfer_refused sid p d e"
| bad_text: "CHR 0x00 \<in> set (snd (UserIdentifierCol (tp_account_number p) (tp_phone p) (tp_username p))) \<Longrightarrow>
    \<not> app_err e \<Longrightarrow> pg_code e = ''22021'' \<Longrightarrow> transfer_refused sid p d e"
| fault: "conn_err e \<Longrightarrow> transfer_refused sid p d e"

section \<open>Generic facts\<close>

lemma app_err_Wrapf [simp]: "app_err (Wrapf m e) = app_err e"
  by (simp add: app_err_def app_errors_def)

lemma app_err_app [simp]:
  "app_err SqlErrNoRows" "app_err ErrInsufficientFunds" "app_err ErrReceiverNotFound" "app_err ErrSelfTransfer"
  by (simp_all add: app_err_def app_errors_def)

lemma not_app_err_not_found: "\<not> app_err e \<Longrightarrow> \<not> errors_Is e SqlErrNoRows"
  by (simp add: app_err_def app_errors_def)

lemma conn_err_Wrapf [simp]: "conn_err (Wrapf m e) = conn_err e"
  by (simp add: conn_err_def)

lemma utf8_len_append [simp]: "utf8_len (s @ t) = utf8_len s + utf8_len t"
  by (simp add: utf8_len_def)

lemma utf8_len_le: "utf8_len s \<le> length s"
  by (simp add: utf8_len_def)

lemma nat_dec_no_NUL: "CHR 0x00 \<notin> set (nat_dec n)"
  using nat_dec_digits[of n] by (auto simp: list_all_iff is_digit_def)

lemma Itoa_no_NUL: "CHR 0x00 \<notin> set (Itoa i)"
  using nat_dec_no_NUL by (auto simp: Itoa_def)

lemma unique_user:
  "db_wf d \<Longrightarrow> u \<in> set (users d) \<Longrightarrow> v \<in> set (users d) \<Longrightarrow> u_id u = u_id v \<Longrightarrow> u = v"
  by (auto simp: db_wf_def distinct_map dest: inj_onD)

lemma user_in_ids: "u \<in> set (users d) \<Longrightarrow> u_id u \<in> user_ids d"
  by (simp add: user_ids_def)

lemma user_wf: "db_wf d \<Longrightarrow> u \<in> set (users d) \<Longrightarrow> user_row_wf u"
  by (auto simp: db_wf_def list_all_iff)

text \<open>The notification texts always fit their column.\<close>

lemma notification_texts_fit:
  assumes "user_row_wf u" and "in64 a"
  shows "text_errs 255 (sent_msg a u) = []" and "text_errs 255 (received_msg a u) = []"
  using assms Itoa_length[of a] utf8_len_le[of "Itoa a"] utf8_len_le[of "''You sent ''"] utf8_len_le[of "'' to ''"]
    utf8_len_le[of "''You received ''"] utf8_len_le[of "'' from ''"] Itoa_no_NUL[of a]
  by (simp_all add: text_errs_def sent_msg_def received_msg_def user_row_wf_def del: append_Cons)

section \<open>The statements of the transaction\<close>

lemma two_users:
  assumes "db_wf d" and "s \<noteq> r" and "mset us = mset (filter (\<lambda>u. u_id u \<in> set [s, r]) (users d))"
    and "us = [x, y]"
  shows "x \<in> set (users d)" "y \<in> set (users d)" "u_id x = s \<and> u_id y = r \<or> u_id x = r \<and> u_id y = s"
proof -
  have "set us = set (filter (\<lambda>u. u_id u \<in> set [s, r]) (users d))" using assms(3) mset_eq_setD by blast
  then have xy: "x \<in> set (users d)" "y \<in> set (users d)" "u_id x \<in> {s, r}" "u_id y \<in> {s, r}"
    using assms(4) by auto
  have "mset (map u_id us) = mset (map u_id (filter (\<lambda>u. u_id u \<in> set [s, r]) (users d)))"
    using assms(3) by (simp only: mset_map)
  moreover have "distinct (map u_id (filter (\<lambda>u. u_id u \<in> set [s, r]) (users d)))"
    using assms(1) by (simp add: db_wf_def distinct_map_filter)
  ultimately have "distinct (map u_id us)" using mset_eq_imp_distinct_iff by blast
  with assms(4) have "u_id x \<noteq> u_id y" by simp
  with xy show "x \<in> set (users d)" "y \<in> set (users d)" "u_id x = s \<and> u_id y = r \<or> u_id x = r \<and> u_id y = s"
    by auto
qed

lemma two_ids_present:
  assumes "db_wf d" and "s \<noteq> r" and "s \<in> user_ids d" and "r \<in> user_ids d"
  shows "length (filter (\<lambda>u. u_id u \<in> {s, r}) (users d)) = 2"
proof -
  let ?us = "filter (\<lambda>u. u_id u \<in> {s, r}) (users d)"
  have "distinct (map u_id ?us)" using assms(1) by (simp add: db_wf_def distinct_map_filter)
  then have "length ?us = card (set (map u_id ?us))" using distinct_card[of "map u_id ?us"] by simp
  moreover have "set (map u_id ?us) = {s, r}" using assms(3,4) by (auto simp: user_ids_def image_iff)
  ultimately show ?thesis using assms(2) by simp
qed

lemma update_is_move:
  assumes "db_wf d" and "s \<in> set (users d)" and "a \<le> u_balance s" and "u_id s \<noteq> rid"
  shows "map (update_user_balance (u_id s) rid a) (users d) = move_money (u_id s) rid a (users d)"
  unfolding move_money_def
  using assms unique_user[OF assms(1) _ assms(2)]
  by (intro map_cong) (auto simp: update_user_balance_def case_balance_def)

lemma update_errs:
  assumes "db_wf d" and "s \<in> set (users d)" and "r \<in> set (users d)" and "u_id s \<noteq> u_id r"
    and "0 < a" and "a \<le> u_balance s"
  shows "set (sql_errs (UpdateBalances (u_id s) (u_id r) a) d) =
      (if in64 (u_balance r + a) then {} else {''22003''})"
proof -
  have f: "set (map (case_balance (u_id s) (u_id r) a) (filter (\<lambda>u. u_id u \<in> {u_id s, u_id r}) (users d))) =
      {Some (u_balance s - a), Some (u_balance r + a)}" (is "set ?vs = _")
  proof -
    have "set (filter (\<lambda>u. u_id u \<in> {u_id s, u_id r}) (users d)) = {s, r}"
      using unique_user[OF assms(1)] assms(2,3) by auto
    then show ?thesis using assms(4,6) by (auto simp: case_balance_def)
  qed
  have "in64 (u_balance s - a)" "0 \<le> u_balance r + a" "0 \<le> u_balance s - a"
    using user_wf[OF assms(1,2)] user_wf[OF assms(1,3)] assms(5,6) by (auto simp: user_row_wf_def in64_def)
  then show ?thesis
    unfolding sql_errs.simps Let_def list_ex_iff f using assms(5) by auto
qed

lemma seq_names_col:
  "names_user p u \<longleftrightarrow> user_matches ilike (UserEq (fst (UserIdentifierCol (tp_account_number p) (tp_phone p) (tp_username p)))
     (ArgText (snd (UserIdentifierCol (tp_account_number p) (tp_phone p) (tp_username p))))) u"
  by (simp add: names_user_def split: prod.splits)

lemma move_money_ids [simp]: "map u_id (move_money s r a us) = map u_id us"
  by (auto simp: move_money_def)

lemma user_ids_move [simp]: "user_ids (d\<lparr>users := move_money s r a (users d)\<rparr>) = user_ids d"
  unfolding user_ids_def by (metis db.select_convs(1) db.surjective db.update_convs(1) move_money_ids set_map)

definition recorded_result :: "transfer_payload \<Rightarrow> int \<Rightarrow> user \<Rightarrow> user \<Rightarrow> int \<Rightarrow> transfer_result" where
  "recorded_result p rid s r i =
     \<lparr>tr_transferID = i, tr_senderID = u_id s, tr_receiverID = rid, tr_senderPhone = u_phone s,
      tr_receiverPhone = u_phone r, tr_senderBalance = i64 (u_balance s - tp_amount p),
      tr_receiverBalance = i64 (u_balance r + tp_amount p)\<rparr>"

text \<open>The ways through the transaction.\<close>

lemma transfer_tx_cases:
  assumes "transfer_tx B sid p res w = (err, res', w')"
  obtains (resolve_failed) e where "resolveReceiver B p w = (Inl e, w')" "err = Some e"
  | (self) "resolveReceiver B p w = (Inr sid, w')" "err = Some ErrSelfTransfer"
  | (lock_failed) rid w1 e where "resolveReceiver B p w = (Inr rid, w1)" "sid \<noteq> rid"
      "lockBothUsers B sid rid w1 = (Inl e, w')" "err = Some e"
  | (no_funds) rid w1 s r where "resolveReceiver B p w = (Inr rid, w1)" "sid \<noteq> rid"
      "lockBothUsers B sid rid w1 = (Inr (s, r), w')" "u_balance s < tp_amount p" "err = Some ErrInsufficientFunds"
  | (update_failed) rid w1 s r w2 e where "resolveReceiver B p w = (Inr rid, w1)" "sid \<noteq> rid"
      "lockBothUsers B sid rid w1 = (Inr (s, r), w2)" "tp_amount p \<le> u_balance s"
      "updateBalances B (u_id s) (u_id r) (tp_amount p) w2 = (Some e, w')" "err = Some e"
  | (insert_failed) rid w1 s r w2 w3 e where "resolveReceiver B p w = (Inr rid, w1)" "sid \<noteq> rid"
      "lockBothUsers B sid rid w1 = (Inr (s, r), w2)" "tp_amount p \<le> u_balance s"
      "updateBalances B (u_id s) (u_id r) (tp_amount p) w2 = (None, w3)"
      "insertTransferRecord B (u_id s) (u_id r) (tp_amount p) w3 = (Inl e, w')" "err = Some e"
  | (recorded) rid w1 s r w2 w3 i w4 where "resolveReceiver B p w = (Inr rid, w1)" "sid \<noteq> rid"
      "lockBothUsers B sid rid w1 = (Inr (s, r), w2)" "tp_amount p \<le> u_balance s"
      "updateBalances B (u_id s) (u_id r) (tp_amount p) w2 = (None, w3)"
      "insertTransferRecord B (u_id s) (u_id r) (tp_amount p) w3 = (Inr i, w4)"
      "res' = recorded_result p rid s r i" "insertNotifications B s r (tp_amount p) w4 = (err, w')"
  using assms
  by (cases res)
    (auto simp: transfer_tx_def Let_def recorded_result_def not_less
      split: prod.splits sum.splits if_splits option.splits)

context postgres
begin

lemma resolveReceiver_found:
  assumes "resolveReceiver B p w = (Inr i, w')"
  shows "tables w' = tables w \<and> (\<exists>u \<in> set (users (tables w)). names_user p u \<and> u_id u = i)"
proof -
  obtain col val where cv: "UserIdentifierCol (tp_account_number p) (tp_phone p) (tp_username p) = (col, val)"
    by fastforce
  obtain q where q: "bob_One B (SelectUsers ProjId (UserEq col (ArgText val)) Unordered None False) w = (Inr q, w')"
    and i: "scan_int (Inr q) = Inr i"
    using assms cv by (auto simp: resolveReceiver_def split: prod.splits sum.splits if_splits elim: scan_int.elims)
  from one_row[OF q] obtain z zs where z: "tables w' = tables w" "q = IntRow (u_id z)"
    "mset (z # zs) = mset (filter (user_matches ilike (UserEq col (ArgText val))) (users (tables w)))"
    by (auto simp: selection_all Cons_eq_map_conv)
  then have "z \<in> set (filter (user_matches ilike (UserEq col (ArgText val))) (users (tables w)))"
    by (metis list.set_intros(1) mset_eq_setD)
  with i z(1,2) cv show ?thesis by (auto simp: names_user_def)
qed

lemma resolveReceiver_fails:
  assumes "resolveReceiver B p w = (Inl e, w')"
  shows "tables w' = tables w \<and> transfer_refused sid p (tables w) e"
proof -
  obtain col val where cv: "UserIdentifierCol (tp_account_number p) (tp_phone p) (tp_username p) = (col, val)"
    by fastforce
  let ?st = "SelectUsers ProjId (UserEq col (ArgText val)) Unordered None False"
  obtain r where r: "bob_One B ?st w = (r, w')"
    using assms cv by (auto simp: resolveReceiver_def split: prod.splits sum.splits if_splits)
  show ?thesis
  proof (cases r)
    case (Inr q)
    with r one_row[of ?st w q w'] obtain j where "q = IntRow j" by (auto simp: Cons_eq_map_conv)
    with assms r Inr cv show ?thesis by (simp add: resolveReceiver_def)
  next
    case (Inl e0)
    show ?thesis
    proof (cases "errors_Is e0 SqlErrNoRows")
      case True
      with r Inl one_none[of ?st w e0 w'] have t: "tables w' = tables w"
        "mset [] = mset (filter (user_matches ilike (UserEq col (ArgText val))) (users (tables w)))"
        by (auto simp: selection_all)
      then have "\<forall>u \<in> set (users (tables w)). \<not> names_user p u"
        using cv by (auto simp: names_user_def filter_empty_conv)
      with t assms r Inl True cv show ?thesis
        by (auto simp: resolveReceiver_def IsNotFound_def err_is_def intro: transfer_refused.receiver_not_found)
    next
      case False
      with r Inl one_err[of ?st w e0 w'] have d: "tables w' = tables w" "db_err ?st (tables w) e0" by auto
      have "e = e0" using assms r Inl False cv by (simp add: resolveReceiver_def IsNotFound_def err_is_def)
      with d cv show ?thesis
        by (auto simp: db_err_def page_errs_def conn_err_def split: if_splits
            intro: transfer_refused.bad_text transfer_refused.fault)
    qed
  qed
qed

lemma lockBothUsers_ok:
  assumes "lockBothUsers B sid rid w = (Inr (s, r), w')" and "db_wf (tables w)" and "sid \<noteq> rid"
  shows "tables w' = tables w \<and> s \<in> set (users (tables w)) \<and> r \<in> set (users (tables w)) \<and> u_id s = sid \<and> u_id r = rid"
proof -
  let ?st = "SelectUsers ProjUser (UserIdIn [sid, rid]) IdAsc None True"
  obtain rs where a: "bob_All B ?st w = (Inr rs, w')"
    using assms(1) by (auto simp: lockBothUsers_def scan_all_users_def split: prod.splits sum.splits list.splits)
  from all_rows[OF a] obtain us where t: "tables w' = tables w" "rs = map UserRow us"
    "mset us = mset (filter (\<lambda>u. u_id u \<in> set [sid, rid]) (users (tables w)))"
    by (auto simp: selection_all)
  then obtain x y where xy: "us = [x, y]" "(s, r) = (if u_id x = sid then (x, y) else (y, x))"
    using assms(1) a by (auto simp: lockBothUsers_def scan_all_users_def split: list.splits)
  show ?thesis using two_users[OF assms(2,3) t(3) xy(1)] xy(2) t(1) assms(3) by (auto split: if_splits)
qed

lemma lockBothUsers_fails:
  assumes "lockBothUsers B sid rid w = (Inl e, w')" and "db_wf (tables w)" and "sid \<noteq> rid"
    and "rid \<in> user_ids (tables w)"
  shows "tables w' = tables w \<and> transfer_refused sid p (tables w) e"
proof -
  let ?st = "SelectUsers ProjUser (UserIdIn [sid, rid]) IdAsc None True"
  obtain r where r: "bob_All B ?st w = (r, w')"
    using assms(1) by (auto simp: lockBothUsers_def split: prod.splits sum.splits list.splits)
  show ?thesis
  proof (cases r)
    case (Inl e0)
    with r all_err[of ?st w e0 w'] assms(1) show ?thesis
      by (auto simp: lockBothUsers_def scan_all_users_def db_err_def page_errs_def conn_err_def
          intro: transfer_refused.fault)
  next
    case (Inr rs)
    with r all_rows[of ?st w rs w'] obtain us where t: "tables w' = tables w" "rs = map UserRow us"
      "mset us = mset (filter (\<lambda>u. u_id u \<in> {sid, rid}) (users (tables w)))"
      by (auto simp: selection_all)
    have "length us \<noteq> 2" "\<exists>m. e = OtherErr m"
      using assms(1) r Inr t(2)
      by (auto simp: lockBothUsers_def scan_all_users_def split: list.splits)
    moreover have "length us = length (filter (\<lambda>u. u_id u \<in> {sid, rid}) (users (tables w)))"
      using t(3) mset_eq_length by blast
    ultimately have "sid \<notin> user_ids (tables w)" using two_ids_present[OF assms(2,3) _ assms(4)] by auto
    with t(1) \<open>\<exists>m. e = OtherErr m\<close> show ?thesis by (auto intro: transfer_refused.no_sender)
  qed
qed

lemma updateBalances_ok:
  assumes "updateBalances B (u_id s) (u_id r) a w = (None, w')" and "db_wf (tables w)"
    and "s \<in> set (users (tables w))" and "r \<in> set (users (tables w))" and "u_id s \<noteq> u_id r"
    and "0 < a" and "a \<le> u_balance s"
  shows "tables w' = (tables w)\<lparr>users := move_money (u_id s) (u_id r) a (users (tables w))\<rparr> \<and>
    in64 (u_balance r + a)"
proof -
  obtain n where x: "bob_Exec B (UpdateBalances (u_id s) (u_id r) a) w = (Inr n, w')"
    using assms(1) by (auto simp: updateBalances_def split: prod.splits sum.splits if_splits)
  then have "sql_errs (UpdateBalances (u_id s) (u_id r) a) (tables w) = []"
    and "tables w' = (tables w)\<lparr>users := map (update_user_balance (u_id s) (u_id r) a) (users (tables w))\<rparr>"
    using exec_ok[OF x] by (auto simp del: sql_errs.simps)
  then show ?thesis
    using update_errs[OF assms(2-7)] update_is_move[OF assms(2,3,7,5)]
    by (auto split: if_splits simp del: sql_errs.simps)
qed

lemma updateBalances_fails:
  assumes "updateBalances B (u_id s) (u_id r) (tp_amount p) w = (Some e, w')" and "db_wf (tables w)"
    and "s \<in> set (users (tables w))" and "r \<in> set (users (tables w))" and "u_id s \<noteq> u_id r"
    and "0 < tp_amount p" and "tp_amount p \<le> u_balance s" and "names_user p r"
  shows "transfer_refused (u_id s) p (tables w) e"
proof -
  let ?st = "UpdateBalances (u_id s) (u_id r) (tp_amount p)"
  have two: "length (filter (\<lambda>u. u_id u \<in> {u_id s, u_id r}) (users (tables w))) = 2"
    using two_ids_present[OF assms(2,5)] assms(3,4) by (simp add: user_ids_def)
  obtain q where q: "bob_Exec B ?st w = (q, w')"
    using assms(1) by (auto simp: updateBalances_def split: prod.splits sum.splits if_splits)
  show ?thesis
  proof (cases q)
    case (Inr n)
    with exec_ok[of ?st w n w'] q two have "n = 2" by (auto simp del: sql_errs.simps)
    with assms(1) q Inr show ?thesis by (simp add: updateBalances_def)
  next
    case (Inl e0)
    with q exec_err[of ?st w e0 w'] have "db_err ?st (tables w) e0" by auto
    moreover have "e = Wrapf ''update balances'' e0" using assms(1) q Inl by (simp add: updateBalances_def)
    ultimately have e: "\<not> app_err e"
      "pg_code e \<in> set constraint_codes \<longrightarrow> pg_code e = ''22003'' \<and> \<not> in64 (u_balance r + tp_amount p)"
      using update_errs[OF assms(2-7)] unfolding db_err_def by (auto split: if_splits)
    show ?thesis
    proof (cases "pg_code e \<in> set constraint_codes")
      case True
      with e assms(4,5,8) show ?thesis by (intro transfer_refused.balance_overflow[of r]) auto
    next
      case False
      with e show ?thesis by (intro transfer_refused.fault) (simp add: conn_err_def)
    qed
  qed
qed

lemma insertTransferRecord_ok:
  assumes "insertTransferRecord B f t a w = (Inr i, w')"
  shows "fresh (map t_id (transfers (tables w))) i \<and>
    (\<exists>now. tables w' = (tables w)\<lparr>transfers := transfers (tables w) @
       [\<lparr>t_id = i, t_from_user = f, t_to_user = t, t_amount = a, t_created_at = now\<rparr>]\<rparr>)"
proof -
  obtain q where q: "bob_One B (InsertTransfer f t a) w = (Inr q, w')" and i: "scan_int (Inr q) = Inr i"
    using assms by (auto simp: insertTransferRecord_def split: prod.splits sum.splits elim: scan_int.elims)
  from one_row[OF q] i show ?thesis by auto
qed

lemma insertTransferRecord_fails:
  assumes "insertTransferRecord B f t a w = (Inl e, w')"
    and "f \<in> user_ids (tables w)" and "t \<in> user_ids (tables w)" and "0 < a"
  shows "conn_err e"
proof -
  let ?st = "InsertTransfer f t a"
  obtain q where q: "bob_One B ?st w = (q, w')"
    using assms(1) by (auto simp: insertTransferRecord_def split: prod.splits sum.splits)
  show ?thesis
  proof (cases q)
    case (Inr r)
    with q one_row[of ?st w r w'] obtain j where "r = IntRow j" by auto
    with assms(1) q Inr show ?thesis by (simp add: insertTransferRecord_def)
  next
    case (Inl e0)
    with q one_none[of ?st w e0 w'] have "\<not> errors_Is e0 SqlErrNoRows" by auto
    with q Inl one_err[of ?st w e0 w'] have "db_err ?st (tables w) e0" by auto
    with assms q Inl show ?thesis by (auto simp: insertTransferRecord_def db_err_def conn_err_def)
  qed
qed

lemma insertNotifications_ok:
  assumes "insertNotifications B s r a w = (None, w')"
  shows "\<exists>j k now. distinct [j, k] \<and> fresh (map n_id (notifications (tables w))) j \<and>
    fresh (map n_id (notifications (tables w))) k \<and>
    tables w' = (tables w)\<lparr>notifications := notifications (tables w) @
      [\<lparr>n_id = j, n_user_id = u_id s, n_message = sent_msg a r, n_is_read = False, n_created_at = now\<rparr>,
       \<lparr>n_id = k, n_user_id = u_id r, n_message = received_msg a s, n_is_read = False, n_created_at = now\<rparr>]\<rparr>"
proof -
  obtain n where "bob_Exec B (InsertNotifications [(u_id s, sent_msg a r), (u_id r, received_msg a s)]) w = (Inr n, w')"
    using assms by (auto simp: insertNotifications_def split: prod.splits sum.splits)
  from exec_ok[OF this] obtain ids now where i: "length ids = Suc (Suc 0)" "distinct ids"
    "list_all (fresh (map n_id (notifications (tables w)))) ids"
    "tables w' = (tables w)\<lparr>notifications := notifications (tables w) @
       new_notifications [(u_id s, sent_msg a r), (u_id r, received_msg a s)] ids now\<rparr>"
    by (auto simp del: sql_errs.simps)
  from i(1) obtain j k where "ids = [j, k]" by (auto simp: length_Suc_conv)
  with i show ?thesis by (auto simp: new_notifications_def)
qed

lemma insertNotifications_fails:
  assumes "insertNotifications B s r a w = (Some e, w')" and "user_row_wf s" and "user_row_wf r" and "in64 a"
    and "u_id s \<in> user_ids (tables w)" and "u_id r \<in> user_ids (tables w)"
  shows "conn_err e"
proof -
  let ?st = "InsertNotifications [(u_id s, sent_msg a r), (u_id r, received_msg a s)]"
  obtain e0 where e0: "bob_Exec B ?st w = (Inl e0, w')" "e = Wrapf ''insert notifications'' e0"
    using assms(1) by (auto simp: insertNotifications_def split: prod.splits sum.splits)
  have "sql_errs ?st (tables w) = []"
    using assms notification_texts_fit by simp
  with exec_err[OF e0(1)] e0(2) show ?thesis by (auto simp: db_err_def conn_err_def)
qed

text \<open>One run of the transaction: it meets the contract, or reports a refusal the tables justify.\<close>

lemma transfer_tx_commits:
  assumes "transfer_tx B sid p res w = (None, res', w')" and "db_wf (tables w)" and "0 < tp_amount p"
  shows "transfer_spec sid p (tables w) res' (tables w')"
  using assms(1)
proof (cases rule: transfer_tx_cases)
  case (recorded rid w1 s r w2 w3 i w4)
  obtain u where u: "tables w1 = tables w" "u \<in> set (users (tables w))" "names_user p u" "u_id u = rid"
    using resolveReceiver_found[OF recorded(1)] by blast
  have l: "tables w2 = tables w" "s \<in> set (users (tables w))" "r \<in> set (users (tables w))" "u_id s = sid" "u_id r = rid"
    using lockBothUsers_ok[OF recorded(3) _ recorded(2)] assms(2) u(1) by auto
  have "u = r" using unique_user[OF assms(2) u(2) l(3)] u(4) l(5) by simp
  have m: "tables w3 = (tables w)\<lparr>users := move_money sid rid (tp_amount p) (users (tables w))\<rparr>"
    "in64 (u_balance r + tp_amount p)"
    using updateBalances_ok[OF recorded(5)] l assms(2,3) recorded(2,4) by auto
  have "in64 (u_balance s - tp_amount p)"
    using user_wf[OF assms(2) l(2)] recorded(4) assms(3) by (auto simp: user_row_wf_def in64_def)
  then have res': "res' = \<lparr>tr_transferID = i, tr_senderID = sid, tr_receiverID = u_id r, tr_senderPhone = u_phone s,
      tr_receiverPhone = u_phone r, tr_senderBalance = u_balance s - tp_amount p,
      tr_receiverBalance = u_balance r + tp_amount p\<rparr>"
    using recorded(7) m(2) l by (simp add: recorded_result_def i64_id)
  obtain now where t: "fresh (map t_id (transfers (tables w))) i" "tables w4 = (tables w3)\<lparr>transfers := transfers (tables w3) @
       [\<lparr>t_id = i, t_from_user = sid, t_to_user = rid, t_amount = tp_amount p, t_created_at = now\<rparr>]\<rparr>"
    using insertTransferRecord_ok[OF recorded(6)] m l by auto
  obtain j k now' where n: "distinct [j, k]" "fresh (map n_id (notifications (tables w))) j"
    "fresh (map n_id (notifications (tables w))) k"
    "tables w' = (tables w4)\<lparr>notifications := notifications (tables w) @
      [\<lparr>n_id = j, n_user_id = sid, n_message = sent_msg (tp_amount p) r, n_is_read = False, n_created_at = now'\<rparr>,
       \<lparr>n_id = k, n_user_id = rid, n_message = received_msg (tp_amount p) s, n_is_read = False,
        n_created_at = now'\<rparr>]\<rparr>"
    using insertNotifications_ok[OF recorded(8)] m(1) t(2) l by auto
  show ?thesis
    by (rule transferred[of s _ r _ _ i j k _ now now'])
      (use l u(3) \<open>u = r\<close> recorded(2,4) m t n res' in auto)
qed simp_all

lemma transfer_tx_fails:
  assumes "transfer_tx B sid p res w = (Some e, res', w')" and "db_wf (tables w)" and "0 < tp_amount p"
    and "in64 (tp_amount p)"
  shows "transfer_refused sid p (tables w) e"
proof -
  have found: "tables w1 = tables w \<and> rid \<in> user_ids (tables w) \<and>
      (\<forall>r \<in> set (users (tables w)). u_id r = rid \<longrightarrow> names_user p r)"
    if "resolveReceiver B p w = (Inr rid, w1)" for rid w1
    using resolveReceiver_found[OF that] unique_user[OF assms(2)] by (fastforce simp: user_ids_def)
  have locked: "tables w2 = tables w \<and> s \<in> set (users (tables w)) \<and> r \<in> set (users (tables w)) \<and> u_id s = sid \<and>
      u_id r \<noteq> sid \<and> names_user p r"
    if "resolveReceiver B p w = (Inr rid, w1)" "sid \<noteq> rid" "lockBothUsers B sid rid w1 = (Inr (s, r), w2)"
    for rid w1 s r w2
    using found[OF that(1)] lockBothUsers_ok[OF that(3)] that(2) assms(2) by auto
  show ?thesis
    using assms(1)
  proof (cases rule: transfer_tx_cases)
    case (resolve_failed e1)
    then show ?thesis using resolveReceiver_fails[of p w e1 w' sid] by simp
  next
    case self
    then show ?thesis
      using resolveReceiver_found[OF self(1)] by (auto intro: transfer_refused.self_transfer)
  next
    case (lock_failed rid w1 e1)
    then show ?thesis using found[of rid w1] lockBothUsers_fails[of sid rid w1 e1 w' p] assms(2) by simp
  next
    case (no_funds rid w1 s r)
    then show ?thesis
      using locked[of rid w1 s r] by (auto intro: transfer_refused.insufficient_funds[of s _ r])
  next
    case (update_failed rid w1 s r w2 e1)
    then show ?thesis
      using locked[of rid w1 s r w2] updateBalances_fails[of s r p w2 e1 w'] assms(2,3) by auto
  next
    case (insert_failed rid w1 s r w2 w3 e1)
    note l = locked[OF insert_failed(1-3)]
    then have "tables w3 = (tables w)\<lparr>users := move_money sid (u_id r) (tp_amount p) (users (tables w))\<rparr>"
      using updateBalances_ok[OF insert_failed(5)] assms(2,3) insert_failed(4) by auto
    then have "conn_err e1"
      using insertTransferRecord_fails[OF insert_failed(6)] l assms(3) user_in_ids by auto
    with insert_failed show ?thesis by (auto intro: transfer_refused.fault)
  next
    case (recorded rid w1 s r w2 w3 i w4)
    note l = locked[OF recorded(1-3)]
    then have "tables w3 = (tables w)\<lparr>users := move_money sid (u_id r) (tp_amount p) (users (tables w))\<rparr>"
      using updateBalances_ok[OF recorded(5)] assms(2,3) recorded(4) by auto
    then have "user_ids (tables w4) = user_ids (tables w)"
      using insertTransferRecord_ok[OF recorded(6)] by auto
    then have "conn_err e"
      using insertNotifications_fails[OF recorded(8)] l assms(2,4) user_wf user_in_ids by auto
    then show ?thesis by (rule transfer_refused.fault)
  qed
qed

end

end
