(* ===== verification/Sample_World.thy ===== *)
theory Sample_World
  imports Rpc_Consumer Jetstream Db_Memory
begin

text \<open>
  Concrete inputs for the witnesses: a bank with two users on the in-memory providers, a session for
  the first of them, and a context that is not cancelled. \<open>faults\<close> is the script of database faults.
\<close>

definition alice :: user where
  "alice = \<lparr>u_id = 1, u_phone = ''0901'', u_account_number = ''100'', u_username = ''alice'',
     u_password_hash = ''h1'', u_balance = 500, u_is_admin = False\<rparr>"

definition bobby :: user where
  "bobby = \<lparr>u_id = 2, u_phone = ''0902'', u_account_number = ''200'', u_username = ''bob'',
     u_password_hash = ''h2'', u_balance = 70, u_is_admin = False\<rparr>"

definition sample_db :: db where
  "sample_db = \<lparr>users = [alice, bobby], transfers = [], notifications = []\<rparr>"

definition sample_keys :: keyspace where
  "sample_keys = \<lparr>r_string = [''session:s1'' \<mapsto> (RText ''1'', 86400000000000)], r_hash = Map.empty, r_published = []\<rparr>"

definition sample_world :: "goerr option list \<Rightarrow> (memdb, memredis, memjs) world" where
  "sample_world faults =
     \<lparr>w_db = \<lparr>m_db = sample_db, m_now = 0, m_faults = faults\<rparr>,
      w_redis = \<lparr>mr_keys = sample_keys, mr_script = []\<rparr>,
      w_js = \<lparr>mj_stream = [], mj_faults = []\<rparr>\<rparr>"

definition sample_ctx :: goctx where
  "sample_ctx = \<lparr>ctx_user = Some 1, ctx_Err = None, ctx_backoff = (\<lambda>_. None)\<rparr>"

definition no_ilike :: "string \<Rightarrow> string \<Rightarrow> bool" where
  "no_ilike s p = False"

definition quiet_sleep :: "nat \<Rightarrow> memdb \<Rightarrow> memdb" where
  "quiet_sleep i w = w"

definition half :: "nat \<Rightarrow> int \<Rightarrow> int" where
  "half i n = n div 2"

definition pay_bob :: raw_message where
  "pay_bob = Some (JObj [(''phone'', JStr '' 0902 ''), (''amount'', JInt 30)])"

lemma quiet_interference [simp]: "(interference m_db quiet_sleep)\<^sup>*\<^sup>* a b \<longleftrightarrow> a = b"
proof
  show "(interference m_db quiet_sleep)\<^sup>*\<^sup>* a b \<Longrightarrow> a = b"
    by (induction rule: rtranclp_induct) (auto simp: interference_def quiet_sleep_def)
qed simp

lemma sample_db_wf: "db_wf sample_db"
  by code_simp

end
