(* ===== verification/Transfer_Props.thy ===== *)
theory Transfer_Props
  imports Transfer_Proofs Sample_World
begin

text \<open>
  The properties of the transfer service: what each reply of the handler says about the tables, the
  read model and the event stream, for every database service, transaction runner, Redis service
  and interference of other sessions that keep their laws.
\<close>

section \<open>Consequences of the contract\<close>

lemma sum_list_single:
  assumes "distinct (map f us)" and "s \<in> set us"
  shows "sum_list (map (\<lambda>u. if f u = f s then g u + (c::int) else g u) us) = sum_list (map g us) + c"
  using assms
proof (induction us)
  case (Cons u us)
  show ?case
  proof (cases "u = s")
    case True
    with Cons.prems have "map (\<lambda>v. if f v = f s then g v + c else g v) us = map g us"
      by (intro map_cong) (auto simp: image_iff)
    then have "sum_list (map (\<lambda>v. if f v = f s then g v + c else g v) us) = sum_list (map g us)"
      by (rule arg_cong)
    with True show ?thesis by simp
  next
    case False
    with Cons.prems have "f u \<noteq> f s" by (auto simp: image_iff)
    with Cons False show ?thesis by simp
  qed
qed simp

lemma move_money_total:
  assumes "distinct (map u_id us)" and "s \<in> set us" and "r \<in> set us" and "u_id s \<noteq> u_id r"
  shows "sum_list (map u_balance (move_money (u_id s) (u_id r) a us)) = sum_list (map u_balance us)"
proof -
  let ?g = "\<lambda>u. if u_id u = u_id s then u_balance u + (- a) else u_balance u"
  have "map u_balance (move_money (u_id s) (u_id r) a us) =
      map (\<lambda>u. if u_id u = u_id r then ?g u + a else ?g u) us"
    using assms(4) by (auto simp: move_money_def)
  then show ?thesis
    using sum_list_single[OF assms(1,3), of ?g a] sum_list_single[OF assms(1,2), of u_balance "- a"] by simp
qed

lemma move_money_row_wf:
  assumes "db_wf d" and "s \<in> set (users d)" and "r \<in> set (users d)" and "u_id s \<noteq> u_id r"
    and "0 < a" and "a \<le> u_balance s" and "in64 (u_balance r + a)"
  shows "list_all user_row_wf (move_money (u_id s) (u_id r) a (users d))"
proof -
  have "user_row_wf (if u_id u = u_id s then u\<lparr>u_balance := u_balance u - a\<rparr>
      else if u_id u = u_id r then u\<lparr>u_balance := u_balance u + a\<rparr> else u)" if u: "u \<in> set (users d)" for u
  proof -
    consider "u = s" | "u = r" | "u_id u \<noteq> u_id s" "u_id u \<noteq> u_id r"
      using unique_user[OF assms(1) u] assms(2,3) by metis
    then show ?thesis
      using user_wf[OF assms(1) u] assms(4-7) by cases (auto simp: user_row_wf_def in64_def)
  qed
  then show ?thesis unfolding move_money_def list_all_iff set_map by blast
qed

lemma transfer_spec_total:
  assumes "transfer_spec sid p d res d'" and "db_wf d"
  shows "sum_list (map u_balance (users d')) = sum_list (map u_balance (users d))"
  using assms by (elim transfer_specE) (auto simp: db_wf_def move_money_total)

lemma transfer_spec_wf:
  assumes "transfer_spec sid p d res d'" and "db_wf d" and "0 < tp_amount p" and "in64 (tp_amount p)"
  shows "db_wf d'"
  using assms(1)
proof (cases rule: transfer_spec.cases)
  case (transferred s r i j k now now')
  note d' = transferred(12)
  have ids: "user_ids d' = user_ids d"
    using d' user_ids_move[of sid "u_id r" "tp_amount p" d] by (simp add: user_ids_def)
  have cols: "map u_phone (users d') = map u_phone (users d)"
      "map u_account_number (users d') = map u_account_number (users d)"
      "map u_id (users d') = map u_id (users d)"
    using d' by (auto simp: move_money_def)
  have rows: "list_all user_row_wf (users d')"
    using move_money_row_wf[OF assms(2) transferred(1,2) _ assms(3) transferred(6,7)] transferred(3,5) d' by auto
  have "utf8_len (sent_msg (tp_amount p) r) \<le> 255" "utf8_len (received_msg (tp_amount p) s) \<le> 255"
    using notification_texts_fit[OF user_wf[OF assms(2) transferred(1)] assms(4)]
      notification_texts_fit[OF user_wf[OF assms(2) transferred(2)] assms(4)]
    by (auto simp: text_errs_def split: if_splits)
  with assms(2,3) ids cols rows transferred user_in_ids[of s d] user_in_ids[of r d] show ?thesis
    unfolding db_wf_def ids cols by (simp add: fresh_def)
qed

section \<open>The retried transaction\<close>

text \<open>Other sessions keep the schema's constraints, and a context reports one of its two errors.\<close>

definition keeps_wf :: "('c \<Rightarrow> db) \<Rightarrow> (nat \<Rightarrow> 'c \<Rightarrow> 'c) \<Rightarrow> bool" where
  "keeps_wf tables sleep \<longleftrightarrow> (\<forall>i c. db_wf (tables c) \<longrightarrow> db_wf (tables (sleep i c)))"

definition ctx_ok :: "goctx \<Rightarrow> bool" where
  "ctx_ok ctx \<longleftrightarrow> (\<forall>i. ctx_backoff ctx i \<in> {None, Some CtxCanceled, Some CtxDeadlineExceeded})"

lemma interference_wf:
  assumes "(interference tables sleep)\<^sup>*\<^sup>* d d'" and "keeps_wf tables sleep" and "db_wf d"
  shows "db_wf d'"
  using assms by (induction rule: rtranclp_induct) (auto simp: interference_def keeps_wf_def)

lemma refused_serialization:
  "transfer_refused sid p d e \<Longrightarrow> pg_code e = ''40001'' \<Longrightarrow> conn_err e"
  by (erule transfer_refused.cases) auto

lemma refused_funds:
  assumes "transfer_refused sid p d e" and "errors_Is e ErrInsufficientFunds"
  shows "\<exists>s \<in> set (users d). \<exists>r \<in> set (users d). u_id s = sid \<and> names_user p r \<and> u_id r \<noteq> sid \<and>
    u_balance s < tp_amount p"
  using assms by (cases rule: transfer_refused.cases) (auto simp: conn_err_def app_err_def app_errors_def)

lemma refused_not_found:
  assumes "transfer_refused sid p d e" and "errors_Is e ErrReceiverNotFound"
  shows "\<forall>u \<in> set (users d). \<not> names_user p u"
  using assms by (cases rule: transfer_refused.cases) (auto simp: conn_err_def app_err_def app_errors_def)

lemma refused_self:
  assumes "transfer_refused sid p d e" and "errors_Is e ErrSelfTransfer"
  shows "\<exists>u \<in> set (users d). names_user p u \<and> u_id u = sid"
  using assms by (cases rule: transfer_refused.cases) (auto simp: conn_err_def app_err_def app_errors_def)

locale transfer_backend = postgres B tables ilike + tx_runner RunInTx tables
  for B :: "'c bobdb" and tables :: "'c \<Rightarrow> db" and ilike
    and RunInTx :: "(transfer_result, 'c) tx_fun \<Rightarrow> (transfer_result, 'c) tx_fun"
begin

text \<open>What the retried transaction leaves: the effect of exactly one transfer when it reports success,
  no effect of its own when it reports a refusal, and either when the connection broke during the
  commit.\<close>

lemma runTransferTx_cases:
  assumes "runTransferTx B RunInTx rnd sleep ctx sid p w = (res, err, w')"
    and "db_wf (tables w)" and "keeps_wf tables sleep" and "ctx_ok ctx"
    and "0 < tp_amount p" and "in64 (tp_amount p)"
  obtains (success) d where "(interference tables sleep)\<^sup>*\<^sup>* (tables w) d" "db_wf d" "err = None"
      "transfer_spec sid p d res (tables w')"
  | (failed) e where "(interference tables sleep)\<^sup>*\<^sup>* (tables w) (tables w')" "err = Some e"
      "transfer_refused sid p (tables w') e"
  | (unknown) d e where "(interference tables sleep)\<^sup>*\<^sup>* (tables w) d" "db_wf d" "err = Some e" "conn_err e"
      "pg_code e = []" "transfer_spec sid p d res (tables w')"
proof -
  obtain slept where "SerializableTx RunInTx (ctx_backoff ctx) rnd sleep (transfer_tx B sid p)
      transfer_result_zero w = (err, res, w', slept)"
    using assms(1) by (auto simp: runTransferTx_def split: prod.splits)
  from SerializableTx_last_attempt[OF this] obtain x0 w0 r0 where
    i: "(interference tables sleep)\<^sup>*\<^sup>* (tables w) (tables w0)"
    and out: "tx_outcome tables (transfer_tx B sid p) x0 w0 r0 res w'"
    and rep: "reported (ctx_backoff ctx) r0 err" by blast
  have wf: "db_wf (tables w0)" using interference_wf[OF i assms(3,2)] .
  note commits = transfer_tx_commits[OF _ _ assms(5)] and fails = transfer_tx_fails[OF _ _ assms(5,6)]
  show thesis
  proof (cases r0)
    case None
    with out commits wf have "transfer_spec sid p (tables w0) res (tables w')"
      by (fastforce simp: tx_outcome_None)
    moreover have "err = None" using rep None by (simp add: reported_def IsSerializationFailure_def pgErrCode_def)
    ultimately show thesis using success i wf by blast
  next
    case (Some e0)
    consider (ref) "transfer_refused sid p (tables w0) e0" "tables w' = tables w0"
      | (unk) "transfer_spec sid p (tables w0) res (tables w')" "conn_err e0" "pg_code e0 = []"
      using out[unfolded Some] wf
      by (cases rule: tx_outcome.cases) (metis commits fails transfer_refused.fault)+
    then show thesis
    proof cases
      case ref
      show thesis
      proof (cases "IsSerializationFailure r0")
        case True
        with Some ref(1) have "conn_err e0"
          by (auto simp: IsSerializationFailure_def pgErrCode_def dest: refused_serialization)
        moreover obtain m e where e: "err = Some (Wrapf m e)" "e = e0 \<or> (\<exists>i. ctx_backoff ctx i = Some e)"
          using rep True Some by (auto simp: reported_def)
        moreover have "conn_err e" if "ctx_backoff ctx i = Some e" for i
          using assms(4) that unfolding ctx_ok_def
          by (auto simp: conn_err_def app_err_def app_errors_def constraint_codes_def dest!: spec[of _ i])
        ultimately have "conn_err (Wrapf m e)" by auto
        with e i ref show thesis by (intro failed[of "Wrapf m e"]) (auto intro: transfer_refused.fault)
      next
        case False
        with rep Some i ref show thesis by (intro failed[of e0]) (auto simp: reported_def)
      qed
    next
      case unk
      with rep Some i wf show thesis
        by (intro unknown[of "tables w0" e0]) (auto simp: reported_def IsSerializationFailure_def pgErrCode_def)
    qed
  qed
qed

end

interpretation mem_transfer: transfer_backend "mem_bob ilike faulty" m_db ilike "mem_RunInTx faulty"
  by unfold_locales

section \<open>The handler\<close>

text \<open>The payload as the transaction gets it, when it passes the handler's checks.\<close>

definition valid_payload :: "raw_message \<Rightarrow> transfer_payload option" where
  "valid_payload raw =
     (case decode_transfer_payload raw of
        None \<Rightarrow> None
      | Some p0 \<Rightarrow>
          (let p = trim_payload p0 in
           if (tp_account_number p \<noteq> [] \<or> tp_phone p \<noteq> [] \<or> tp_username p \<noteq> []) \<and> 0 < tp_amount p
           then Some p else None))"

lemma decode_transfer_payload_in64: "decode_transfer_payload raw = Some p \<Longrightarrow> in64 (tp_amount p)"
  unfolding decode_transfer_payload_def
  by (erule unmarshal_obj_inv)
    (auto simp: transfer_payload_zero_def in64_def transfer_payload_set_def split: if_splits
      dest: decode_int_range[unfolded in64_def])

lemma valid_payload_props:
  "valid_payload raw = Some p \<Longrightarrow> 0 < tp_amount p \<and> in64 (tp_amount p)"
  by (auto simp: valid_payload_def Let_def trim_payload_def split: option.splits if_splits
      dest: decode_transfer_payload_in64)

lemma handleTransfer_invalid:
  assumes "valid_payload raw = None"
  shows "\<exists>m. handleTransfer B RunInTx R pub rnd sleep ctx action raw headers w = (reply 400 (detail m), w)"
  using assms by (auto simp: valid_payload_def handleTransfer_def Let_def split: option.splits if_splits)

definition answer ::
  "'r redis \<Rightarrow> (transfer_completed \<Rightarrow> 'j \<Rightarrow> goerr option \<times> 'j) option \<Rightarrow> transfer_payload \<Rightarrow> transfer_result \<Rightarrow>
   goerr option \<Rightarrow> ('c, 'r, 'j) world \<Rightarrow> (goerr + any_result) \<times> ('c, 'r, 'j) world" where
  "answer R pub p res txErr w1 =
     (if err_is txErr ErrInsufficientFunds then (reply 400 (detail ''Insufficient funds''), w1)
      else if err_is txErr ErrReceiverNotFound then (reply 404 (detail ''Receiver not found''), w1)
      else if err_is txErr ErrSelfTransfer then (reply 400 (detail ''Cannot transfer to yourself''), w1)
      else if IsSerializationFailure txErr then (reply 503 (detail serialization_detail), w1)
      else (case txErr of
              Some e \<Rightarrow> (Inl (Wrapf ''transfer tx'' e), w1)
            | None \<Rightarrow> after_commit R pub p res w1))"

lemma handleTransfer_valid:
  assumes "valid_payload raw = Some p"
  shows "handleTransfer B RunInTx R pub rnd sleep ctx action raw headers w =
    (case runTransferTx B RunInTx rnd sleep ctx (fst (UserIDFromContext ctx)) p (w_db w) of
       (res, txErr, c') \<Rightarrow> answer R pub p res txErr (w\<lparr>w_db := c'\<rparr>))"
  using assms
  by (auto simp: valid_payload_def handleTransfer_def answer_def Let_def split: option.splits if_splits)

lemma answer_None [simp]: "answer R pub p res None w1 = after_commit R pub p res w1"
  by (simp add: answer_def err_is_def IsSerializationFailure_def pgErrCode_def)

lemma answer_Some_world: "snd (answer R pub p res (Some e) w1) = w1"
  by (simp add: answer_def)

lemma answer_Some_status: "fst (answer R pub p res (Some e) w1) \<noteq> reply 200 body"
  by (simp add: answer_def)

lemma after_commit_world [simp]: "w_db (snd (after_commit R pub p res w)) = w_db w"
  by (simp add: after_commit_def Let_def)

lemma after_commit_redis [simp]: "w_redis (snd (after_commit R pub p res w)) =
    snd (PublishTransferCompleted R (event_of p res) (tr_senderPhone res) (tr_receiverPhone res) (w_redis w))"
  by (simp add: after_commit_def Let_def)

lemma after_commit_js [simp]: "w_js (snd (after_commit R pub p res w)) =
    (case pub of None \<Rightarrow> w_js w | Some f \<Rightarrow> snd (f (event_of p res) (w_js w)))"
  by (simp add: after_commit_def Let_def split: option.splits)

lemma after_commit_reply [simp]: "fst (after_commit R pub p res w) =
    reply 200 (JObj [(''transfer_id'', JInt (tr_transferID res)), (''amount'', JInt (tp_amount p))])"
  by (simp add: after_commit_def Let_def)

text \<open>The user the session middleware found.\<close>

abbreviation sender_of :: "goctx \<Rightarrow> int" where
  "sender_of ctx \<equiv> fst (UserIDFromContext ctx)"

context transfer_backend
begin

lemma handleTransfer_outcome:
  assumes "handleTransfer B RunInTx R pub rnd sleep ctx action raw headers w = (r, w')"
    and "db_wf (tables (w_db w))" and "keeps_wf tables sleep" and "ctx_ok ctx"
  obtains (invalid) m where "valid_payload raw = None" "r = reply 400 (detail m)" "w' = w"
  | (success) p d res where "valid_payload raw = Some p"
      "(interference tables sleep)\<^sup>*\<^sup>* (tables (w_db w)) d" "db_wf d"
      "transfer_spec (sender_of ctx) p d res (tables (w_db w'))"
      "(r, w') = after_commit R pub p res (w\<lparr>w_db := w_db w'\<rparr>)"
  | (failed) p e res where "valid_payload raw = Some p"
      "(interference tables sleep)\<^sup>*\<^sup>* (tables (w_db w)) (tables (w_db w'))" "db_wf (tables (w_db w'))"
      "transfer_refused (sender_of ctx) p (tables (w_db w')) e"
      "r = fst (answer R pub p res (Some e) (w\<lparr>w_db := w_db w'\<rparr>))" "w' = w\<lparr>w_db := w_db w'\<rparr>"
  | (unknown) p d res e where "valid_payload raw = Some p"
      "(interference tables sleep)\<^sup>*\<^sup>* (tables (w_db w)) d" "db_wf d"
      "transfer_spec (sender_of ctx) p d res (tables (w_db w'))"
      "r = Inl (Wrapf ''transfer tx'' e)" "pg_code e = []" "w' = w\<lparr>w_db := w_db w'\<rparr>"
proof (cases "valid_payload raw")
  case None
  with handleTransfer_invalid[OF None, of B RunInTx R pub rnd sleep ctx action headers w] assms(1) invalid
  show thesis by auto
next
  case (Some p)
  obtain res err c' where run: "runTransferTx B RunInTx rnd sleep ctx (sender_of ctx) p (w_db w) = (res, err, c')"
    using prod_cases3 by blast
  then have eq: "(r, w') = answer R pub p res err (w\<lparr>w_db := c'\<rparr>)"
    using assms(1) handleTransfer_valid[OF Some, of B RunInTx R pub rnd sleep ctx action headers w] by simp
  have c': "w_db w' = c'"
  proof (cases err)
    case None
    with eq have "w' = snd (after_commit R pub p res (w\<lparr>w_db := c'\<rparr>))" by (metis answer_None snd_conv)
    then show ?thesis by simp
  next
    case (Some e)
    with eq have "w' = w\<lparr>w_db := c'\<rparr>" by (metis answer_Some_world snd_conv)
    then show ?thesis by simp
  qed
  have same: "w' = w\<lparr>w_db := w_db w'\<rparr>" "r = fst (answer R pub p res (Some e) (w\<lparr>w_db := w_db w'\<rparr>))"
    if "err = Some e" for e
    using eq that c' by (metis answer_Some_world snd_conv, metis fst_conv)
  from run assms(2-4) valid_payload_props[OF Some] show thesis
  proof (elim runTransferTx_cases conjE)
    fix d assume "(interference tables sleep)\<^sup>*\<^sup>* (tables (w_db w)) d" "db_wf d" "err = None"
      "transfer_spec (sender_of ctx) p d res (tables c')"
    with eq c' Some show thesis by (intro success) auto
  next
    fix e assume *: "(interference tables sleep)\<^sup>*\<^sup>* (tables (w_db w)) (tables c')" "err = Some e"
      "transfer_refused (sender_of ctx) p (tables c') e"
    with same[of e] c' Some interference_wf[OF *(1) assms(3,2)] show thesis
      by (intro failed[of p e res]) auto
  next
    fix d e assume *: "(interference tables sleep)\<^sup>*\<^sup>* (tables (w_db w)) d" "db_wf d" "err = Some e" "conn_err e"
      "pg_code e = []" "transfer_spec (sender_of ctx) p d res (tables c')"
    have "r = Inl (Wrapf ''transfer tx'' e)"
      using same(2)[OF *(3)] *(4,5)
      by (auto simp: answer_def err_is_def IsSerializationFailure_def pgErrCode_def conn_err_def app_err_def app_errors_def)
    with * same[of e] c' Some show thesis by (intro unknown[of p d res e]) auto
  qed
qed

end

section \<open>Properties\<close>

text \<open>Property C1. A reply 200 means that exactly one transfer took place: at one moment of the serial
  order of transactions, with tables \<open>d\<close> that other sessions left while the handler was retrying, the
  tables changed as \<open>transfer_spec\<close> says (sender debited, receiver credited, one transfer row, two
  notifications, nothing else), whatever number of attempts was made; the body names the row.\<close>

theorem transfer_ok_refines_spec:
  assumes "transfer_backend B tables ilike RunInTx"
    and "db_wf (tables (w_db w))" and "keeps_wf tables sleep" and "ctx_ok ctx"
    and "handleTransfer B RunInTx R pub rnd sleep ctx action raw headers w = (reply 200 body, w')"
  shows "\<exists>p d res. valid_payload raw = Some p \<and>
    (interference tables sleep)\<^sup>*\<^sup>* (tables (w_db w)) d \<and>
    transfer_spec (sender_of ctx) p d res (tables (w_db w')) \<and>
    body = JObj [(''transfer_id'', JInt (tr_transferID res)), (''amount'', JInt (tp_amount p))]"
  using assms(5,2-4)
proof (cases rule: transfer_backend.handleTransfer_outcome[OF assms(1), consumes 4, case_names invalid success failed unknown])
  case (success p d res)
  then have "reply 200 body = fst (after_commit R pub p res (w\<lparr>w_db := w_db w'\<rparr>))" by (metis fst_conv)
  with success show ?thesis by auto
next
  case (failed p e res)
  then show ?thesis using answer_Some_status by metis
qed simp_all


definition sample_transfer ::
  "raw_message \<Rightarrow> goerr option list \<Rightarrow> (goerr + any_result) \<times> (memdb, memredis, memjs) world" where
  "sample_transfer raw faults =
     handleTransfer (mem_bob no_ilike True) (mem_RunInTx True) (mem_redis True) (Some (PublishTransferEvent mem_js))
       half quiet_sleep sample_ctx ''transfer'' raw (\<lambda>_. []) (sample_world faults)"

text \<open>The same on providers without faults.\<close>

definition sample_rel_transfer :: "raw_message \<Rightarrow> (goerr + any_result) \<times> (memdb, memredis, memjs) world" where
  "sample_rel_transfer raw =
     handleTransfer (mem_bob no_ilike False) (mem_RunInTx False) (mem_redis False) (Some (PublishTransferEvent mem_js))
       half quiet_sleep sample_ctx ''transfer'' raw (\<lambda>_. []) (sample_world [])"

lemma sample_rel_run:
  "handleTransfer (mem_bob no_ilike False) (mem_RunInTx False) (mem_redis False) (Some (PublishTransferEvent mem_js))
     half quiet_sleep sample_ctx ''transfer'' raw (\<lambda>_. []) (sample_world []) =
   (fst (sample_rel_transfer raw), snd (sample_rel_transfer raw))"
  by (simp add: sample_rel_transfer_def)

lemma sample_hyps: "db_wf (m_db (w_db (sample_world faults)))" "keeps_wf m_db quiet_sleep" "ctx_ok sample_ctx"
  using sample_db_wf by (simp_all add: sample_world_def keeps_wf_def quiet_sleep_def ctx_ok_def sample_ctx_def)

lemma sample_retry_reply:
  "fst (sample_transfer pay_bob [Some (PgError ''40001'')]) =
     reply 200 (JObj [(''transfer_id'', JInt 1), (''amount'', JInt 30)])"
  by code_simp

lemma sample_run:
  "handleTransfer (mem_bob no_ilike True) (mem_RunInTx True) (mem_redis True) (Some (PublishTransferEvent mem_js))
     half quiet_sleep sample_ctx ''transfer'' raw (\<lambda>_. []) (sample_world faults) =
   (fst (sample_transfer raw faults), snd (sample_transfer raw faults))"
  by (simp add: sample_transfer_def)

lemmas sample_backend = mem_transfer.transfer_backend_axioms[of no_ilike True]

theorem transfer_ok_refines_spec_witness:
  "\<exists>p d res. valid_payload pay_bob = Some p \<and>
    (interference m_db quiet_sleep)\<^sup>*\<^sup>* sample_db d \<and>
    transfer_spec 1 p d res (m_db (w_db (snd (sample_transfer pay_bob [Some (PgError ''40001'')])))) \<and>
    tr_transferID res = 1 \<and> tp_amount p = 30"
proof -
  from transfer_ok_refines_spec[OF sample_backend sample_hyps
      sample_run[of pay_bob "[Some (PgError ''40001'')]", unfolded sample_retry_reply]]
  show ?thesis by (simp add: sample_ctx_def sample_world_def UserIDFromContext_def)
qed


lemmas handler_outcome =
  transfer_backend.handleTransfer_outcome[consumes 5, case_names invalid success failed unknown]

lemma answer_not_found_iff:
  "fst (answer R pub p res (Some e) w) = reply 404 b \<Longrightarrow> errors_Is e ErrReceiverNotFound"
  "fst (answer R pub p res (Some e) w) = reply 400 (detail ''Insufficient funds'') \<Longrightarrow> errors_Is e ErrInsufficientFunds"
  "fst (answer R pub p res (Some e) w) = reply 400 (detail ''Cannot transfer to yourself'') \<Longrightarrow> errors_Is e ErrSelfTransfer"
  "fst (answer R pub p res (Some e) w) = reply 503 b \<Longrightarrow> IsSerializationFailure (Some e)"
  by (auto simp: answer_def err_is_def detail_def split: if_splits)

lemma after_commit_not:
  "(r, w') = after_commit R pub p res w \<Longrightarrow> r \<noteq> reply 404 b" "(r, w') = after_commit R pub p res w \<Longrightarrow> r \<noteq> reply 400 b"
  "(r, w') = after_commit R pub p res w \<Longrightarrow> r \<noteq> reply 503 b"
  by (auto simp: after_commit_def Let_def)

text \<open>Property C2. Any other reply means that the handler itself changed nothing: the tables differ from
  the initial ones only by what other sessions committed during the back-offs, and Redis and
  JetStream were not touched. The one exception is an error without SQLSTATE (the connection broke
  while committing), where one complete transfer may have been committed; never a part of one.\<close>

theorem transfer_failure_has_no_effect:
  assumes "transfer_backend B tables ilike RunInTx"
    and "db_wf (tables (w_db w))" and "keeps_wf tables sleep" and "ctx_ok ctx"
    and "handleTransfer B RunInTx R pub rnd sleep ctx action raw headers w = (r, w')"
    and "\<And>body. r \<noteq> reply 200 body"
  shows "w_redis w' = w_redis w \<and> w_js w' = w_js w \<and>
    ((interference tables sleep)\<^sup>*\<^sup>* (tables (w_db w)) (tables (w_db w')) \<or>
     (\<exists>e p d res. r = Inl (Wrapf ''transfer tx'' e) \<and> pg_code e = [] \<and>
        (interference tables sleep)\<^sup>*\<^sup>* (tables (w_db w)) d \<and> transfer_spec (sender_of ctx) p d res (tables (w_db w'))))"
  using assms(1,5,2-4)
proof (cases rule: handler_outcome)
  case (success p d res)
  then have "r = fst (after_commit R pub p res (w\<lparr>w_db := w_db w'\<rparr>))" by (metis fst_conv)
  with assms(6) show ?thesis by (metis after_commit_reply)
next
  case failed
  from failed(6) have "w_redis w' = w_redis w" "w_js w' = w_js w" by (metis world.simps(2,3) world.surjective world.update_convs(1))+
  with failed(2) show ?thesis by simp
next
  case unknown
  from unknown(7) have "w_redis w' = w_redis w" "w_js w' = w_js w" by (metis world.simps(2,3) world.surjective world.update_convs(1))+
  with unknown show ?thesis by blast
qed simp

theorem transfer_failure_has_no_effect_witness:
  "m_db (w_db (snd (sample_transfer (Some (JObj [(''phone'', JStr ''0902''), (''amount'', JInt 501)])) []))) = sample_db"
proof -
  let ?raw = "Some (JObj [(''phone'', JStr ''0902''), (''amount'', JInt 501)])"
  have r: "fst (sample_transfer ?raw []) = reply 400 (detail ''Insufficient funds'')" by code_simp
  show ?thesis
    using transfer_failure_has_no_effect[OF sample_backend sample_hyps
        sample_run[of ?raw "[]"]] r
    by (auto simp: sample_world_def)
qed

text \<open>Property C3. The refusals say the truth about the tables: 404 that no user has the given
  identifier, \<^verbatim>\<open>Cannot transfer to yourself\<close> that the identifier names the sender, \<^verbatim>\<open>Insufficient funds\<close>
  that the receiver exists and the sender's balance is below the amount; each time the tables are
  those the decision was taken on.\<close>

theorem transfer_refusals_justified:
  assumes "transfer_backend B tables ilike RunInTx"
    and "db_wf (tables (w_db w))" and "keeps_wf tables sleep" and "ctx_ok ctx"
    and "handleTransfer B RunInTx R pub rnd sleep ctx action raw headers w = (r, w')"
    and "valid_payload raw = Some p"
  shows "(r = reply 404 b \<longrightarrow> (\<forall>u \<in> set (users (tables (w_db w'))). \<not> names_user p u)) \<and>
    (r = reply 400 (detail ''Cannot transfer to yourself'') \<longrightarrow>
       (\<exists>u \<in> set (users (tables (w_db w'))). names_user p u \<and> u_id u = sender_of ctx)) \<and>
    (r = reply 400 (detail ''Insufficient funds'') \<longrightarrow>
       (\<exists>s \<in> set (users (tables (w_db w'))). \<exists>v \<in> set (users (tables (w_db w'))).
          u_id s = sender_of ctx \<and> names_user p v \<and> u_id v \<noteq> u_id s \<and> u_balance s < tp_amount p))"
  using assms(1,5,2-4)
proof (cases rule: handler_outcome)
  case (success p' d res)
  then show ?thesis using after_commit_not by blast
next
  case (failed p' e res)
  with assms(6) have "transfer_refused (sender_of ctx) p (tables (w_db w')) e" by simp
  from refused_funds[OF this] refused_not_found[OF this] refused_self[OF this] show ?thesis
    unfolding failed(5) using answer_not_found_iff by metis
qed (use assms(6) in auto)

theorem transfer_refusals_justified_witness:
  "\<not> names_user \<lparr>tp_account_number = ''999'', tp_phone = [], tp_username = [], tp_amount = 5\<rparr> alice"
proof -
  let ?raw = "Some (JObj [(''account_number'', JStr ''999''), (''amount'', JInt 5)])"
  have r: "fst (sample_transfer ?raw []) = reply 404 (detail ''Receiver not found'')" by code_simp
  have v: "valid_payload ?raw = Some \<lparr>tp_account_number = ''999'', tp_phone = [], tp_username = [], tp_amount = 5\<rparr>"
    by code_simp
  have a: "alice \<in> set (users (m_db (w_db (snd (sample_transfer ?raw [])))))" by code_simp
  show ?thesis
    using transfer_refusals_justified[OF sample_backend sample_hyps
        sample_run[of ?raw "[]"] v] r a
    by blast
qed

definition total_balance :: "db \<Rightarrow> int" where
  "total_balance d = sum_list (map u_balance (users d))"

text \<open>No reply of the handler, of whatever kind, creates or destroys money or breaks the
  schema's constraints: the sum of all balances is the sum on the tables the transaction ran on.\<close>

lemma transfer_conserves_money:
  assumes "transfer_backend B tables ilike RunInTx"
    and "db_wf (tables (w_db w))" and "keeps_wf tables sleep" and "ctx_ok ctx"
    and "handleTransfer B RunInTx R pub rnd sleep ctx action raw headers w = (r, w')"
  shows "db_wf (tables (w_db w')) \<and>
    (\<exists>d. (interference tables sleep)\<^sup>*\<^sup>* (tables (w_db w)) d \<and> total_balance (tables (w_db w')) = total_balance d)"
  using assms(1,5,2-4)
proof (cases rule: handler_outcome)
  case (success p d res)
  with valid_payload_props[OF success(1)] show ?thesis
    using transfer_spec_wf transfer_spec_total unfolding total_balance_def by metis
next
  case (unknown p d res e)
  with valid_payload_props[OF unknown(1)] show ?thesis
    using transfer_spec_wf transfer_spec_total unfolding total_balance_def by metis
qed (use assms(2) in auto)

section \<open>The read model after a transfer\<close>

lemma spec_event:
  assumes "transfer_spec sid p d res d'" and "db_wf d" and "0 < tp_amount p" and "in64 (tp_amount p)"
  shows "in64_event (event_of p res)" "tc_sender_id (event_of p res) \<noteq> tc_receiver_id (event_of p res)"
    "tc_sender_id (event_of p res) = sid"
  using assms(1)
proof (atomize (full), cases rule: transfer_spec.cases)
  case (transferred s r i j k now now')
  with user_wf[OF assms(2) transferred(1)] user_wf[OF assms(2) transferred(2)] assms(3,4)
  have "in64 (u_id s)" "in64 (u_id r)" "in64 (u_balance s - tp_amount p)"
    by (auto simp: user_row_wf_def in64_def)
  with transferred assms(4) show "in64_event (event_of p res) \<and>
      tc_sender_id (event_of p res) \<noteq> tc_receiver_id (event_of p res) \<and> tc_sender_id (event_of p res) = sid"
    by (simp add: in64_event_def event_of_def fresh_def)
qed

lemma spec_parties:
  assumes "transfer_spec sid p d res d'"
  obtains s r where "s \<in> set (users d')" "r \<in> set (users d')" "u_id s = tr_senderID res" "u_id r = tr_receiverID res"
    "u_phone s = tr_senderPhone res" "u_phone r = tr_receiverPhone res" "u_balance s = tr_senderBalance res"
    "u_balance r = tr_receiverBalance res" "names_user p r" "u_id s = sid"
  using assms
proof (cases rule: transfer_spec.cases)
  case (transferred s r i j k now now')
  let ?s = "s\<lparr>u_balance := u_balance s - tp_amount p\<rparr>" and ?r = "r\<lparr>u_balance := u_balance r + tp_amount p\<rparr>"
  have "?s \<in> set (users d')" "?r \<in> set (users d')"
    using transferred by (auto simp: move_money_def image_iff intro: bexI[of _ s] bexI[of _ r])
  moreover have "names_user p ?r"
    using transferred(4) by (auto simp: names_user_def UserIdentifierCol_def split: prod.splits if_splits)
  ultimately show thesis using that[of ?s ?r] transferred by simp
qed

lemma completed_cmds_hash:
  "h \<noteq> ''balance'' \<or> f \<notin> {Itoa (tc_sender_id evt), Itoa (tc_receiver_id evt)} \<Longrightarrow>
   r_hash (fold redis_apply (completed_cmds evt sp rp) ks) (h, f) = r_hash ks (h, f)"
  by (auto simp: completed_cmds_def hset_balance_def)

text \<open>Property C7. After a reply 200, on a Redis service without faults, the balance read model holds
  for both parties exactly the balance the tables hold, for everybody else what it held before; the
  users cached under the parties' phones are gone, and every other string key (sessions, presence,
  users cached under a name) is what it was, up to keys that expired meanwhile; and exactly two
  messages were published, one to each party's channel, which decode to the event with those
  balances.\<close>

theorem transfer_ok_updates_read_model:
  assumes "transfer_backend B tables ilike RunInTx" and "reliable_redis R keys"
    and "db_wf (tables (w_db w))" and "keeps_wf tables sleep" and "ctx_ok ctx"
    and "handleTransfer B RunInTx R pub rnd sleep ctx action raw headers w = (reply 200 body, w')"
  shows "\<exists>s \<in> set (users (tables (w_db w'))). \<exists>v \<in> set (users (tables (w_db w'))). \<exists>evt.
    u_id s = sender_of ctx \<and> u_id v \<noteq> u_id s \<and>
    balance_of (keys (w_redis w')) (u_id s) = Some (u_balance s) \<and>
    balance_of (keys (w_redis w')) (u_id v) = Some (u_balance v) \<and>
    (\<forall>i. in64 i \<and> i \<notin> {u_id s, u_id v} \<longrightarrow>
       balance_of (keys (w_redis w')) i = balance_of (keys (w_redis w)) i) \<and>
    (\<exists>ks. expired (keys (w_redis w)) ks \<and> r_string (keys (w_redis w')) =
       r_string ks |` (- {cache_phone_key (u_phone s), cache_phone_key (u_phone v)})) \<and>
    (\<forall>h f. h \<noteq> ''balance'' \<or> f \<notin> {Itoa (u_id s), Itoa (u_id v)} \<longrightarrow>
       r_hash (keys (w_redis w')) (h, f) = r_hash (keys (w_redis w)) (h, f)) \<and>
    r_published (keys (w_redis w')) = r_published (keys (w_redis w)) @
      [(notify_channel (u_id s), RJson (transfer_completed_json evt)),
       (notify_channel (u_id v), RJson (transfer_completed_json evt))] \<and>
    decode_transfer_completed (Some (transfer_completed_json evt)) = Some evt \<and>
    tc_sender_balance evt = u_balance s \<and> tc_receiver_balance evt = u_balance v"
  using assms(1,6,3-5)
proof (cases rule: handler_outcome)
  case (success p d res)
  let ?evt = "event_of p res" and ?sp = "tr_senderPhone res" and ?rp = "tr_receiverPhone res"
  have amt: "0 < tp_amount p" "in64 (tp_amount p)" using valid_payload_props[OF success(1)] by auto
  obtain s v where sv: "s \<in> set (users (tables (w_db w')))" "v \<in> set (users (tables (w_db w')))"
    "u_id s = tr_senderID res" "u_id v = tr_receiverID res" "u_phone s = ?sp" "u_phone v = ?rp"
    "u_balance s = tr_senderBalance res" "u_balance v = tr_receiverBalance res" "u_id s = sender_of ctx"
    using success(4) by (elim spec_parties) blast
  note ev = spec_event[OF success(4,3) amt]
  have evs: "tc_sender_id ?evt = u_id s" "tc_receiver_id ?evt = u_id v" "tc_sender_balance ?evt = u_balance s"
    "tc_receiver_balance ?evt = u_balance v" using sv by (simp_all add: event_of_def)
  have "w_redis w' = snd (rc_Pipeline R (completed_cmds ?evt ?sp ?rp) (w_redis w))"
    using arg_cong[OF success(5), of "\<lambda>x. w_redis (snd x)"] by (simp add: PublishTransferCompleted_def)
  moreover have "fst (rc_Pipeline R (completed_cmds ?evt ?sp ?rp) (w_redis w)) = None"
    using reliable_redis.pipe_total[OF assms(2)] by (metis not_None_eq prod.collapse)
  ultimately have "rc_Pipeline R (completed_cmds ?evt ?sp ?rp) (w_redis w) = (None, w_redis w')"
    by (metis prod.collapse)
  then obtain ks where ks: "expired (keys (w_redis w)) ks"
    "keys (w_redis w') = fold redis_apply (completed_cmds ?evt ?sp ?rp) ks"
    using redis_service.pipe_ok[OF reliable_redis.axioms(1)[OF assms(2)]] by blast
  have pub: "r_published ks = r_published (keys (w_redis w))" using ks(1) by (simp add: expired_def)
  have i64: "in64 (u_id s)" "in64 (u_id v)" using ev(1) evs by (auto simp: in64_event_def)
  note eff = completed_cmds_effect[OF ev(1) _ ev(2), of _ ?sp ?rp ks, folded ks(2), unfolded evs]
  have hash: "r_hash (keys (w_redis w')) (h, f) = r_hash (keys (w_redis w)) (h, f)"
    if "h \<noteq> ''balance'' \<or> f \<notin> {Itoa (u_id s), Itoa (u_id v)}" for h f
    using completed_cmds_hash[of h f ?evt ?sp ?rp ks] that ks(1) by (simp add: ks(2) evs expired_def)
  have str: "\<exists>ks. expired (keys (w_redis w)) ks \<and> r_string (keys (w_redis w')) =
      r_string ks |` (- {cache_phone_key (u_phone s), cache_phone_key (u_phone v)})"
    using ks(1) eff(2)[OF i64(1)] sv(5,6) by auto
  show ?thesis
    by (rule bexI[of _ s], rule bexI[of _ v], rule exI[of _ ?evt], intro conjI allI impI)
      (use sv(1,2,9) ev(2) evs eff(1,3) i64 pub hash str decode_encode_event[OF ev(1)] balance_of_expired[OF ks(1)] in auto)
next
  case (failed p e res)
  then show ?thesis using answer_Some_status by metis
qed simp_all


theorem transfer_ok_updates_read_model_witness:
  "\<exists>s \<in> set (users (m_db (w_db (snd (sample_rel_transfer pay_bob))))).
     u_id s = 1 \<and> balance_of (mr_keys (w_redis (snd (sample_rel_transfer pay_bob)))) 1 = Some (u_balance s)"
proof -
  have r: "fst (sample_rel_transfer pay_bob) = reply 200 (JObj [(''transfer_id'', JInt 1), (''amount'', JInt 30)])"
    by code_simp
  show ?thesis
    using transfer_ok_updates_read_model[OF mem_transfer.transfer_backend_axioms rel_mred.reliable_redis_axioms sample_hyps
        sample_rel_run[of pay_bob, unfolded r]]
    by (auto simp: sample_ctx_def UserIDFromContext_def)
qed

end
