(* ===== verification/Transfer_Liveness.thy ===== *)
theory Transfer_Liveness
  imports Transfer_Props
begin

text \<open>
  The transfer handler on services without faults: its reply is determined by the payload and the
  tables, and a transfer that can take place does take place. Also the bounds on the retry loop's
  back-off, the rows-affected guard of the balance update, and the transfer ids of repeated requests.
\<close>

section \<open>No faults\<close>

text \<open>The sender has a row, the identifier is text PostgreSQL accepts, no receiver's balance would
  leave its column, and the id sequences are not exhausted.\<close>

definition admissible :: "int \<Rightarrow> transfer_payload \<Rightarrow> db \<Rightarrow> bool" where
  "admissible sid p d \<longleftrightarrow>
     list_ex (\<lambda>u. u_id u = sid) (users d) \<and>
     CHR 0x00 \<notin> set (snd (UserIdentifierCol (tp_account_number p) (tp_phone p) (tp_username p))) \<and>
     list_all (\<lambda>u. names_user p u \<longrightarrow> in64 (u_balance u + tp_amount p)) (users d) \<and>
     id_room (map t_id (transfers d)) \<and> id_room (map n_id (notifications d))"

context reliable_postgres
begin

lemma resolveReceiver_total:
  assumes "resolveReceiver B p w = (Inl e, w')"
    and "CHR 0x00 \<notin> set (snd (UserIdentifierCol (tp_account_number p) (tp_phone p) (tp_username p)))"
  shows "e = ErrReceiverNotFound"
proof -
  obtain col val where cv: "UserIdentifierCol (tp_account_number p) (tp_phone p) (tp_username p) = (col, val)"
    by fastforce
  let ?st = "SelectUsers ProjId (UserEq col (ArgText val)) Unordered None False"
  obtain q where q: "bob_One B ?st w = (q, w')"
    using assms cv by (auto simp: resolveReceiver_def split: prod.splits sum.splits if_splits)
  have acc: "accepted ?st (tables w)" using assms(2) cv by (simp add: accepted_def page_errs_def)
  show ?thesis
  proof (cases q)
    case (Inr r)
    with q one_row[of ?st w r w'] obtain j where "r = IntRow j" by (auto simp: Cons_eq_map_conv)
    with assms(1) q Inr cv show ?thesis by (simp add: resolveReceiver_def)
  next
    case (Inl e0)
    with q one_total[OF acc] have "errors_Is e0 SqlErrNoRows" by blast
    with assms(1) q Inl cv show ?thesis by (simp add: resolveReceiver_def IsNotFound_def err_is_def)
  qed
qed

lemma lockBothUsers_total:
  assumes "db_wf (tables w)" and "sid \<noteq> rid" and "sid \<in> user_ids (tables w)" and "rid \<in> user_ids (tables w)"
  shows "lockBothUsers B sid rid w \<noteq> (Inl e, w')"
proof
  assume l: "lockBothUsers B sid rid w = (Inl e, w')"
  let ?st = "SelectUsers ProjUser (UserIdIn [sid, rid]) IdAsc None True"
  have "accepted ?st (tables w)" by (simp add: accepted_def page_errs_def)
  then have "bob_All B ?st w \<noteq> (Inl e0, w')" for e0 by (rule all_total)
  with l obtain rs where rs: "bob_All B ?st w = (Inr rs, w')"
    by (auto simp: lockBothUsers_def scan_all_users_def split: prod.splits sum.splits list.splits)
  from all_rows[OF rs] obtain us where "rs = map UserRow us"
    "mset us = mset (filter (\<lambda>u. u_id u \<in> {sid, rid}) (users (tables w)))"
    by (auto simp: selection_all)
  moreover from this(2) have "length us = 2" using two_ids_present[OF assms] mset_eq_length by metis
  ultimately show False
    using l rs by (auto simp: lockBothUsers_def scan_all_users_def numeral_2_eq_2 length_Suc_conv)
qed

lemma updateBalances_total:
  assumes "db_wf (tables w)" and "s \<in> set (users (tables w))" and "r \<in> set (users (tables w))" and "u_id s \<noteq> u_id r"
    and "0 < a" and "a \<le> u_balance s" and "in64 (u_balance r + a)"
  shows "updateBalances B (u_id s) (u_id r) a w \<noteq> (Some e, w')"
proof
  assume u: "updateBalances B (u_id s) (u_id r) a w = (Some e, w')"
  let ?st = "UpdateBalances (u_id s) (u_id r) a"
  have acc: "accepted ?st (tables w)"
    using update_errs[OF assms(1-6)] assms(7) by (simp add: accepted_def del: sql_errs.simps)
  obtain n where n: "bob_Exec B ?st w = (Inr n, w')"
    using u exec_total[OF acc] by (auto simp: updateBalances_def split: prod.splits sum.splits if_splits)
  have "n = 2"
    using exec_ok[OF n] two_ids_present[OF assms(1,4)] assms(2,3) user_in_ids by (auto simp del: sql_errs.simps)
  with u n show False by (simp add: updateBalances_def)
qed

lemma insertTransferRecord_total:
  assumes "f \<in> user_ids (tables w)" and "t \<in> user_ids (tables w)" and "0 < a"
    and "id_room (map t_id (transfers (tables w)))"
  shows "insertTransferRecord B f t a w \<noteq> (Inl e, w')"
proof
  assume i: "insertTransferRecord B f t a w = (Inl e, w')"
  let ?st = "InsertTransfer f t a"
  have acc: "accepted ?st (tables w)" using assms by (simp add: accepted_def)
  obtain q where q: "bob_One B ?st w = (q, w')"
    using i by (auto simp: insertTransferRecord_def split: prod.splits sum.splits)
  show False
  proof (cases q)
    case (Inl e0)
    with q one_total[OF acc] one_none[of ?st w e0 w'] show False by auto
  next
    case (Inr r)
    with q i one_row[of ?st w r w'] show False by (auto simp: insertTransferRecord_def)
  qed
qed

lemma insertNotifications_total:
  assumes "user_row_wf s" and "user_row_wf r" and "in64 a" and "u_id s \<in> user_ids (tables w)"
    and "u_id r \<in> user_ids (tables w)" and "id_room (map n_id (notifications (tables w)))"
  shows "insertNotifications B s r a w \<noteq> (Some e, w')"
proof -
  let ?st = "InsertNotifications [(u_id s, sent_msg a r), (u_id r, received_msg a s)]"
  have "accepted ?st (tables w)" using assms notification_texts_fit by (simp add: accepted_def)
  from exec_total[OF this] show ?thesis
    by (auto simp: insertNotifications_def split: prod.splits sum.splits)
qed

lemma transfer_tx_total:
  assumes "transfer_tx B sid p res w = (Some e, res', w')" and "db_wf (tables w)" and "0 < tp_amount p"
    and "in64 (tp_amount p)" and "admissible sid p (tables w)"
  shows "e \<in> {ErrReceiverNotFound, ErrSelfTransfer, ErrInsufficientFunds}"
proof -
  have sid: "sid \<in> user_ids (tables w)" using assms(5) by (auto simp: admissible_def list_ex_iff user_ids_def)
  have found: "tables w1 = tables w \<and> rid \<in> user_ids (tables w) \<and>
      (\<forall>r \<in> set (users (tables w)). u_id r = rid \<longrightarrow> in64 (u_balance r + tp_amount p))"
    if "resolveReceiver B p w = (Inr rid, w1)" for rid w1
    using resolveReceiver_found[OF that] unique_user[OF assms(2)] assms(5)
    by (fastforce simp: user_ids_def admissible_def list_all_iff)
  have locked: "tables w2 = tables w \<and> s \<in> set (users (tables w)) \<and> r \<in> set (users (tables w)) \<and> u_id s = sid \<and>
      u_id r \<noteq> sid \<and> in64 (u_balance r + tp_amount p)"
    if "resolveReceiver B p w = (Inr rid, w1)" "sid \<noteq> rid" "lockBothUsers B sid rid w1 = (Inr (s, r), w2)"
    for rid w1 s r w2
    using found[OF that(1)] lockBothUsers_ok[OF that(3)] that(2) assms(2) by auto
  have moved: "tables w3 = (tables w)\<lparr>users := move_money sid (u_id r) (tp_amount p) (users (tables w))\<rparr>"
    if "resolveReceiver B p w = (Inr rid, w1)" "sid \<noteq> rid" "lockBothUsers B sid rid w1 = (Inr (s, r), w2)"
      "tp_amount p \<le> u_balance s" "updateBalances B (u_id s) (u_id r) (tp_amount p) w2 = (None, w3)"
    for rid w1 s r w2 w3
    using locked[OF that(1-3)] updateBalances_ok[OF that(5)] assms(2,3) that(4) by auto
  show ?thesis
    using assms(1)
  proof (cases rule: transfer_tx_cases)
    case (resolve_failed e')
    then show ?thesis using resolveReceiver_total assms(5) by (auto simp: admissible_def)
  next
    case (lock_failed rid w1 e')
    then show ?thesis using found[OF lock_failed(1)] lockBothUsers_total[of w1 sid rid] sid assms(2) by auto
  next
    case (update_failed rid w1 s r w2 e')
    then show ?thesis using locked[OF update_failed(1-3)] updateBalances_total[of w2 s r] assms(2,3) by auto
  next
    case (insert_failed rid w1 s r w2 w3 e')
    then show ?thesis
      using locked[OF insert_failed(1-3)] moved[OF insert_failed(1-5)] insertTransferRecord_total[of "u_id s" w3 "u_id r"]
        assms(3,5) user_in_ids by (auto simp: admissible_def)
  next
    case (recorded rid w1 s r w2 w3 i w4)
    note l = locked[OF recorded(1-3)]
    have "user_ids (tables w4) = user_ids (tables w)" "notifications (tables w4) = notifications (tables w)"
      using insertTransferRecord_ok[OF recorded(6)] moved[OF recorded(1-5)] by auto
    then have "insertNotifications B s r (tp_amount p) w4 \<noteq> (Some e, w')"
      using l assms(2,4,5) user_in_ids user_wf by (intro insertNotifications_total) (auto simp: admissible_def)
    with recorded(8) show ?thesis by simp
  qed auto
qed

end


locale reliable_backend = reliable_postgres B tables ilike + reliable_tx_runner RunInTx tables
  for B :: "'c bobdb" and tables :: "'c \<Rightarrow> db" and ilike
    and RunInTx :: "(transfer_result, 'c) tx_fun \<Rightarrow> (transfer_result, 'c) tx_fun"
begin

lemma runTransferTx_reliable:
  assumes "db_wf (tables w)" and "0 < tp_amount p" and "in64 (tp_amount p)" and "admissible sid p (tables w)"
  obtains (success) res w' where "runTransferTx B RunInTx rnd sleep ctx sid p w = (res, None, w')"
      "transfer_spec sid p (tables w) res (tables w')"
  | (refused) res e w' where "runTransferTx B RunInTx rnd sleep ctx sid p w = (res, Some e, w')"
      "e \<in> {ErrReceiverNotFound, ErrSelfTransfer, ErrInsufficientFunds}" "transfer_refused sid p (tables w) e"
proof -
  let ?f = "transfer_tx B sid p"
  obtain r res w' where run: "RunInTx ?f transfer_result_zero w = (r, res, w')" using prod_cases3 by blast
  show thesis
  proof (cases r)
    case None
    with run_in_tx[OF run] have "transfer_spec sid p (tables w) res (tables w')"
      using transfer_tx_commits[OF _ _ assms(2)] assms(1) by (fastforce simp: tx_outcome_None)
    moreover have "\<not> IsSerializationFailure r" using None by (simp add: IsSerializationFailure_def pgErrCode_def)
    ultimately show thesis
      using success[of res w'] SerializableTx_first[of RunInTx ?f transfer_result_zero w r res w', OF run] None by (simp add: runTransferTx_def)
  next
    case (Some e)
    with run_total run obtain c c' where c: "tables c = tables w" "?f transfer_result_zero c = (Some e, res, c')"
      by blast
    then have e: "e \<in> {ErrReceiverNotFound, ErrSelfTransfer, ErrInsufficientFunds}"
      "transfer_refused sid p (tables w) e"
      using transfer_tx_total[OF c(2)] transfer_tx_fails[OF c(2)] assms by auto
    then have "\<not> IsSerializationFailure r" using Some by (auto simp: IsSerializationFailure_def pgErrCode_def)
    then show thesis
      using refused[of res e w'] SerializableTx_first[of RunInTx ?f transfer_result_zero w r res w', OF run] Some e by (simp add: runTransferTx_def)
  qed
qed

lemma handleTransfer_reliable:
  assumes "db_wf (tables (w_db w))" and "valid_payload raw = Some p"
    and "admissible (sender_of ctx) p (tables (w_db w))"
  obtains (success) res d' where "transfer_spec (sender_of ctx) p (tables (w_db w)) res d'"
      "fst (handleTransfer B RunInTx R pub rnd sleep ctx action raw headers w) =
         reply 200 (JObj [(''transfer_id'', JInt (tr_transferID res)), (''amount'', JInt (tp_amount p))])"
  | (not_found) "\<forall>u \<in> set (users (tables (w_db w))). \<not> names_user p u"
      "fst (handleTransfer B RunInTx R pub rnd sleep ctx action raw headers w) = reply 404 (detail ''Receiver not found'')"
  | (self) u where "u \<in> set (users (tables (w_db w)))" "names_user p u" "u_id u = sender_of ctx"
      "fst (handleTransfer B RunInTx R pub rnd sleep ctx action raw headers w) =
         reply 400 (detail ''Cannot transfer to yourself'')"
  | (funds) s r where "s \<in> set (users (tables (w_db w)))" "r \<in> set (users (tables (w_db w)))"
      "u_id s = sender_of ctx" "names_user p r" "u_id r \<noteq> sender_of ctx" "u_balance s < tp_amount p"
      "fst (handleTransfer B RunInTx R pub rnd sleep ctx action raw headers w) =
         reply 400 (detail ''Insufficient funds'')"
proof -
  have amt: "0 < tp_amount p" "in64 (tp_amount p)" using valid_payload_props[OF assms(2)] by auto
  note h = handleTransfer_valid[OF assms(2), of B RunInTx R pub rnd sleep ctx action headers w]
  show thesis
  proof (rule runTransferTx_reliable[OF assms(1) amt assms(3), of rnd sleep ctx])
    fix res w' assume "runTransferTx B RunInTx rnd sleep ctx (sender_of ctx) p (w_db w) = (res, None, w')"
      "transfer_spec (sender_of ctx) p (tables (w_db w)) res (tables w')"
    with h show thesis by (intro success) auto
  next
    fix res e w' assume *: "runTransferTx B RunInTx rnd sleep ctx (sender_of ctx) p (w_db w) = (res, Some e, w')"
      "e \<in> {ErrReceiverNotFound, ErrSelfTransfer, ErrInsufficientFunds}"
      "transfer_refused (sender_of ctx) p (tables (w_db w)) e"
    from *(2) consider "e = ErrReceiverNotFound" | "e = ErrSelfTransfer" | "e = ErrInsufficientFunds" by auto
    then show thesis
    proof cases
      case 1
      with h * refused_not_found[OF *(3)] show thesis by (intro not_found) (auto simp: answer_def err_is_def)
    next
      case 2
      with refused_self[OF *(3)] obtain u where "u \<in> set (users (tables (w_db w)))" "names_user p u" "u_id u = sender_of ctx"
        by auto
      with 2 h * show thesis by (intro self[of u]) (auto simp: answer_def err_is_def)
    next
      case 3
      with refused_funds[OF *(3)] obtain s r where "s \<in> set (users (tables (w_db w)))" "r \<in> set (users (tables (w_db w)))"
        "u_id s = sender_of ctx" "names_user p r" "u_id r \<noteq> sender_of ctx" "u_balance s < tp_amount p" by auto
      with 3 h * show thesis by (intro funds[of s r]) (auto simp: answer_def err_is_def)
    qed
  qed
qed

end

interpretation rel_backend: reliable_backend "mem_bob ilike False" m_db ilike "mem_RunInTx False"
  by unfold_locales

lemma find_unique:
  assumes "r \<in> set xs" and "P r" and "\<And>v. v \<in> set xs \<Longrightarrow> P v \<Longrightarrow> v = r"
  shows "find P xs = Some r"
proof (cases "find P xs")
  case None
  with assms(1,2) show ?thesis by (simp add: find_None_iff)
next
  case (Some v)
  then have "v \<in> set xs" "P v" by (auto simp: find_Some_iff)
  with assms(3) Some show ?thesis by blast
qed

section \<open>Properties\<close>

text \<open>Property C8. On services without faults the reply is determined by the tables: with a payload that
  passes the checks and names one user, 404 when there is no such user, \<^verbatim>\<open>Cannot transfer to
  yourself\<close> when it is the sender, \<^verbatim>\<open>Insufficient funds\<close> when the balance is below the amount, and
  in every other case the transfer takes place and the reply is 200.\<close>

theorem transfer_reply_determined:
  assumes "reliable_backend B tables ilike RunInTx" and "db_wf (tables (w_db w))"
    and "valid_payload raw = Some p" and "admissible (sender_of ctx) p (tables (w_db w))"
    and "\<And>u v. u \<in> set (users (tables (w_db w))) \<Longrightarrow> v \<in> set (users (tables (w_db w))) \<Longrightarrow>
           names_user p u \<Longrightarrow> names_user p v \<Longrightarrow> u = v"
    and "s \<in> set (users (tables (w_db w)))" and "u_id s = sender_of ctx"
  shows "case find (names_user p) (users (tables (w_db w))) of
      None \<Rightarrow> fst (handleTransfer B RunInTx R pub rnd sleep ctx action raw headers w) =
               reply 404 (detail ''Receiver not found'')
    | Some v \<Rightarrow>
        if u_id v = u_id s
        then fst (handleTransfer B RunInTx R pub rnd sleep ctx action raw headers w) =
               reply 400 (detail ''Cannot transfer to yourself'')
        else if u_balance s < tp_amount p
        then fst (handleTransfer B RunInTx R pub rnd sleep ctx action raw headers w) =
               reply 400 (detail ''Insufficient funds'')
        else \<exists>i. fst (handleTransfer B RunInTx R pub rnd sleep ctx action raw headers w) =
               reply 200 (JObj [(''transfer_id'', JInt i), (''amount'', JInt (tp_amount p))])"
proof (cases rule: reliable_backend.handleTransfer_reliable[OF assms(1-4),
      of R pub rnd sleep action headers, case_names success not_found self funds])
  case (success res d')
  from success(1) obtain s' r where sr: "s' \<in> set (users (tables (w_db w)))" "r \<in> set (users (tables (w_db w)))"
    "u_id s' = sender_of ctx" "names_user p r" "u_id r \<noteq> sender_of ctx" "tp_amount p \<le> u_balance s'"
    by (cases rule: transfer_spec.cases) auto
  with unique_user[OF assms(2) sr(1) assms(6)] assms(7) have "s' = s" by simp
  moreover have "find (names_user p) (users (tables (w_db w))) = Some r"
    using sr(2,4) assms(5) by (intro find_unique) auto
  ultimately show ?thesis using sr success(2) assms(7) by auto
next
  case not_found
  then have "find (names_user p) (users (tables (w_db w))) = None" by (simp add: find_None_iff)
  with not_found(2) show ?thesis by simp
next
  case (self u)
  then have "find (names_user p) (users (tables (w_db w))) = Some u" using assms(5) by (intro find_unique) auto
  with self assms(7) show ?thesis by simp
next
  case (funds s' r)
  with unique_user[OF assms(2) funds(1) assms(6)] assms(7) have "s' = s" by simp
  moreover have "find (names_user p) (users (tables (w_db w))) = Some r"
    using funds(2,4) assms(5) by (intro find_unique) auto
  ultimately show ?thesis using funds assms(7) by auto
qed

theorem transfer_reply_determined_witness:
  "\<exists>i. fst (sample_rel_transfer pay_bob) = reply 200 (JObj [(''transfer_id'', JInt i), (''amount'', JInt 30)])"
proof -
  let ?p = "\<lparr>tp_account_number = [], tp_phone = ''0902'', tp_username = [], tp_amount = 30\<rparr>"
  let ?d = "m_db (w_db (sample_world []))"
  have v: "valid_payload pay_bob = Some ?p" by code_simp
  have a: "admissible (sender_of sample_ctx) ?p ?d" by code_simp
  have u: "set (users ?d) = {alice, bobby}" by (simp add: sample_world_def sample_db_def)
  have n: "\<not> names_user ?p alice" "names_user ?p bobby" by code_simp+
  have f: "find (names_user ?p) (users ?d) = Some bobby" by code_simp
  have "alice \<in> set (users ?d)" "u_id alice = sender_of sample_ctx" "u_id bobby \<noteq> u_id alice" "\<not> u_balance alice < 30"
    using u by (simp_all add: alice_def bobby_def sample_ctx_def UserIDFromContext_def)
  moreover have "v1 = v2" if "v1 \<in> set (users ?d)" "v2 \<in> set (users ?d)" "names_user ?p v1" "names_user ?p v2" for v1 v2
    using that n unfolding u by blast
  ultimately show ?thesis
    using transfer_reply_determined[OF rel_backend.reliable_backend_axioms sample_hyps(1) v a, where s = alice and
      R = "mem_redis False" and pub = "Some (PublishTransferEvent mem_js)" and rnd = half and sleep = quiet_sleep
      and action = "''transfer''" and headers = "\<lambda>_. []"] f
    unfolding sample_rel_transfer_def by simp
qed


section \<open>Retries\<close>

lemma retry_loop_exhausted:
  assumes "retry_loop RunInTx ctx_done rnd sleep fn as x w slept = (r, x', w', slept')"
    and "as \<noteq> []" and "\<And>i e. ctx_done i = Some e \<Longrightarrow> pg_code e \<noteq> ''40001''" and "IsSerializationFailure r"
    and "last as = maxSerializableRetries - 1" and "distinct as"
  shows "slept' = slept @ map (\<lambda>i. rnd i (backoff i)) (butlast as)"
  using assms
proof (induction as arbitrary: x w slept)
  case (Cons attempt rest)
  obtain r1 x1 w1 where run: "RunInTx fn x w = (r1, x1, w1)" using prod_cases3 by blast
  have ctx: "\<not> IsSerializationFailure (Some (Wrapf m ce))" if "ctx_done attempt = Some ce" for m ce
    using Cons.prems(3)[OF that] by (simp add: IsSerializationFailure_def pgErrCode_def)
  have nil: "\<not> IsSerializationFailure None" by (simp add: IsSerializationFailure_def pgErrCode_def)
  show ?case
  proof (cases "attempt = maxSerializableRetries - 1")
    case True
    with Cons.prems(5,6) have "rest = []" by (metis distinct.simps(2) last_ConsR last_in_set)
    with True Cons.prems(1,4) run nil show ?thesis by (auto split: option.splits if_splits)
  next
    case False
    then have rest: "rest \<noteq> []" using Cons.prems(5) by auto
    from Cons.prems(1,4) run False ctx nil
    have "retry_loop RunInTx ctx_done rnd sleep fn rest x1 (sleep attempt w1)
        (slept @ [rnd attempt (backoff attempt)]) = (r, x', w', slept')"
      by (auto split: option.splits if_splits)
    from Cons.IH[OF this rest Cons.prems(3,4)] Cons.prems(5,6) rest show ?thesis by simp
  qed
qed simp

text \<open>Property C9. The retry loop backs off at most four times, each time for less than 16 ms, for less
  than 30 ms in all; and it reports a serialization failure (the handler's 503) only after all five
  attempts, never earlier.\<close>

theorem SerializableTx_backoff_bounded:
  assumes "\<And>i n. 0 < n \<Longrightarrow> 0 \<le> rnd i n \<and> rnd i n < n"
    and "\<And>i e. ctx_done i = Some e \<Longrightarrow> e \<in> {CtxCanceled, CtxDeadlineExceeded}"
    and "SerializableTx RunInTx ctx_done rnd sleep fn x w = (r, x', w', slept)"
  shows "length slept \<le> 4 \<and> (\<forall>t \<in> set slept. 0 \<le> t \<and> t < 16000000) \<and> sum_list slept < 30000000 \<and>
    (IsSerializationFailure r \<longrightarrow> length slept = 4)"
proof -
  let ?f = "\<lambda>i. rnd i (backoff i)"
  have b: "backoff 0 = 2000000" "backoff 1 = 4000000" "backoff 2 = 8000000" "backoff 3 = 16000000"
    using backoff_values by auto
  have r: "0 \<le> ?f 0 \<and> ?f 0 < 2000000" "0 \<le> ?f 1 \<and> ?f 1 < 4000000" "0 \<le> ?f 2 \<and> ?f 2 < 8000000"
    "0 \<le> ?f 3 \<and> ?f 3 < 16000000"
    using assms(1) unfolding b by auto
  note loop = assms(3)[unfolded SerializableTx_def]
  obtain k where "k < length [0..<maxSerializableRetries]" "slept = [] @ map ?f (take k [0..<maxSerializableRetries])"
    using retry_loop_slept[OF loop attempts_list_props(1,2)] by blast
  then have k: "k < 5" "slept = map ?f (take k [0, 1, 2, 3, 4])" unfolding attempts_list by simp_all
  have "IsSerializationFailure r \<Longrightarrow> slept = [] @ map ?f (butlast [0..<maxSerializableRetries])"
    using assms(2) by (intro retry_loop_exhausted[OF loop] attempts_list_props) fastforce+
  then have "IsSerializationFailure r \<longrightarrow> length slept = 4" by (simp add: attempts_list)
  moreover from k(1) have "k \<in> {0, 1, 2, 3, 4}" by auto
  ultimately show ?thesis using k(2) r by auto
qed

theorem SerializableTx_backoff_bounded_witness:
  "case SerializableTx (\<lambda>f x w. (Some (PgError ''40001''), x, w)) (\<lambda>_. None) half (\<lambda>i w. w)
      (\<lambda>x w. (None, x, w)) () () of
     (r, x, w, slept) \<Rightarrow> IsSerializationFailure r \<and> length slept = 4 \<and> sum_list slept < 30000000"
proof -
  let ?run = "SerializableTx (\<lambda>f x w. (Some (PgError ''40001''), x, w)) (\<lambda>_. None) half (\<lambda>i w. w)
      (\<lambda>x w. (None, x, w)) () ()"
  obtain r x w slept where run: "?run = (r, x, w, slept)" by (metis prod_cases4)
  have "IsSerializationFailure (fst ?run)" by code_simp
  moreover have "0 \<le> half i n \<and> half i n < n" if "0 < n" for i n using that by (simp add: half_def)
  ultimately show ?thesis using SerializableTx_backoff_bounded[OF _ _ run] run by simp
qed

text \<open>The balance update refuses an amount the sender does not have before any row is
  counted: the CASE expression has no arm for the sender, the column would become NULL, and the
  statement fails as a whole. The function then reports the database's error, and not
  \<^verbatim>\<open>errInsufficientFunds\<close> from the rows-affected guard, and no balance changes.\<close>

lemma updateBalances_underfunded:
  assumes "postgres B tables ilike"
    and "s \<in> set (users (tables w))" and "u_id s \<noteq> rid" and "u_balance s < amount"
    and "updateBalances B (u_id s) rid amount w = (err, w')"
  shows "\<exists>e. err = Some (Wrapf ''update balances'' e) \<and> \<not> err_is err ErrInsufficientFunds \<and> tables w' = tables w"
proof -
  let ?st = "UpdateBalances (u_id s) rid amount"
  have "case_balance (u_id s) rid amount s = None" using assms(3,4) by (simp add: case_balance_def)
  then have "None \<in> set (map (case_balance (u_id s) rid amount) (filter (\<lambda>u. u_id u \<in> {u_id s, rid}) (users (tables w))))"
    using assms(2) by force
  then have ne: "sql_errs ?st (tables w) \<noteq> []" by (simp add: Let_def)
  obtain q where q: "bob_Exec B ?st w = (q, w')"
    using assms(5) by (auto simp: updateBalances_def split: prod.splits sum.splits if_splits)
  show ?thesis
  proof (cases q)
    case (Inr n)
    with q postgres.exec_ok[OF assms(1), of ?st w n w'] ne show ?thesis by auto
  next
    case (Inl e)
    with q postgres.exec_err[OF assms(1), of ?st w e w'] have e: "err_effect ilike ?st (tables w) e (tables w')"
      "db_err ?st (tables w) e" by auto
    from e(1) ne have "tables w' = tables w" unfolding err_effect_def sql_sem.simps by blast
    moreover have "err = Some (Wrapf ''update balances'' e)" using q Inl assms(5) by (simp add: updateBalances_def)
    moreover have "\<not> errors_Is e ErrInsufficientFunds"
      using e(2) unfolding db_err_def app_err_def app_errors_def by simp
    ultimately show ?thesis by (simp add: err_is_def)
  qed
qed

definition keeps_transfers :: "('c \<Rightarrow> db) \<Rightarrow> (nat \<Rightarrow> 'c \<Rightarrow> 'c) \<Rightarrow> bool" where
  "keeps_transfers tables sleep \<longleftrightarrow>
     (\<forall>i c. t_id ` set (transfers (tables c)) \<subseteq> t_id ` set (transfers (tables (sleep i c))))"

lemma interference_transfers:
  assumes "(interference tables sleep)\<^sup>*\<^sup>* d d'" and "keeps_transfers tables sleep"
  shows "t_id ` set (transfers d) \<subseteq> t_id ` set (transfers d')"
  using assms(1)
proof (induction rule: rtranclp_induct)
  case (step y z)
  then show ?case using assms(2) unfolding interference_def keeps_transfers_def by (metis subset_trans)
qed simp

lemma spec_id:
  "transfer_spec sid p d res d' \<Longrightarrow> tr_transferID res \<notin> t_id ` set (transfers d) \<and> in64 (tr_transferID res) \<and>
     tr_transferID res \<in> t_id ` set (transfers d')"
  by (auto elim!: transfer_specE simp: fresh_def)

text \<open>The stream holds events of committed transfers only, each under the id of its transfer.\<close>

definition stream_known :: "('j \<Rightarrow> js_msg list) \<Rightarrow> ('c \<Rightarrow> db) \<Rightarrow> ('c, 'r, 'j) world \<Rightarrow> bool" where
  "stream_known stream tables w \<longleftrightarrow>
     list_all (\<lambda>m. \<exists>t \<in> set (transfers (tables (w_db w))). in64 (t_id t) \<and> jm_id m = Itoa (t_id t)) (stream (w_js w))"

text \<open>A message was appended for transfer \<open>i\<close>: nothing but the oldest messages left the stream.\<close>

definition event_appended :: "js_msg list \<Rightarrow> js_msg list \<Rightarrow> int \<Rightarrow> bool" where
  "event_appended ms ms' i \<longleftrightarrow>
     (\<exists>k m evt. ms' = drop k ms @ [m] \<and> jm_subject m = SubjectTransferCompleted \<and> jm_id m = Itoa i \<and>
        decode_transfer_completed (Some (jm_data m)) = Some evt \<and> tc_transfer_id evt = i)"

lemma PublishTransferEvent_appends:
  assumes "jetstream_service J stream" and "in64_event evt"
    and "\<forall>m \<in> set (stream j). jm_id m \<noteq> Itoa (tc_transfer_id evt)" and "\<forall>m. fst (js_PublishMsg J m j) = None"
  shows "event_appended (stream j) (stream (snd (PublishTransferEvent J evt j))) (tc_transfer_id evt)"
proof -
  let ?m = "\<lparr>jm_subject = SubjectTransferCompleted, jm_id = Itoa (i64 (tc_transfer_id evt)), jm_data = transfer_completed_json evt\<rparr>"
  have id: "i64 (tc_transfer_id evt) = tc_transfer_id evt" using assms(2) by (simp add: in64_event_def i64_id)
  obtain j' where j': "js_PublishMsg J ?m j = (None, j')" using assms(4) by (metis prod.collapse)
  have "jm_id m' \<noteq> jm_id ?m" if "m' \<in> set (drop k (stream j))" for m' k
    using assms(3) in_set_dropD[OF that] by (simp add: id)
  with jetstream_service.publish_ok[OF assms(1) j'] obtain k where "stream j' = drop k (stream j) @ [?m]" by blast
  moreover have "snd (PublishTransferEvent J evt j) = j'" by (simp add: PublishTransferEvent_def j')
  ultimately show ?thesis unfolding event_appended_def using decode_encode_event[OF assms(2)] id by auto
qed

lemma handleTransfer_ok_event:
  assumes "transfer_backend B tables ilike RunInTx"
    and "handleTransfer B RunInTx R (Some (PublishTransferEvent J)) rnd sleep ctx action raw headers w =
       (reply 200 (JObj [(''transfer_id'', JInt i), (''amount'', a)]), w')"
    and "db_wf (tables (w_db w))" and "keeps_wf tables sleep" and "ctx_ok ctx"
    and "keeps_transfers tables sleep" and J: "jetstream_service J stream" and "\<forall>m j. fst (js_PublishMsg J m j) = None"
    and known: "stream_known stream tables w"
  shows "i \<notin> t_id ` set (transfers (tables (w_db w))) \<and> i \<in> t_id ` set (transfers (tables (w_db w'))) \<and> in64 i \<and>
    db_wf (tables (w_db w')) \<and> event_appended (stream (w_js w)) (stream (w_js w')) i \<and> stream_known stream tables w'"
  using assms(1-5)
proof (cases rule: handler_outcome)
  case (success p d res)
  let ?evt = "event_of p res"
  have amt: "0 < tp_amount p" "in64 (tp_amount p)" using valid_payload_props[OF success(1)] by auto
  have i: "i = tr_transferID res" using arg_cong[OF success(5), of fst] by simp
  have js: "w_js w' = snd (PublishTransferEvent J ?evt (w_js w))"
    using arg_cong[OF success(5), of "\<lambda>x. w_js (snd x)"] by simp
  note sub = interference_transfers[OF success(2) assms(6)] and ev = spec_event(1)[OF success(4,3) amt]
  have new: "i \<notin> t_id ` set (transfers (tables (w_db w)))" "in64 i" "i \<in> t_id ` set (transfers (tables (w_db w')))"
    using spec_id[OF success(4)] sub i by auto
  have grow: "t_id ` set (transfers (tables (w_db w))) \<subseteq> t_id ` set (transfers (tables (w_db w')))"
    using sub success(4) by (auto elim!: transfer_specE)
  have "\<forall>m \<in> set (stream (w_js w)). jm_id m \<noteq> Itoa (tc_transfer_id ?evt)"
  proof
    fix m assume "m \<in> set (stream (w_js w))"
    with known obtain t where "t \<in> set (transfers (tables (w_db w)))" "in64 (t_id t)" "jm_id m = Itoa (t_id t)"
      by (auto simp: stream_known_def list_all_iff)
    with new(1,2) i show "jm_id m \<noteq> Itoa (tc_transfer_id ?evt)" by (auto simp: event_of_def Itoa_inject image_iff)
  qed
  from PublishTransferEvent_appends[OF J ev this] assms(8) have app: "event_appended (stream (w_js w)) (stream (w_js w')) i"
    by (simp add: js i event_of_def)
  then obtain k m where m: "stream (w_js w') = drop k (stream (w_js w)) @ [m]" "jm_id m = Itoa i"
    unfolding event_appended_def by blast
  have "\<exists>t \<in> set (transfers (tables (w_db w'))). in64 (t_id t) \<and> jm_id x = Itoa (t_id t)"
    if "x \<in> set (stream (w_js w'))" for x
  proof (cases "x = m")
    case True
    then show ?thesis using m(2) new(2,3) by auto
  next
    case False
    with that m(1) have "x \<in> set (stream (w_js w))" by (auto dest: in_set_dropD)
    with known obtain n where "n \<in> t_id ` set (transfers (tables (w_db w)))" "in64 n" "jm_id x = Itoa n"
      by (fastforce simp: stream_known_def list_all_iff)
    with grow show ?thesis by (metis imageE subsetD)
  qed
  then have "stream_known stream tables w'" by (simp add: stream_known_def list_all_iff)
  with new app transfer_spec_wf[OF success(4,3) amt] show ?thesis by simp
next
  case (failed p e res)
  from failed(5) answer_Some_status show ?thesis by metis
qed simp_all

text \<open>Property C10. A client that repeats a transfer request, because it did not see the reply, makes a
  second transfer, and nothing downstream drops it: with a working JetStream whose stream holds
  events of committed transfers only, two identical requests that are both answered 200 carry
  different transfer ids, both transfers are recorded, and the stream gets one event for each, the
  deduplication id of \<^verbatim>\<open>PublishTransferEvent\<close> being the id of the transfer.\<close>

theorem repeated_request_is_a_new_transfer:
  assumes "transfer_backend B tables ilike RunInTx" and "keeps_wf tables sleep" and "keeps_transfers tables sleep"
    and "ctx_ok ctx" and "db_wf (tables (w_db w))"
    and "jetstream_service J stream" and "\<forall>m j. fst (js_PublishMsg J m j) = None" and "stream_known stream tables w"
    and "handleTransfer B RunInTx R (Some (PublishTransferEvent J)) rnd sleep ctx action raw headers w =
       (reply 200 (JObj [(''transfer_id'', JInt i), (''amount'', a)]), w1)"
    and "handleTransfer B RunInTx R (Some (PublishTransferEvent J)) rnd sleep ctx action raw headers w1 =
       (reply 200 (JObj [(''transfer_id'', JInt j), (''amount'', b)]), w2)"
  shows "i \<noteq> j \<and> i \<in> t_id ` set (transfers (tables (w_db w1))) \<and> j \<in> t_id ` set (transfers (tables (w_db w2))) \<and>
    event_appended (stream (w_js w)) (stream (w_js w1)) i \<and> event_appended (stream (w_js w1)) (stream (w_js w2)) j"
proof -
  note one = handleTransfer_ok_event[OF assms(1,9,5,2,4,3,6,7,8)]
  then have "db_wf (tables (w_db w1))" "stream_known stream tables w1" by blast+
  note two = handleTransfer_ok_event[OF assms(1,10) this(1) assms(2,4,3,6,7) this(2)]
  from one two show ?thesis by metis
qed

text \<open>A JetStream without faults that keeps every message.\<close>

definition good_js :: "memjs jetstream" where
  "good_js = \<lparr>js_PublishMsg = (\<lambda>m j.
     (None, if list_ex (\<lambda>m'. jm_id m' = jm_id m) (mj_stream j) then j else j\<lparr>mj_stream := mj_stream j @ [m]\<rparr>))\<rparr>"

interpretation gjs: jetstream_service good_js mj_stream
  by unfold_locales (auto simp: good_js_def list_ex_iff intro!: exI[of _ 0] split: if_splits)

definition pay_again ::
  "(memdb, memredis, memjs) world \<Rightarrow> (goerr + any_result) \<times> (memdb, memredis, memjs) world" where
  "pay_again = handleTransfer (mem_bob no_ilike True) (mem_RunInTx True) (mem_redis True) (Some (PublishTransferEvent good_js))
     half quiet_sleep sample_ctx ''transfer'' pay_bob (\<lambda>_. [])"

lemma pay_again_replies:
  "fst (pay_again (sample_world [])) = reply 200 (JObj [(''transfer_id'', JInt 1), (''amount'', JInt 30)])"
  "fst (pay_again (snd (pay_again (sample_world [])))) = reply 200 (JObj [(''transfer_id'', JInt 2), (''amount'', JInt 30)])"
  "mj_stream (w_js (sample_world [])) = []"
  by (code_simp, code_simp, code_simp)

theorem repeated_request_is_a_new_transfer_witness:
  "event_appended [] (mj_stream (w_js (snd (pay_again (sample_world []))))) 1 \<and>
   event_appended (mj_stream (w_js (snd (pay_again (sample_world [])))))
     (mj_stream (w_js (snd (pay_again (snd (pay_again (sample_world []))))))) 2"
proof -
  let ?w1 = "snd (pay_again (sample_world []))"
  note h = pay_again_def[THEN fun_cong]
  have r1: "pay_again (sample_world []) = (reply 200 (JObj [(''transfer_id'', JInt 1), (''amount'', JInt 30)]), ?w1)"
    and r2: "pay_again ?w1 = (reply 200 (JObj [(''transfer_id'', JInt 2), (''amount'', JInt 30)]), snd (pay_again ?w1))"
    using pay_again_replies by (simp_all add: prod_eq_iff)
  have js: "\<forall>m j. fst (js_PublishMsg good_js m j) = None" by (simp add: good_js_def)
  have known: "stream_known mj_stream m_db (sample_world [])" by (simp add: stream_known_def pay_again_replies(3))
  have tr: "keeps_transfers m_db quiet_sleep" by (simp add: keeps_transfers_def quiet_sleep_def)
  show ?thesis
    using repeated_request_is_a_new_transfer[OF sample_backend sample_hyps(2) tr sample_hyps(3,1) gjs.jetstream_service_axioms js
        known r1[unfolded pay_again_def] r2[unfolded pay_again_def]]
    by (simp add: pay_again_replies(3) pay_again_def)
qed

end
