(* ===== verification/Masking_Passwords.thy ===== *)
theory Masking_Passwords
  imports Go_Json
begin

text \<open>
  The masking helpers of \<^verbatim>\<open>internal/logging/logging.go\<close> and the password functions of
  \<^verbatim>\<open>internal/auth/auth.go\<close>. bcrypt itself is an argument: \<open>gen\<close> is \<^verbatim>\<open>GenerateFromPassword\<close> (password
  and cost), \<open>compare\<close> is \<^verbatim>\<open>CompareHashAndPassword\<close>. \<open>bcrypt_law\<close> states its documented behaviour.
\<close>

section \<open>Masking\<close>

definition stars :: "nat \<Rightarrow> string" where
  "stars n = replicate n (CHR ''*'')"

definition MaskPhone :: "string \<Rightarrow> string" where
  "MaskPhone phone0 =
     (let phone = TrimSpace phone0 in
      if length phone \<le> 4 then stars (length phone)
      else take 2 phone @ stars (length phone - 4) @ drop (length phone - 2) phone)"

definition MaskAccount :: "string \<Rightarrow> string" where
  "MaskAccount acct =
     (if length acct \<le> 6 then stars (length acct)
      else take 4 acct @ stars (length acct - 6) @ drop (length acct - 2) acct)"

section \<open>Passwords\<close>

definition bcryptRounds :: "(string \<Rightarrow> string) \<Rightarrow> int" where
  "bcryptRounds env =
     (let s = env ''BCRYPT_ROUNDS'' in
      if s \<noteq> [] then (case Atoi s of Some n \<Rightarrow> (if 4 \<le> n \<and> n \<le> 31 then n else 10) | None \<Rightarrow> 10) else 10)"

definition HashPassword :: "(string \<Rightarrow> int \<Rightarrow> goerr + string) \<Rightarrow> (string \<Rightarrow> string) \<Rightarrow> string \<Rightarrow> goerr + string" where
  "HashPassword gen env pw =
     (case gen pw (bcryptRounds env) of
        Inl e \<Rightarrow> Inl (Wrapf ''hash password'' e)
      | Inr hash \<Rightarrow> Inr hash)"

definition VerifyPassword :: "(string \<Rightarrow> string \<Rightarrow> goerr option) \<Rightarrow> string \<Rightarrow> string \<Rightarrow> bool" where
  "VerifyPassword compare pw hash \<longleftrightarrow> compare hash pw = None"

text \<open>A hash bcrypt generated verifies the password it was generated from.\<close>

definition bcrypt_law ::
  "(string \<Rightarrow> int \<Rightarrow> goerr + string) \<Rightarrow> (string \<Rightarrow> string \<Rightarrow> goerr option) \<Rightarrow> bool" where
  "bcrypt_law gen compare \<longleftrightarrow>
     (\<forall>pw cost hash. gen pw cost = Inr hash \<longrightarrow> compare hash pw = None)"

section \<open>Facts\<close>

lemma bcryptRounds_range: "4 \<le> bcryptRounds env \<and> bcryptRounds env \<le> 31"
  by (auto simp: bcryptRounds_def Let_def split: option.splits)

lemma Hash_Verify: "bcrypt_law gen compare \<Longrightarrow> HashPassword gen env pw = Inr h \<Longrightarrow> VerifyPassword compare pw h"
  by (auto simp: bcrypt_law_def HashPassword_def VerifyPassword_def split: sum.splits)

lemma MaskPhone_length: "length (MaskPhone p) = length (TrimSpace p)"
  by (auto simp: MaskPhone_def stars_def Let_def)

text \<open>A masked phone number has the length of the trimmed number and shows at most its
  first two and last two characters; of a number of up to four characters it shows nothing.\<close>

lemma MaskPhone_hides:
  "length (MaskPhone p) = length (TrimSpace p) \<and>
   (\<forall>i < length (TrimSpace p).
      MaskPhone p ! i =
        (if 4 < length (TrimSpace p) \<and> (i < 2 \<or> length (TrimSpace p) - 2 \<le> i)
         then TrimSpace p ! i else CHR ''*''))"
proof (intro conjI allI impI)
  show "length (MaskPhone p) = length (TrimSpace p)" by (rule MaskPhone_length)
next
  fix i assume i: "i < length (TrimSpace p)"
  show "MaskPhone p ! i = (if 4 < length (TrimSpace p) \<and> (i < 2 \<or> length (TrimSpace p) - 2 \<le> i)
         then TrimSpace p ! i else CHR ''*'')"
  proof (cases "length (TrimSpace p) \<le> 4")
    case True
    with i show ?thesis by (simp add: MaskPhone_def stars_def)
  next
    case False
    with i show ?thesis
      by (auto simp: MaskPhone_def stars_def Let_def nth_append min_def
          intro!: arg_cong[of _ _ "(!) (TrimSpace p)"])
  qed
qed

end
