(* ===== verification/Go_Scan.thy ===== *)
theory Go_Scan
  imports Go_Json
begin

text \<open>
  \<^verbatim>\<open>strconv.ParseInt(s, 0, 64)\<close> and \<^verbatim>\<open>fmt.Sscan\<close> into an \<^verbatim>\<open>int\<close>, which the admin user-detail action
  uses: an optional sign, an optional base prefix, digits with underscores, and anything after them
  is left unread.
\<close>

definition lower :: "char \<Rightarrow> char" where
  "lower c = ascii_lower c"

definition base_digit :: "char \<Rightarrow> nat option" where
  "base_digit c =
     (if is_digit c then Some (digit_val c)
      else if CHR ''a'' = lower c then Some 10 else if CHR ''b'' = lower c then Some 11
      else if CHR ''c'' = lower c then Some 12 else if CHR ''d'' = lower c then Some 13
      else if CHR ''e'' = lower c then Some 14 else if CHR ''f'' = lower c then Some 15
      else None)"

fun digits_in :: "nat \<Rightarrow> string \<Rightarrow> nat \<Rightarrow> nat option" where
  "digits_in base [] n = Some n"
| "digits_in base (c # cs) n =
     (if c = CHR ''_'' then digits_in base cs n
      else (case base_digit c of
              None \<Rightarrow> None
            | Some d \<Rightarrow> (if base \<le> d then None else digits_in base cs (n * base + d))))"

text \<open>\<open>underscoreOK\<close>: an underscore stands between digits, or between the prefix and a digit. The
  state is the kind of the previous character: \<^verbatim>\<open>^\<close> at the start, \<^verbatim>\<open>0\<close> a digit, \<^verbatim>\<open>_\<close>, \<^verbatim>\<open>!\<close>.\<close>

fun underscore_run :: "bool \<Rightarrow> char \<Rightarrow> string \<Rightarrow> bool" where
  "underscore_run hex prev [] \<longleftrightarrow> prev \<noteq> CHR ''_''"
| "underscore_run hex prev (c # cs) \<longleftrightarrow>
     (if is_digit c \<or> (hex \<and> base_digit c \<noteq> None) then underscore_run hex (CHR ''0'') cs
      else if c = CHR ''_'' then prev = CHR ''0'' \<and> underscore_run hex (CHR ''_'') cs
      else prev \<noteq> CHR ''_'' \<and> underscore_run hex (CHR ''!'') cs)"

definition has_prefix :: "string \<Rightarrow> bool" where
  "has_prefix s \<longleftrightarrow> 2 \<le> length s \<and> s ! 0 = CHR ''0'' \<and> lower (s ! 1) \<in> {CHR ''b'', CHR ''o'', CHR ''x''}"

definition underscoreOK :: "string \<Rightarrow> bool" where
  "underscoreOK s =
     (if has_prefix s then underscore_run (lower (s ! 1) = CHR ''x'') (CHR ''0'') (drop 2 s)
      else underscore_run False (CHR ''^'') s)"

definition parse_base0 :: "string \<Rightarrow> nat option" where
  "parse_base0 s =
     (if s = [] then None
      else (let (base, body) =
              (if s ! 0 \<noteq> CHR ''0'' then (10, s)
               else if 3 \<le> length s \<and> lower (s ! 1) = CHR ''b'' then (2, drop 2 s)
               else if 3 \<le> length s \<and> lower (s ! 1) = CHR ''o'' then (8, drop 2 s)
               else if 3 \<le> length s \<and> lower (s ! 1) = CHR ''x'' then (16, drop 2 s)
               else (8, drop 1 s))
            in (case digits_in base body 0 of
                  None \<Rightarrow> None
                | Some n \<Rightarrow> (if CHR ''_'' \<in> set s \<and> \<not> underscoreOK s then None else Some n))))"

definition ParseInt0 :: "string \<Rightarrow> int option" where
  "ParseInt0 s =
     (let neg = (s \<noteq> [] \<and> hd s = CHR ''-'');
          body = (if s \<noteq> [] \<and> hd s \<in> {CHR ''-'', CHR ''+''} then tl s else s)
      in (case parse_base0 body of
            None \<Rightarrow> None
          | Some n \<Rightarrow> (let i = (if neg then - int n else int n) in if in64 i then Some i else None)))"

text \<open>The token \<^verbatim>\<open>scanInt\<close> reads for the verb \<^verbatim>\<open>v\<close>; \<open>None\<close> is \<^verbatim>\<open>expected integer\<close>.\<close>

definition scan_token :: "string \<Rightarrow> string option" where
  "scan_token s =
     (let (sign, r) = (if s \<noteq> [] \<and> hd s \<in> {CHR ''-'', CHR ''+''} then ([hd s], tl s) else ([], s)) in
      if r \<noteq> [] \<and> hd r = CHR ''0''
      then (let (pre, digs, rest) =
              (if 2 \<le> length r \<and> lower (r ! 1) = CHR ''b'' then (take 2 r, ''01_'', drop 2 r)
               else if 2 \<le> length r \<and> lower (r ! 1) = CHR ''o'' then (take 2 r, ''01234567_'', drop 2 r)
               else if 2 \<le> length r \<and> lower (r ! 1) = CHR ''x''
                 then (take 2 r, ''0123456789aAbBcCdDeEfF_'', drop 2 r)
               else (take 1 r, ''01234567_'', drop 1 r))
            in Some (sign @ pre @ takeWhile (\<lambda>c. c \<in> set digs) rest))
      else (let ds = takeWhile (\<lambda>c. is_digit c \<or> c = CHR ''_'') r
            in if ds = [] then None else Some (sign @ ds)))"

text \<open>\<open>s\<close> has no leading space here: the caller trims it.\<close>

definition Sscan_int :: "string \<Rightarrow> int option" where
  "Sscan_int s = (case scan_token s of None \<Rightarrow> None | Some tok \<Rightarrow> ParseInt0 tok)"

lemma Sscan_int_range: "Sscan_int s = Some i \<Longrightarrow> in64 i"
  by (auto simp: Sscan_int_def ParseInt0_def Let_def split: option.splits if_splits)

lemma Sscan_int_samples:
  "Sscan_int ''42'' = Some 42" "Sscan_int ''12abc'' = Some 12" "Sscan_int ''0x1F'' = Some 31"
  "Sscan_int ''1_0'' = Some 10" "Sscan_int ''abc'' = None" "Sscan_int ''-7'' = Some (-7)"
  "Sscan_int ''09'' = Some 0" "Sscan_int ''1__0'' = None"
  by code_simp+

end
