(* ===== verification/Account_Service.thy ===== *)
theory Account_Service
  imports Rpc_Consumer Jetstream Masking_Passwords Go_Scan
begin

text \<open>
  \<^verbatim>\<open>services/account-service\<close>: profile, balance and lookup, the admin listings with their
  pagination, and the balance projection that consumes the transfer events.
\<close>

section \<open>User actions\<close>

definition userToAdminView :: "user \<Rightarrow> json" where
  "userToAdminView u =
     JObj [(''id'', JInt (u_id u)), (''phone'', JStr (MaskPhone (u_phone u))),
           (''account_number'', JStr (u_account_number u)), (''username'', JStr (u_username u)),
           (''balance'', JInt (u_balance u)), (''is_admin'', JBool (u_is_admin u))]"

definition handleMe :: "'c bobdb \<Rightarrow> ('c, 'r, 'j) handler" where
  "handleMe B ctx action raw headers w =
     (let userID = fst (UserIDFromContext ctx) in
      case QueryUser B ColId (ArgInt userID) (w_db w) of
        (Inl e, c') \<Rightarrow>
          (if IsNotFound (Some e) then reply 404 (detail ''User not found'') else Inl (Wrapf ''query user'' e),
           w\<lparr>w_db := c'\<rparr>)
      | (Inr u, c') \<Rightarrow> (reply 200 (userToAdminView u), w\<lparr>w_db := c'\<rparr>))"

definition queryBalanceFromDB :: "'c bobdb \<Rightarrow> int \<Rightarrow> 'c \<Rightarrow> (goerr + int) \<times> 'c" where
  "queryBalanceFromDB B userID c =
     apfst scan_int (bob_One B (SelectUsers ProjBalance (UserEq ColId (ArgInt userID)) Unordered None False) c)"

definition handleBalance :: "'c bobdb \<Rightarrow> 'r redis \<Rightarrow> ('c, 'r, 'j) handler" where
  "handleBalance B R ctx action raw headers w =
     (let userID = fst (UserIDFromContext ctx) in
      case GetBalance R userID (w_redis w) of
        (Inl e, r1) \<Rightarrow> (Inl (Wrapf ''get balance'' e), w\<lparr>w_redis := r1\<rparr>)
      | (Inr (Some balance), r1) \<Rightarrow> (reply 200 (JObj [(''balance'', JInt balance)]), w\<lparr>w_redis := r1\<rparr>)
      | (Inr None, r1) \<Rightarrow>
          (case queryBalanceFromDB B userID (w_db w) of
             (Inl e, c1) \<Rightarrow>
               (if IsNotFound (Some e) then reply 404 (detail ''User not found'') else Inl (Wrapf ''get balance'' e),
                w\<lparr>w_redis := r1, w_db := c1\<rparr>)
           | (Inr balance, c1) \<Rightarrow>
               (reply 200 (JObj [(''balance'', JInt balance)]),
                w\<lparr>w_redis := snd (SetBalance R userID balance r1), w_db := c1\<rparr>)))"

record lookup_payload =
  lp_account_number :: string
  lp_phone :: string
  lp_username :: string

definition lookup_payload_set :: "string \<Rightarrow> json \<Rightarrow> lookup_payload \<Rightarrow> lookup_payload option" where
  "lookup_payload_set f v p =
     (if f = ''account_number''
        then map_option (\<lambda>x. p\<lparr>lp_account_number := x\<rparr>) (decode_string v (lp_account_number p))
      else if f = ''phone'' then map_option (\<lambda>x. p\<lparr>lp_phone := x\<rparr>) (decode_string v (lp_phone p))
      else map_option (\<lambda>x. p\<lparr>lp_username := x\<rparr>) (decode_string v (lp_username p)))"

definition decode_lookup :: "raw_message \<Rightarrow> lookup_payload option" where
  "decode_lookup raw =
     unmarshal_obj [''account_number'', ''phone'', ''username''] lookup_payload_set
       \<lparr>lp_account_number = [], lp_phone = [], lp_username = []\<rparr> raw"

definition handleLookup :: "'c bobdb \<Rightarrow> ('c, 'r, 'j) handler" where
  "handleLookup B ctx action raw headers w =
     (case decode_lookup raw of
        None \<Rightarrow> (reply 400 (detail ''invalid payload''), w)
      | Some p \<Rightarrow>
          (let acct = TrimSpace (lp_account_number p); phone = TrimSpace (lp_phone p);
               username = TrimSpace (lp_username p) in
           if acct = [] \<and> phone = [] \<and> username = []
           then (reply 400 (detail ''provide account_number, phone, or username''), w)
           else (case UserIdentifierCol acct phone username of (col, val) \<Rightarrow>
             (case QueryUser B col (ArgText val) (w_db w) of
                (Inl e, c') \<Rightarrow>
                  (if IsNotFound (Some e) then reply 404 (detail ''User not found'') else Inl (Wrapf ''lookup user'' e),
                   w\<lparr>w_db := c'\<rparr>)
              | (Inr u, c') \<Rightarrow>
                  (reply 200 (JObj [(''id'', JInt (u_id u)), (''account_number'', JStr (u_account_number u)),
                                    (''username'', JStr (u_username u))]), w\<lparr>w_db := c'\<rparr>)))))"

section \<open>Pagination\<close>

definition maxPage :: int where
  "maxPage = 200"

definition paginate :: "raw_message \<Rightarrow> int \<times> int" where
  "paginate raw =
     (case unmarshal_smap raw of
        None \<Rightarrow> (1, 20)
      | Some m \<Rightarrow>
          (let page = (case Atoi (smap_get m ''page'') of Some v \<Rightarrow> (if 0 < v then v else 1) | None \<Rightarrow> 1);
               pageSize = (case Atoi (smap_get m ''size'') of
                         Some v \<Rightarrow> (if 0 < v \<and> v \<le> 100 then v else 20) | None \<Rightarrow> 20)
           in (if maxPage < page then maxPage else page, pageSize)))"

definition pages_of :: "int \<Rightarrow> int \<Rightarrow> int" where
  "pages_of totalCount pageSize = go_div (i64 (i64 (totalCount + pageSize) - 1)) pageSize"

section \<open>Admin actions\<close>

type_synonym stats_vars = "(int \<times> int) \<times> (int \<times> int) \<times> int"

fun scan_stats :: "goerr + row \<Rightarrow> goerr + int \<times> int" where
  "scan_stats (Inr (StatsRow n s)) = Inr (n, s)"
| "scan_stats (Inr _) = Inl (OtherErr ''scan'')"
| "scan_stats (Inl e) = Inl e"

definition stats_tx :: "'c bobdb \<Rightarrow> (stats_vars, 'c) tx_fun" where
  "stats_tx B vars c =
     (case apfst scan_stats (bob_One B UserStats c) of
        (Inl e, c1) \<Rightarrow> (Some (Wrapf ''query user stats'' e), ((0, 0), snd vars), c1)
      | (Inr stats, c1) \<Rightarrow>
          (case apfst scan_stats (bob_One B TransferStats c1) of
             (Inl e, c2) \<Rightarrow> (Some (Wrapf ''query transfer stats'' e), (stats, (0, 0), snd (snd vars)), c2)
           | (Inr txStats, c2) \<Rightarrow>
               (case apfst scan_int (bob_One B CountNotifications c2) of
                  (Inl e, c3) \<Rightarrow> (Some e, (stats, txStats, 0), c3)
                | (Inr n, c3) \<Rightarrow> (None, (stats, txStats, n), c3))))"

definition handleAdminStats ::
  "'c bobdb \<Rightarrow> ((stats_vars, 'c) tx_fun \<Rightarrow> (stats_vars, 'c) tx_fun) \<Rightarrow> ('c, 'r, 'j) handler" where
  "handleAdminStats B RunInTx ctx action raw headers w =
     (case RunInTx (stats_tx B) ((0, 0), (0, 0), 0) (w_db w) of
        (Some e, _, c') \<Rightarrow> (Inl (Wrapf ''query admin stats'' e), w\<lparr>w_db := c'\<rparr>)
      | (None, ((userCount, totalBalance), (txCount, volume), notifCount), c') \<Rightarrow>
          (reply 200 (JObj [(''user_count'', JInt userCount), (''transfer_count'', JInt txCount),
                            (''total_balance'', JInt totalBalance), (''total_transfer_amount'', JInt volume),
                            (''total_notifications'', JInt notifCount)]), w\<lparr>w_db := c'\<rparr>))"

definition paged :: "string \<Rightarrow> json list \<Rightarrow> int \<Rightarrow> int \<Rightarrow> int \<Rightarrow> json" where
  "paged name rows totalCount page pageSize =
     JObj [(name, JArr rows), (''total'', JInt totalCount), (''page'', JInt page), (''size'', JInt pageSize),
           (''pages'', JInt (pages_of totalCount pageSize))]"

definition search_term :: "raw_message \<Rightarrow> string" where
  "search_term raw =
     (case unmarshal_obj [''search''] (\<lambda>f v s. decode_string v s) [] raw of
        None \<Rightarrow> [] | Some s \<Rightarrow> TrimSpace s)"

definition handleAdminUsers :: "'c bobdb \<Rightarrow> ('c, 'r, 'j) handler" where
  "handleAdminUsers B ctx action raw headers w =
     (case paginate raw of (page, pageSize) \<Rightarrow>
       (let search = search_term raw;
            wh = (if search \<noteq> [] then UserSearch (''%'' @ search @ ''%'') else AllUsers) in
        case apfst scan_all_users
               (bob_All B (SelectUsers ProjUser wh IdDesc (Some (pageSize, i64 (i64 (page - 1) * pageSize))) False) (w_db w)) of
          (Inl e, c1) \<Rightarrow> (Inl (Wrapf ''query users'' e), w\<lparr>w_db := c1\<rparr>)
        | (Inr us, c1) \<Rightarrow>
            (case apfst scan_int (bob_One B (CountUsers wh) c1) of
               (Inl e, c2) \<Rightarrow> (Inl (Wrapf ''count users'' e), w\<lparr>w_db := c2\<rparr>)
             | (Inr totalCount, c2) \<Rightarrow>
                 (reply 200 (paged ''users'' (map userToAdminView us) totalCount page pageSize), w\<lparr>w_db := c2\<rparr>))))"

fun dedup :: "int list \<Rightarrow> int list \<Rightarrow> int list" where
  "dedup seen [] = []"
| "dedup seen (x # xs) = (if x \<in> set seen then dedup seen xs else x # dedup (x # seen) xs)"

fun scan_id_names :: "row list \<Rightarrow> (int \<times> string) list option" where
  "scan_id_names [] = Some []"
| "scan_id_names (IdNameRow i s # rs) = map_option ((#) (i, s)) (scan_id_names rs)"
| "scan_id_names _ = None"

definition resolveUserNames :: "'c bobdb \<Rightarrow> int list \<Rightarrow> 'c \<Rightarrow> (goerr + (int \<rightharpoonup> string)) \<times> 'c" where
  "resolveUserNames B ids c =
     (if ids = [] then (Inr Map.empty, c)
      else (case bob_All B (SelectUsers ProjIdName (UserIdIn (dedup [] ids)) Unordered None False) c of
              (Inl e, c') \<Rightarrow> (Inl (Wrapf ''query usernames'' e), c')
            | (Inr rows, c') \<Rightarrow>
                (case scan_id_names rows of
                   None \<Rightarrow> (Inl (Wrapf ''query usernames'' (OtherErr ''scan'')), c')
                 | Some xs \<Rightarrow> (Inr (foldl (\<lambda>m (i, s). m(i \<mapsto> s)) Map.empty xs), c'))))"

fun scan_transfers :: "row list \<Rightarrow> transfer list option" where
  "scan_transfers [] = Some []"
| "scan_transfers (TransferRow t # rs) = map_option ((#) t) (scan_transfers rs)"
| "scan_transfers _ = None"

definition name_of :: "(int \<rightharpoonup> string) \<Rightarrow> int \<Rightarrow> string" where
  "name_of m i = (case m i of None \<Rightarrow> [] | Some s \<Rightarrow> s)"

definition transferResponse :: "(int \<rightharpoonup> string) \<Rightarrow> transfer \<Rightarrow> json" where
  "transferResponse userNames t =
     JObj [(''id'', JInt (t_id t)), (''from_user'', JInt (t_from_user t)), (''to_user'', JInt (t_to_user t)),
           (''from_username'', JStr (name_of userNames (t_from_user t))),
           (''to_username'', JStr (name_of userNames (t_to_user t))),
           (''amount'', JInt (t_amount t)), (''created_at'', JInt (t_created_at t))]"

definition handleAdminTransfers :: "'c bobdb \<Rightarrow> ('c, 'r, 'j) handler" where
  "handleAdminTransfers B ctx action raw headers w =
     (case paginate raw of (page, pageSize) \<Rightarrow>
       (case apfst scan_int (bob_One B CountTransfers (w_db w)) of
          (Inl e, c1) \<Rightarrow> (Inl (Wrapf ''count transfers'' e), w\<lparr>w_db := c1\<rparr>)
        | (Inr totalCount, c1) \<Rightarrow>
            (let offset = i64 (i64 (page - 1) * pageSize) in
             if offset < totalCount
             then (case bob_All B (SelectTransfers IdDesc (Some (pageSize, offset))) c1 of
                     (Inl e, c2) \<Rightarrow> (Inl (Wrapf ''query transfers'' e), w\<lparr>w_db := c2\<rparr>)
                   | (Inr rows, c2) \<Rightarrow>
                       (case scan_transfers rows of
                          None \<Rightarrow> (Inl (Wrapf ''query transfers'' (OtherErr ''scan'')), w\<lparr>w_db := c2\<rparr>)
                        | Some ts \<Rightarrow>
                            (case resolveUserNames B (concat (map (\<lambda>t. [t_from_user t, t_to_user t]) ts)) c2 of
                               (Inl e, c3) \<Rightarrow> (Inl e, w\<lparr>w_db := c3\<rparr>)
                             | (Inr userNames, c3) \<Rightarrow>
                                 (reply 200 (paged ''transfers'' (map (transferResponse userNames) ts) totalCount page pageSize),
                                  w\<lparr>w_db := c3\<rparr>))))
             else (reply 200 (paged ''transfers'' [] totalCount page pageSize), w\<lparr>w_db := c1\<rparr>))))"

fun scan_notifications :: "row list \<Rightarrow> notification list option" where
  "scan_notifications [] = Some []"
| "scan_notifications (NotificationRow n # rs) = map_option ((#) n) (scan_notifications rs)"
| "scan_notifications _ = None"

definition scan_all_notifications :: "goerr + row list \<Rightarrow> goerr + notification list" where
  "scan_all_notifications r =
     (case r of Inl e \<Rightarrow> Inl e
      | Inr rs \<Rightarrow> (case scan_notifications rs of None \<Rightarrow> Inl (OtherErr ''scan'') | Some ns \<Rightarrow> Inr ns))"

definition handleAdminNotifications :: "'c bobdb \<Rightarrow> ('c, 'r, 'j) handler" where
  "handleAdminNotifications B ctx action raw headers w =
     (case paginate raw of (page, pageSize) \<Rightarrow>
       (case apfst scan_all_notifications
               (bob_All B (SelectNotifications None IdDesc (Some (pageSize, i64 (i64 (page - 1) * pageSize)))) (w_db w)) of
          (Inl e, c1) \<Rightarrow> (Inl (Wrapf ''query notifications'' e), w\<lparr>w_db := c1\<rparr>)
        | (Inr ns, c1) \<Rightarrow>
            (case apfst scan_int (bob_One B CountNotifications c1) of
               (Inl e, c2) \<Rightarrow> (Inl (Wrapf ''count notifications'' e), w\<lparr>w_db := c2\<rparr>)
             | (Inr totalCount, c2) \<Rightarrow>
                 (reply 200 (paged ''notifications'' (map NotificationToMap ns) totalCount page pageSize), w\<lparr>w_db := c2\<rparr>))))"

definition handleAdminUserDetail :: "'c bobdb \<Rightarrow> ('c, 'r, 'j) handler" where
  "handleAdminUserDetail B ctx action raw headers w =
     (case unmarshal_smap raw of
        None \<Rightarrow> (reply 400 (detail ''invalid payload''), w)
      | Some params \<Rightarrow>
          (let userIDStr = TrimSpace (smap_get params ''user_id'') in
           if userIDStr = [] then (reply 400 (detail ''user_id is required''), w)
           else (case Sscan_int userIDStr of
                   None \<Rightarrow> (reply 400 (detail ''user_id must be a positive integer''), w)
                 | Some targetID \<Rightarrow>
                     (if targetID \<le> 0 then (reply 400 (detail ''user_id must be a positive integer''), w)
                      else (case apfst scan_user (bob_One B
                               (SelectUsers ProjUser (UserEq ColId (ArgInt targetID)) Unordered None False) (w_db w)) of
                              (Inl e, c') \<Rightarrow>
                                (if IsNotFound (Some e) then reply 404 (detail ''User not found'')
                                 else Inl (Wrapf ''query user detail'' e), w\<lparr>w_db := c'\<rparr>)
                            | (Inr u, c') \<Rightarrow> (reply 200 (userToAdminView u), w\<lparr>w_db := c'\<rparr>))))))"

section \<open>The balance projection\<close>

datatype msg_reply = Ack | Nak | NakWithDelay int

text \<open>The callback of \<^verbatim>\<open>runBalanceProjection\<close> on one delivered message.\<close>

definition project_message :: "'r redis \<Rightarrow> raw_message \<Rightarrow> 'r \<Rightarrow> msg_reply \<times> 'r" where
  "project_message R data r =
     (case decode_transfer_completed data of
        None \<Rightarrow> (Nak, r)
      | Some evt \<Rightarrow>
          (case SetBalanceBatch R (tc_sender_id evt) (tc_sender_balance evt)
                  (tc_receiver_id evt) (tc_receiver_balance evt) r of
             (Some e, r') \<Rightarrow> (NakWithDelay (5 * second), r')
           | (None, r') \<Rightarrow> (Ack, r')))"

end
