(* ===== verification/Db_Shared.thy ===== *)
theory Db_Shared
  imports Db_Access Db_Memory
begin

text \<open>
  The database as a statement outside a serializable transaction sees it: other sessions may commit
  before every statement. \<open>busy act B\<close> is the driver \<open>B\<close> on which the commits of the other sessions, \<open>act\<close>,
  come first; the locale \<open>shared_postgres\<close> bounds them by a relation \<open>others\<close> on the tables (the rely), and
  its lemmas say what a statement returns and leaves in terms of the tables at its own moment.
  \<open>read_committed\<close> is the contract of \<^verbatim>\<open>RunInTx\<close> for a read-only transaction at PostgreSQL's default
  isolation level, at which every statement has its own snapshot.
\<close>

definition busy :: "('c \<Rightarrow> 'c) \<Rightarrow> 'c bobdb \<Rightarrow> 'c bobdb" where
  "busy act B =
     \<lparr>bob_One = (\<lambda>st c. bob_One B st (act c)), bob_All = (\<lambda>st c. bob_All B st (act c)),
      bob_Exec = (\<lambda>st c. bob_Exec B st (act c))\<rparr>"

lemma busy_simps [simp]:
  "bob_One (busy act B) st c = bob_One B st (act c)" "bob_All (busy act B) st c = bob_All B st (act c)"
  "bob_Exec (busy act B) st c = bob_Exec B st (act c)"
  by (simp_all add: busy_def)

lemma busy_quiet [simp]: "busy (\<lambda>c. c) B = B"
  by (simp add: busy_def)

lemma busy_QueryUser [simp]: "QueryUser (busy act B) col v c = QueryUser B col v (act c)"
  by (simp add: QueryUser_def)

text \<open>The statements that change nothing, whether they succeed or fail.\<close>

fun is_select :: "stmt \<Rightarrow> bool" where
  "is_select (InsertUser _ _ _ _) = False"
| "is_select (UpdateBalances _ _ _) = False"
| "is_select (InsertTransfer _ _ _) = False"
| "is_select (InsertNotifications _) = False"
| "is_select (AckNotification _ _) = False"
| "is_select _ = True"

lemma select_sem: "is_select st \<Longrightarrow> sql_sem ilike st d rows n d' \<Longrightarrow> d' = d"
  by (cases st) auto

lemma select_err: "is_select st \<Longrightarrow> err_effect ilike st d e d' \<Longrightarrow> d' = d"
  by (auto simp: err_effect_def dest: select_sem)

context postgres
begin

lemma select_One:
  assumes "is_select st" and "bob_One B st c = (q, c')"
  shows "tables c' = tables c"
proof (cases q)
  case (Inl e)
  with assms one_none[of st c e c'] one_err[of st c e c'] select_sem[OF assms(1)] select_err[OF assms(1)]
  show ?thesis by blast
next
  case (Inr r)
  with assms one_row[of st c r c'] select_sem[OF assms(1)] show ?thesis by blast
qed

lemma select_All:
  assumes "is_select st" and "bob_All B st c = (q, c')"
  shows "tables c' = tables c"
proof (cases q)
  case (Inl e)
  with assms all_err[of st c e c'] select_err[OF assms(1)] show ?thesis by blast
next
  case (Inr rs)
  with assms all_rows[of st c rs c'] select_sem[OF assms(1)] show ?thesis by blast
qed

end

section \<open>The rely\<close>

lemma nobody_else [simp]: "(=)\<^sup>*\<^sup>* a b \<longleftrightarrow> a = b"
proof
  show "(=)\<^sup>*\<^sup>* a b \<Longrightarrow> a = b" by (induction rule: rtranclp_induct) simp_all
qed simp

text \<open>What other sessions do keeps the schema.\<close>

definition stable_wf :: "(db \<Rightarrow> db \<Rightarrow> bool) \<Rightarrow> bool" where
  "stable_wf others \<longleftrightarrow> (\<forall>d d'. others d d' \<longrightarrow> db_wf d \<longrightarrow> db_wf d')"

lemma stable_wfD: "others\<^sup>*\<^sup>* d d' \<Longrightarrow> stable_wf others \<Longrightarrow> db_wf d \<Longrightarrow> db_wf d'"
  by (induction rule: rtranclp_induct) (auto simp: stable_wf_def)

lemma stable_eq: "stable_wf (=)"
  by (simp add: stable_wf_def)

locale shared_postgres = postgres +
  fixes act :: "'a \<Rightarrow> 'a" and others :: "db \<Rightarrow> db \<Rightarrow> bool"
  assumes others_act: "others\<^sup>*\<^sup>* (tables c) (tables (act c))"
begin

lemma shared_One: "is_select st \<Longrightarrow> bob_One (busy act B) st c = (q, c') \<Longrightarrow> others\<^sup>*\<^sup>* (tables c) (tables c')"
  using select_One[of st "act c" q c'] others_act[of c] by simp

lemma shared_All: "is_select st \<Longrightarrow> bob_All (busy act B) st c = (q, c') \<Longrightarrow> others\<^sup>*\<^sup>* (tables c) (tables c')"
  using select_All[of st "act c" q c'] others_act[of c] by simp

lemma shared_One_apfst:
  "is_select st \<Longrightarrow> apfst f (bob_One (busy act B) st c) = (q, c') \<Longrightarrow> others\<^sup>*\<^sup>* (tables c) (tables c')"
  by (cases "bob_One (busy act B) st c") (auto dest: shared_One simp del: busy_simps)

lemma shared_All_apfst:
  "is_select st \<Longrightarrow> apfst f (bob_All (busy act B) st c) = (q, c') \<Longrightarrow> others\<^sup>*\<^sup>* (tables c) (tables c')"
  by (cases "bob_All (busy act B) st c") (auto dest: shared_All simp del: busy_simps)

lemma shared_QueryUser: "QueryUser (busy act B) col v c = (q, c') \<Longrightarrow> others\<^sup>*\<^sup>* (tables c) (tables c')"
  using QueryUser_tables[of col v "act c" q c'] others_act[of c] by simp

end

text \<open>A database that nobody else uses is the special case.\<close>

context postgres
begin

lemma exclusive: "shared_postgres B tables ilike (\<lambda>c. c) (=)"
  by unfold_locales simp

end

interpretation mem_alone: shared_postgres "mem_bob ilike faulty" m_db ilike "\<lambda>c. c" "(=)"
  by (rule mem.exclusive)

section \<open>Read-only transactions at the default level\<close>

text \<open>\<open>f\<close> changes nothing itself: whatever happens to the tables while it runs is the work of others.\<close>

definition reading_tx :: "('c \<Rightarrow> db) \<Rightarrow> (db \<Rightarrow> db \<Rightarrow> bool) \<Rightarrow> ('x, 'c) tx_fun \<Rightarrow> bool" where
  "reading_tx tables others f \<longleftrightarrow> (\<forall>x c r x' c'. f x c = (r, x', c') \<longrightarrow> others\<^sup>*\<^sup>* (tables c) (tables c'))"

locale read_committed =
  fixes RunInTx :: "('x, 'c) tx_fun \<Rightarrow> ('x, 'c) tx_fun" and tables :: "'c \<Rightarrow> db" and others :: "db \<Rightarrow> db \<Rightarrow> bool"
  assumes rc_ok: "RunInTx f x w = (None, x', w') \<Longrightarrow>
      \<exists>c c'. others\<^sup>*\<^sup>* (tables w) (tables c) \<and> f x c = (None, x', c') \<and> others\<^sup>*\<^sup>* (tables c') (tables w')"
    and rc_reads: "RunInTx f x w = (r, x', w') \<Longrightarrow> reading_tx tables others f \<Longrightarrow> others\<^sup>*\<^sup>* (tables w) (tables w')"

text \<open>A serializable transaction gives at least this.\<close>

context tx_runner
begin

lemma serializable_reads: "read_committed RunInTx tables others"
proof
  fix f x w x' w'
  assume "RunInTx f x w = (None, x', w')"
  from run_in_tx[OF this] obtain c c' where "tables c = tables w" "f x c = (None, x', c')" "tables w' = tables c'"
    by (auto simp: tx_outcome_None)
  then show "\<exists>c c'. others\<^sup>*\<^sup>* (tables w) (tables c) \<and> f x c = (None, x', c') \<and> others\<^sup>*\<^sup>* (tables c') (tables w')"
    by (intro exI[of _ c] exI[of _ c']) simp
next
  fix f x w r x' w'
  assume "RunInTx f x w = (r, x', w')" and "reading_tx tables others f"
  from run_in_tx[OF this(1)] this(2) show "others\<^sup>*\<^sup>* (tables w) (tables w')"
    unfolding reading_tx_def by (cases rule: tx_outcome.cases) (metis rtranclp.rtrancl_refl)+
qed

end

interpretation mem_rc: read_committed "mem_RunInTx faulty" m_db others
  by (rule mem_tx.serializable_reads)

end
