(* ===== verification/Account_Props.thy ===== *)
theory Account_Props
  imports Account_Service Sample_World Db_Shared
begin

text \<open>
  The properties of the account service: the bounds and the completeness of pagination, what the
  listings show, the balance read path, and the projection of transfer events.
\<close>

section \<open>Pagination\<close>

lemma paginate_range:
  "paginate raw = (page, s) \<Longrightarrow> 1 \<le> page \<and> page \<le> 200 \<and> 1 \<le> s \<and> s \<le> 100"
  by (auto simp: paginate_def maxPage_def Let_def split: option.splits if_splits)

lemma offset_exact:
  assumes "1 \<le> page" "page \<le> 200" "1 \<le> s" "s \<le> 100"
  shows "i64 (i64 (page - 1) * s) = (page - 1) * s" "0 \<le> (page - 1) * s" "(page - 1) * s \<le> 19900"
proof -
  show b: "(page - 1) * s \<le> 19900" using mult_mono[of "page - 1" 199 s 100] assms by simp
  show p: "0 \<le> (page - 1) * s" using assms by simp
  have "i64 (page - 1) = page - 1" using assms by (intro i64_id) (simp add: in64_def)
  then show "i64 (i64 (page - 1) * s) = (page - 1) * s"
    using b p by (simp add: i64_id in64_def)
qed

text \<open>Whatever the query parameters are, the page is between 1 and 200 and the size between
  1 and 100; so the offset is computed without overflow, lies between 0 and 19900, and the
  statements never carry a negative LIMIT or OFFSET.\<close>

lemma paginate_bounds:
  "case paginate raw of (page, s) \<Rightarrow>
     1 \<le> page \<and> page \<le> 200 \<and> 1 \<le> s \<and> s \<le> 100 \<and>
     i64 (i64 (page - 1) * s) = (page - 1) * s \<and> 0 \<le> (page - 1) * s \<and> (page - 1) * s \<le> 19900 \<and>
     page_errs (Some (s, i64 (i64 (page - 1) * s))) = []"
proof -
  obtain page s where p: "paginate raw = (page, s)" by fastforce
  with paginate_range[OF p] offset_exact[of page s] show ?thesis by (simp add: page_errs_def not_less)
qed

lemma pages_of_exact:
  assumes "0 \<le> n" "n \<le> 9223372036854775000" "1 \<le> s" "s \<le> 100"
  shows "pages_of n s = (n + s - 1) div s"
proof -
  have "i64 (n + s) = n + s" "i64 (n + s - 1) = n + s - 1" using assms by (auto intro!: i64_id simp: in64_def)
  then show ?thesis using assms by (simp add: pages_of_def go_div_nonneg)
qed

lemma concat_pages:
  assumes "0 < s"
  shows "concat (map (\<lambda>k. take s (drop (k * s) xs)) [0..<n]) = take (n * s) xs"
proof (induction n)
  case (Suc n)
  then show ?case by (simp add: take_add add.commute[of s])
qed simp

section \<open>Listings\<close>

lemma sorted_desc_unique:
  assumes "mset zs = mset xs" and "sorted_wrt (order_rel IdDesc f g) zs" and "distinct (map f xs)"
  shows "zs = rev (sort_key f xs)"
proof -
  have "sorted (map f (rev zs))"
    using assms(2) by (simp add: rev_map[symmetric] sorted_wrt_map sorted_wrt_rev sorted_map order_rel_eqs)
  moreover have "inj_on f (set xs)" using assms(3) by (simp add: distinct_map)
  moreover have "mset xs = mset (rev zs)" using assms(1) by simp
  ultimately have "sort_key f xs = rev zs" using sort_key_inj_key_eq by blast
  then show ?thesis by simp
qed

lemma selection_desc:
  assumes "selection (order_rel IdDesc f g) xs lim ys" and "distinct (map f xs)"
  shows "ys = page_of lim (rev (sort_key f xs))"
  using assms sorted_desc_unique unfolding selection_def by metis

lemma scan_transfers_map [simp]: "scan_transfers (map TransferRow ts) = Some ts"
  by (induction ts) simp_all

lemma scan_notifications_map [simp]: "scan_notifications (map NotificationRow ns) = Some ns"
  by (induction ns) simp_all

lemma scan_id_names_map [simp]:
  "scan_id_names (map (user_row ProjIdName) us) = Some (map (\<lambda>u. (u_id u, u_username u)) us)"
  by (induction us) simp_all

lemma dedup_set: "set (dedup seen xs) = set xs - set seen"
  by (induction seen xs rule: dedup.induct) auto

lemma fold_names:
  assumes "distinct (map fst xs)" and "(i, s) \<in> set xs"
  shows "foldl (\<lambda>m (i, s). m(i \<mapsto> s)) m0 xs i = Some s"
  using assms
proof (induction xs arbitrary: m0)
  case (Cons x xs)
  have keep: "foldl (\<lambda>m (i, s). m(i \<mapsto> s)) m1 ys j = m1 j" if "j \<notin> fst ` set ys" for m1 ys j
    using that by (induction ys arbitrary: m1) auto
  show ?case
  proof (cases "x = (i, s)")
    case True
    with Cons.prems have n: "i \<notin> fst ` set xs" by simp
    show ?thesis unfolding True foldl_Cons prod.case keep[OF n] by (rule fun_upd_same)
  next
    case False
    with Cons.prems have "distinct (map fst xs)" "(i, s) \<in> set xs" by auto
    from Cons.IH[OF this] show ?thesis by simp
  qed
qed simp

text \<open>Newest first, one page.\<close>

definition newest_page :: "('a \<Rightarrow> int) \<Rightarrow> int \<times> int \<Rightarrow> 'a list \<Rightarrow> 'a list" where
  "newest_page f ps xs = (case ps of (page, s) \<Rightarrow> take (nat s) (drop (nat ((page - 1) * s)) (rev (sort_key f xs))))"

lemma newest_page_selection:
  assumes "paginate raw = (page, s)"
    and "selection (order_rel IdDesc f g) xs (Some (s, i64 (i64 (page - 1) * s))) ys" and "distinct (map f xs)"
  shows "ys = newest_page f (paginate raw) xs"
proof -
  have "i64 (i64 (page - 1) * s) = (page - 1) * s" using offset_exact paginate_range[OF assms(1)] by blast
  with selection_desc[OF assms(2,3)] assms(1) show ?thesis by (simp add: newest_page_def page_of_def)
qed

text \<open>The query of a client that asks for page \<open>k\<close> of size \<open>s\<close>, as the gateway forwards it.\<close>

definition page_query :: "int \<Rightarrow> int \<Rightarrow> raw_message" where
  "page_query k s = Some (JObj [(''page'', JStr (Itoa k)), (''size'', JStr (Itoa s))])"

lemma paginate_page_query:
  assumes "1 \<le> k" and "in64 k" and "1 \<le> s" and "s \<le> 100"
  shows "paginate (page_query k s) = (min k 200, s)"
proof -
  have "in64 s" using assms by (simp add: in64_def)
  with assms show ?thesis
    by (simp add: paginate_def page_query_def unmarshal_smap_def smap_get_def Atoi_Itoa maxPage_def min_def)
qed

lemma pages_of_bounds:
  assumes "1 \<le> s" and "s \<le> 100" and "n \<le> 9223372036854775000" and "0 \<le> n"
  shows "0 \<le> pages_of n s" "n \<le> pages_of n s * s" "pages_of n s * s \<le> n + s - 1"
proof -
  have n: "pages_of n s = (n + s - 1) div s" using assms by (intro pages_of_exact) auto
  have m: "(n + s - 1) div s * s = n + s - 1 - (n + s - 1) mod s" by (simp add: minus_mod_eq_div_mult)
  have "0 \<le> (n + s - 1) mod s" "(n + s - 1) mod s < s" using assms(1) by simp_all
  with m show "n \<le> pages_of n s * s" "pages_of n s * s \<le> n + s - 1" unfolding n by linarith+
  show "0 \<le> pages_of n s" using n assms by (simp add: pos_imp_zdiv_nonneg_iff)
qed

lemma concat_newest_pages:
  assumes "1 \<le> s" and "s \<le> 100" and "m \<le> 200"
  shows "concat (map (\<lambda>k. newest_page f (paginate (page_query (int k) s)) xs) [1..<Suc m]) = take (m * nat s) (rev (sort_key f xs))"
proof -
  have "newest_page f (paginate (page_query (int (Suc k)) s)) xs = take (nat s) (drop (k * nat s) (rev (sort_key f xs)))"
    if "k < m" for k
  proof -
    have "paginate (page_query (int (Suc k)) s) = (int (Suc k), s)"
      using that assms by (subst paginate_page_query) (auto simp: in64_def)
    moreover have "nat ((int (Suc k) - 1) * s) = k * nat s" using assms(1) by (simp add: nat_mult_distrib)
    ultimately show ?thesis by (simp only: newest_page_def prod.case)
  qed
  then have "map (\<lambda>k. newest_page f (paginate (page_query (int k) s)) xs) [1..<Suc m] =
      map (\<lambda>k. take (nat s) (drop (k * nat s) (rev (sort_key f xs)))) [0..<m]"
    by (simp add: map_Suc_upt[symmetric] comp_def del: upt_Suc of_nat_Suc)
  then show ?thesis using concat_pages[of "nat s"] assms(1) by simp
qed

text \<open>Property C30. How far a client can page through a listing, while the table does not change: the
  handlers report as many pages as cover all rows; pages 1 to that number, but at most 200, one after
  the other, list the first 200 pages' worth of rows, newest first and each exactly once; these are
  all rows exactly when at most 200 pages are reported; and asking for any page beyond 200 gives page
  200 again, so that the rows beyond are on no page.\<close>

theorem reported_pages_retrievable:
  assumes "1 \<le> s" and "s \<le> 100" and "int (length xs) \<le> 9223372036854775000" and "pages = pages_of (int (length xs)) s"
  shows "concat (map (\<lambda>k. newest_page f (paginate (page_query (int k) s)) xs) [1..<Suc (nat (min pages 200))]) =
      take (nat (200 * s)) (rev (sort_key f xs)) \<and>
    (pages \<le> 200 \<longleftrightarrow> take (nat (200 * s)) (rev (sort_key f xs)) = rev (sort_key f xs)) \<and>
    (\<forall>k \<ge> 200. in64 k \<longrightarrow> newest_page f (paginate (page_query k s)) xs = newest_page f (paginate (page_query 200 s)) xs)"
proof -
  note b = pages_of_bounds[OF assms(1-3), folded assms(4), simplified]
  let ?xs = "rev (sort_key f xs)"
  have few: "pages \<le> 200 \<longleftrightarrow> int (length xs) \<le> 200 * s"
  proof
    assume "pages \<le> 200"
    then have "pages * s \<le> 200 * s" using assms(1) by simp
    then show "int (length xs) \<le> 200 * s" using b(2) by linarith
  next
    assume "int (length xs) \<le> 200 * s"
    then have "pages * s < 201 * s" using b(3) by (simp add: algebra_simps)
    then show "pages \<le> 200" using assms(1) by (simp add: mult_less_cancel_right)
  qed
  have "take (nat (min pages 200) * nat s) ?xs = take (nat (200 * s)) ?xs"
  proof (cases "pages \<le> 200")
    case True
    then have "length xs \<le> nat (min pages 200) * nat s" "length xs \<le> nat (200 * s)"
      using b(1,2) few assms(1) by (simp_all add: nat_mult_distrib[symmetric] nat_le_iff le_nat_iff)
    then show ?thesis by simp
  qed (use assms(1) in \<open>simp add: nat_mult_distrib\<close>)
  moreover have "concat (map (\<lambda>k. newest_page f (paginate (page_query (int k) s)) xs) [1..<Suc (nat (min pages 200))]) =
      take (nat (min pages 200) * nat s) ?xs"
    by (rule concat_newest_pages[OF assms(1,2)]) simp
  moreover have "pages \<le> 200 \<longleftrightarrow> take (nat (200 * s)) ?xs = ?xs"
    unfolding few using assms(1) by (auto simp: take_all_iff le_nat_iff)
  moreover have "newest_page f (paginate (page_query k s)) xs = newest_page f (paginate (page_query 200 s)) xs"
    if "200 \<le> k" "in64 k" for k
    using that assms(1,2) by (simp add: paginate_page_query in64_def)
  ultimately show ?thesis by simp
qed

theorem reported_pages_retrievable_witness:
  "concat (map (\<lambda>k. newest_page u_id (paginate (page_query (int k) 1)) [alice, bobby]) [1..<Suc (nat (min 2 200))]) = [bobby, alice]"
proof -
  have p: "2 = pages_of (int (length [alice, bobby])) 1" by code_simp
  have "rev (sort_key u_id [alice, bobby]) = [bobby, alice]" by code_simp
  with reported_pages_retrievable[OF _ _ _ p, of u_id] show ?thesis by (simp del: upt_Suc)
qed


context postgres
begin

lemma count_rows:
  assumes "apfst scan_int (bob_One B st c) = (Inr n, c')"
    and "st = CountUsers wh \<and> m = length (filter (user_matches ilike wh) (users (tables c))) \<or>
         st = CountTransfers \<and> m = length (transfers (tables c)) \<or>
         st = CountNotifications \<and> m = length (notifications (tables c))"
  shows "n = int m \<and> tables c' = tables c"
proof -
  obtain r where r: "bob_One B st c = (Inr r, c')" "scan_int (Inr r) = Inr n"
    using assms(1) by (cases "bob_One B st c"; cases "fst (bob_One B st c)") auto
  from one_row[OF r(1)] r(2) assms(2) show ?thesis by auto
qed

lemma resolveUserNames_ok:
  assumes "resolveUserNames B ids c = (Inr names, c')" and "db_wf (tables c)"
    and "u \<in> set (users (tables c))" and "u_id u \<in> set ids"
  shows "names (u_id u) = Some (u_username u)"
proof -
  let ?st = "SelectUsers ProjIdName (UserIdIn (dedup [] ids)) Unordered None False"
  obtain rows where r: "bob_All B ?st c = (Inr rows, c')"
    using assms(1,4) by (auto simp: resolveUserNames_def split: prod.splits sum.splits option.splits if_splits)
  from all_rows[OF r] obtain us where us: "rows = map (user_row ProjIdName) us"
    "mset us = mset (filter (\<lambda>u. u_id u \<in> set (dedup [] ids)) (users (tables c)))"
    by (auto simp: selection_all)
  have "set us = set (filter (\<lambda>u. u_id u \<in> set (dedup [] ids)) (users (tables c)))" using us(2) mset_eq_setD by blast
  then have "u \<in> set us" using assms(3,4) by (simp add: dedup_set)
  have "mset (map u_id us) = mset (map u_id (filter (\<lambda>u. u_id u \<in> set (dedup [] ids)) (users (tables c))))"
    using us(2) by (simp only: mset_map)
  moreover have "distinct (map u_id (filter (\<lambda>u. u_id u \<in> set (dedup [] ids)) (users (tables c))))"
    using assms(2) by (simp add: db_wf_def distinct_map_filter)
  ultimately have "distinct (map u_id us)" using mset_eq_imp_distinct_iff by blast
  then have "distinct (map fst (map (\<lambda>u. (u_id u, u_username u)) us))" by (simp add: comp_def)
  moreover have "names = foldl (\<lambda>m (i, s). m(i \<mapsto> s)) Map.empty (map (\<lambda>u. (u_id u, u_username u)) us)"
    using assms(1,4) r us(1) by (auto simp: resolveUserNames_def split: if_splits)
  ultimately show ?thesis using fold_names[of "map (\<lambda>u. (u_id u, u_username u)) us"] \<open>u \<in> set us\<close> by auto
qed

lemma busy_resolveUserNames:
  "resolveUserNames (busy act B) ids c = (if ids = [] then (Inr Map.empty, c) else resolveUserNames B ids (act c))"
  by (simp add: resolveUserNames_def)

lemma resolveUserNames_tables: "resolveUserNames B ids c = (Inr names, c') \<Longrightarrow> tables c' = tables c"
  by (auto simp: resolveUserNames_def split: if_splits prod.splits sum.splits option.splits dest!: all_rows)

lemma resolveUserNames_busy:
  assumes "resolveUserNames (busy act B) ids c = (Inr names, c')"
  shows "tables c' = (if ids = [] then tables c else tables (act c))"
    and "\<And>u. db_wf (tables (act c)) \<Longrightarrow> u \<in> set (users (tables (act c))) \<Longrightarrow> u_id u \<in> set ids \<Longrightarrow> names (u_id u) = Some (u_username u)"
  using assms resolveUserNames_tables[of ids "act c" names c'] resolveUserNames_ok[of ids "act c" names c']
  by (auto simp: busy_resolveUserNames split: if_splits)

end


text \<open>The users an admin search selects.\<close>

definition searched :: "(string \<Rightarrow> string \<Rightarrow> bool) \<Rightarrow> raw_message \<Rightarrow> db \<Rightarrow> user list" where
  "searched ilike raw d =
     (let s = search_term raw
      in filter (user_matches ilike (if s \<noteq> [] then UserSearch (''%'' @ s @ ''%'') else AllUsers)) (users d))"

text \<open>Property C31. The admin user listing shows exactly the requested page of the users that match the
  search, newest first, with phones masked, and the number of all matching users. Other sessions
  may commit while it runs: the page and the number are each exact, the page for the tables at one
  moment and the number for the tables at a later one.\<close>

theorem admin_users_page:
  assumes "shared_postgres B tables ilike act others" and "stable_wf others" and "db_wf (tables (w_db w))"
    and "handleAdminUsers (busy act B) ctx action raw headers w = (reply 200 body, w')"
  shows "\<exists>d. others\<^sup>*\<^sup>* (tables (w_db w)) d \<and> others\<^sup>*\<^sup>* d (tables (w_db w')) \<and>
    body = paged ''users'' (map userToAdminView (newest_page u_id (paginate raw) (searched ilike raw d)))
      (int (length (searched ilike raw (tables (w_db w'))))) (fst (paginate raw)) (snd (paginate raw))"
proof -
  note pg = shared_postgres.axioms(1)[OF assms(1)] and act = shared_postgres.others_act[OF assms(1)]
  obtain page s where p: "paginate raw = (page, s)" by fastforce
  define wh where "wh = (if search_term raw \<noteq> [] then UserSearch (''%'' @ search_term raw @ ''%'') else AllUsers)"
  let ?st = "SelectUsers ProjUser wh IdDesc (Some (s, i64 (i64 (page - 1) * s))) False" and ?d = "tables (act (w_db w))"
  obtain q c1 where q: "bob_All B ?st (act (w_db w)) = (q, c1)" by fastforce
  from assms(4) p q obtain us c2 n where o: "scan_all_users q = Inr us" "apfst scan_int (bob_One B (CountUsers wh) (act c1)) = (Inr n, c2)"
    "body = paged ''users'' (map userToAdminView us) n page s" "w' = w\<lparr>w_db := c2\<rparr>"
    by (auto simp: handleAdminUsers_def wh_def[symmetric] Let_def split: prod.splits sum.splits)
  obtain rows where rows: "q = Inr rows" "scan_users rows = Some us"
    using o(1) by (auto simp: scan_all_users_def split: sum.splits option.splits)
  from postgres.all_rows[OF pg q[unfolded rows(1)]] obtain vs where
    v: "tables c1 = ?d" "rows = map UserRow vs"
    "selection (order_rel IdDesc u_id (\<lambda>_. 0)) (filter (user_matches ilike wh) (users ?d)) (Some (s, i64 (i64 (page - 1) * s))) vs"
    by auto
  have f: "filter (user_matches ilike wh) (users d) = searched ilike raw d" for d
    by (simp add: searched_def wh_def)
  have "distinct (map u_id (searched ilike raw ?d))"
    using stable_wfD[OF act assms(2,3)] by (simp add: f[symmetric] db_wf_def distinct_map_filter)
  from newest_page_selection[OF p v(3)[unfolded f] this] have "us = newest_page u_id (paginate raw) (searched ilike raw ?d)"
    using rows(2) v(2) by simp
  moreover have "n = int (length (searched ilike raw (tables (act c1)))) \<and> tables c2 = tables (act c1)"
    using postgres.count_rows[OF pg o(2), of wh] f by auto
  ultimately show ?thesis using o(3,4) p act[of "w_db w"] act[of c1] v(1) by (intro exI[of _ ?d]) simp
qed

definition sample_page :: raw_message where
  "sample_page = Some (JObj [(''page'', JStr ''1''), (''size'', JStr ''1'')])"

definition sample_users :: "(goerr + any_result) \<times> (memdb, memredis, memjs) world" where
  "sample_users = handleAdminUsers (mem_bob no_ilike True) sample_ctx ''users'' sample_page (\<lambda>_. []) (sample_world [])"

lemma sample_users_run:
  "handleAdminUsers (mem_bob no_ilike True) sample_ctx ''users'' sample_page (\<lambda>_. []) (sample_world []) =
     (fst sample_users, snd sample_users)"
  by (simp add: sample_users_def)

lemma sample_wf: "db_wf (m_db (w_db (sample_world faults)))"
  using sample_db_wf by (simp add: sample_world_def)

theorem admin_users_page_witness:
  "paged ''users'' [userToAdminView bobby] 2 1 1 =
     paged ''users'' (map userToAdminView (newest_page u_id (paginate sample_page) (searched no_ilike sample_page sample_db)))
       (int (length (searched no_ilike sample_page sample_db))) (fst (paginate sample_page)) (snd (paginate sample_page))"
proof -
  have r: "fst sample_users = reply 200 (paged ''users'' [userToAdminView bobby] 2 1 1)" by code_simp
  show ?thesis
    using admin_users_page[OF mem_alone.shared_postgres_axioms stable_eq sample_wf, unfolded busy_quiet, OF sample_users_run[unfolded r]]
    by (simp add: sample_world_def)
qed

text \<open>Property C32. The admin transfer listing shows the requested page of all transfers, newest first,
  each with the user names of its two parties (a page past the end is empty), and the number of
  all transfers. Number, page and names are exact for the tables at three successive moments, \<open>d1\<close>,
  \<open>d2\<close> and the end, between which other sessions may commit.\<close>

theorem admin_transfers_page:
  assumes "shared_postgres B tables ilike act others" and "stable_wf others" and "db_wf (tables (w_db w))"
    and "handleAdminTransfers (busy act B) ctx action raw headers w = (reply 200 body, w')"
  shows "\<exists>d1 d2 names. others\<^sup>*\<^sup>* (tables (w_db w)) d1 \<and> others\<^sup>*\<^sup>* d1 d2 \<and> others\<^sup>*\<^sup>* d2 (tables (w_db w')) \<and>
      body = paged ''transfers''
        (if (fst (paginate raw) - 1) * snd (paginate raw) < int (length (transfers d1))
         then map (transferResponse names) (newest_page t_id (paginate raw) (transfers d2)) else [])
        (int (length (transfers d1))) (fst (paginate raw)) (snd (paginate raw)) \<and>
      (\<forall>t \<in> set (newest_page t_id (paginate raw) (transfers d2)). \<forall>u \<in> set (users (tables (w_db w'))).
         (fst (paginate raw) - 1) * snd (paginate raw) < int (length (transfers d1)) \<longrightarrow>
         u_id u \<in> {t_from_user t, t_to_user t} \<longrightarrow> names (u_id u) = Some (u_username u))"
proof -
  note pg = shared_postgres.axioms(1)[OF assms(1)] and act = shared_postgres.others_act[OF assms(1)]
  obtain page s where p: "paginate raw = (page, s)" by fastforce
  let ?off = "i64 (i64 (page - 1) * s)" and ?d = "tables (act (w_db w))"
  obtain q c1 where q: "apfst scan_int (bob_One B CountTransfers (act (w_db w))) = (q, c1)" by fastforce
  from assms(4) p q obtain n where n: "q = Inr n" by (cases q) (auto simp: handleAdminTransfers_def)
  have c: "n = int (length (transfers ?d))" "tables c1 = ?d"
    using postgres.count_rows[OF pg q[unfolded n]] by auto
  have off: "?off = (page - 1) * s" using offset_exact paginate_range[OF p] by auto
  show ?thesis
  proof (cases "?off < n")
    case False
    with assms(4) p q n c off act[of "w_db w"] show ?thesis
      by (intro exI[of _ ?d]) (auto simp: handleAdminTransfers_def Let_def)
  next
    case True
    with assms(4) p q n obtain rows c2 ts names c3 where
      o: "bob_All B (SelectTransfers IdDesc (Some (s, ?off))) (act c1) = (Inr rows, c2)" "scan_transfers rows = Some ts"
      "resolveUserNames (busy act B) (concat (map (\<lambda>t. [t_from_user t, t_to_user t]) ts)) c2 = (Inr names, c3)"
      "body = paged ''transfers'' (map (transferResponse names) ts) n page s" "w' = w\<lparr>w_db := c3\<rparr>"
      by (auto simp: handleAdminTransfers_def Let_def split: prod.splits sum.splits option.splits)
    let ?d2 = "tables (act c1)"
    have wf: "db_wf ?d2" "db_wf (tables (act c2))" and d2: "others\<^sup>*\<^sup>* ?d ?d2" "others\<^sup>*\<^sup>* ?d2 (tables (act c2))"
      and v: "tables c2 = ?d2" "ts = newest_page t_id (paginate raw) (transfers ?d2)"
    proof -
      from postgres.all_rows[OF pg o(1)] obtain vs where
        v: "tables c2 = ?d2" "rows = map TransferRow vs"
        "selection (order_rel IdDesc t_id t_created_at) (transfers ?d2) (Some (s, ?off)) vs" by auto
      show "others\<^sup>*\<^sup>* ?d ?d2" "others\<^sup>*\<^sup>* ?d2 (tables (act c2))" using act[of c1] act[of c2] c(2) v(1) by simp_all
      then show wf: "db_wf ?d2" and "db_wf (tables (act c2))"
        using stable_wfD[OF _ assms(2)] stable_wfD[OF act assms(2,3)] by blast+
      show "tables c2 = ?d2" "ts = newest_page t_id (paginate raw) (transfers ?d2)"
        using newest_page_selection[OF p v(3)] wf o(2) v(1,2) by (simp_all add: db_wf_def)
    qed
    note names = postgres.resolveUserNames_busy[OF pg o(3)]
    have "ts = [] \<or> tables c3 = tables (act c2)" and e: "others\<^sup>*\<^sup>* ?d2 (tables c3)"
      using names(1) d2(2) v(1) by (auto split: if_splits)
    then have "names (u_id u) = Some (u_username u)"
      if "t \<in> set ts" "u \<in> set (users (tables c3))" "u_id u \<in> {t_from_user t, t_to_user t}" for t u
    proof -
      have "u_id u \<in> set (concat (map (\<lambda>t. [t_from_user t, t_to_user t]) ts))" using that(1,3) by auto
      with names(2)[of u] wf(2) that(1,2) \<open>ts = [] \<or> tables c3 = tables (act c2)\<close> show ?thesis by auto
    qed
    with o(4,5) p c(1) v(2) d2(1) e act[of "w_db w"] True off show ?thesis
      by (intro exI[of _ ?d] exI[of _ ?d2] exI[of _ names]) auto
  qed
qed

definition sample_world2 :: "(memdb, memredis, memjs) world" where
  "sample_world2 = (sample_world [])\<lparr>w_db := \<lparr>m_db = sample_db\<lparr>transfers := [\<lparr>t_id = 1, t_from_user = 1, t_to_user = 2,
     t_amount = 30, t_created_at = 0\<rparr>]\<rparr>, m_now = 1, m_faults = []\<rparr>\<rparr>"

definition sample_transfers :: "(goerr + any_result) \<times> (memdb, memredis, memjs) world" where
  "sample_transfers = handleAdminTransfers (mem_bob no_ilike True) sample_ctx ''transfers'' sample_page (\<lambda>_. []) sample_world2"

lemma sample_transfers_run:
  "handleAdminTransfers (mem_bob no_ilike True) sample_ctx ''transfers'' sample_page (\<lambda>_. []) sample_world2 =
     (fst sample_transfers, snd sample_transfers)"
  by (simp add: sample_transfers_def)

theorem admin_transfers_page_witness:
  "\<exists>names. paged ''transfers'' [transferResponse [1 \<mapsto> ''alice'', 2 \<mapsto> ''bob'']
       \<lparr>t_id = 1, t_from_user = 1, t_to_user = 2, t_amount = 30, t_created_at = 0\<rparr>] 1 1 1 =
     paged ''transfers'' (map (transferResponse names) (newest_page t_id (paginate sample_page)
       (transfers (m_db (w_db sample_world2))))) 1 (fst (paginate sample_page)) (snd (paginate sample_page))"
proof -
  have r: "fst sample_transfers = reply 200 (paged ''transfers'' [transferResponse [1 \<mapsto> ''alice'', 2 \<mapsto> ''bob'']
       \<lparr>t_id = 1, t_from_user = 1, t_to_user = 2, t_amount = 30, t_created_at = 0\<rparr>] 1 1 1)" by code_simp
  have wf: "db_wf (m_db (w_db sample_world2))" by code_simp
  have page: "length (transfers (m_db (w_db sample_world2))) = 1" "paginate sample_page = (1, 1)"
    by (simp add: sample_world2_def, code_simp)
  from admin_transfers_page[OF mem_alone.shared_postgres_axioms stable_eq wf, unfolded busy_quiet, OF sample_transfers_run[unfolded r]]
  show ?thesis unfolding nobody_else
  proof (elim exE conjE)
    fix d1 d2 names
    assume d: "m_db (w_db sample_world2) = d1" "d1 = d2"
      and b: "paged ''transfers'' [transferResponse [1 \<mapsto> ''alice'', 2 \<mapsto> ''bob'']
         \<lparr>t_id = 1, t_from_user = 1, t_to_user = 2, t_amount = 30, t_created_at = 0\<rparr>] 1 1 1 =
       paged ''transfers'' (if (fst (paginate sample_page) - 1) * snd (paginate sample_page) < int (length (transfers d1))
           then map (transferResponse names) (newest_page t_id (paginate sample_page) (transfers d2)) else [])
         (int (length (transfers d1))) (fst (paginate sample_page)) (snd (paginate sample_page))"
    show ?thesis unfolding b using page d by (intro exI[of _ names]) simp
  qed
qed

section \<open>Balance and projection\<close>

text \<open>Property C34. A balance reply is the read model's value when it has one; otherwise it is the
  balance in the table, and (on a Redis service without faults) the read model holds it from then
  on. The tables never change.\<close>

theorem balance_reply:
  assumes "postgres B tables ilike" and "reliable_redis R keys" and "db_wf (tables (w_db w))"
    and "handleBalance B R ctx action raw headers w = (reply 200 body, w')"
  shows "\<exists>b. body = JObj [(''balance'', JInt b)] \<and> tables (w_db w') = tables (w_db w) \<and>
    balance_of (keys (w_redis w')) (fst (UserIDFromContext ctx)) = Some b \<and>
    (balance_of (keys (w_redis w)) (fst (UserIDFromContext ctx)) = Some b \<or>
     balance_of (keys (w_redis w)) (fst (UserIDFromContext ctx)) = None \<and>
     (\<exists>u \<in> set (users (tables (w_db w))). u_id u = fst (UserIDFromContext ctx) \<and> u_balance u = b))"
proof -
  let ?uid = "fst (UserIDFromContext ctx)"
  note rs = reliable_redis.axioms(1)[OF assms(2)]
  obtain g r1 where g: "GetBalance R ?uid (w_redis w) = (g, r1)" by fastforce
  show ?thesis
  proof (cases g)
    case (Inl e)
    with assms(4) g show ?thesis by (simp add: handleBalance_def)
  next
    case (Inr hit)
    show ?thesis
    proof (cases hit)
      case (Some b)
      with g Inr redis_service.GetBalance_hit[OF rs, of ?uid "w_redis w" b r1] balance_of_expired[of "keys (w_redis w)" "keys r1" ?uid]
      have "balance_of (keys (w_redis w)) ?uid = Some b" "balance_of (keys r1) ?uid = Some b" by auto
      moreover have "body = JObj [(''balance'', JInt b)]" "w' = w\<lparr>w_redis := r1\<rparr>"
        using assms(4) g Inr Some by (auto simp: handleBalance_def)
      ultimately show ?thesis by simp
    next
      case None
      let ?st = "SelectUsers ProjBalance (UserEq ColId (ArgInt ?uid)) Unordered None False"
      obtain q c1 where q: "bob_One B ?st (w_db w) = (q, c1)" by fastforce
      from assms(4) g Inr None q obtain b where b: "scan_int q = Inr b" "body = JObj [(''balance'', JInt b)]"
        "w' = w\<lparr>w_redis := snd (SetBalance R ?uid b r1), w_db := c1\<rparr>"
        by (auto simp: handleBalance_def queryBalanceFromDB_def split: sum.splits if_splits)
      obtain row where row: "q = Inr row" using b(1) by (cases q) auto
      from postgres.one_row[OF assms(1) q[unfolded row]] obtain z zs where z: "tables c1 = tables (w_db w)"
        "row = IntRow (u_balance z)" "mset (z # zs) = mset (filter (\<lambda>u. u_id u = ?uid) (users (tables (w_db w))))"
        by (auto simp: selection_all Cons_eq_map_conv)
      from z(3) have "z \<in> set (filter (\<lambda>u. u_id u = ?uid) (users (tables (w_db w))))"
        by (metis list.set_intros(1) mset_eq_setD)
      then have u: "z \<in> set (users (tables (w_db w)))" "u_id z = ?uid" by auto
      have zb: "u_balance z = b" using b(1) row z(2) by simp
      have in64: "in64 ?uid" "in64 b" using assms(3) u zb by (auto simp: db_wf_def list_all_iff user_row_wf_def)
      have m: "balance_of (keys (w_redis w)) ?uid = None"
        using redis_service.GetBalance_miss[OF rs] g Inr None by (auto simp: balance_of_def)
      have "\<exists>v r2. rc_Do R (hset_balance ?uid b) r1 = (Inr v, r2)"
        using reliable_redis.do_total[OF assms(2)] redis_service.do_nil[OF rs]
        by (cases "rc_Do R (hset_balance ?uid b) r1"; cases "fst (rc_Do R (hset_balance ?uid b) r1)") (fastforce simp: hset_balance_def)+
      then obtain v r2 where r2: "rc_Do R (hset_balance ?uid b) r1 = (Inr v, r2)" by blast
      have "balance_of (keys r2) ?uid = Some b"
        using redis_service.do_ok[OF rs r2] balance_of_hset in64 by auto
      with b(2,3) r2 m u zb z(1) show ?thesis by (auto simp: SetBalance_def)
    qed
  qed
qed

definition sample_balance :: "(goerr + any_result) \<times> (memdb, memredis, memjs) world" where
  "sample_balance =
     handleBalance (mem_bob no_ilike True) (mem_redis False) sample_ctx ''balance'' None (\<lambda>_. []) (sample_world [])"

lemma sample_balance_run:
  "handleBalance (mem_bob no_ilike True) (mem_redis False) sample_ctx ''balance'' None (\<lambda>_. []) (sample_world []) =
     (fst sample_balance, snd sample_balance)"
  by (simp add: sample_balance_def)

theorem balance_reply_witness: "balance_of (mr_keys (w_redis (snd sample_balance))) 1 = Some 500"
proof -
  have r: "fst sample_balance = reply 200 (JObj [(''balance'', JInt 500)])" by code_simp
  show ?thesis
    using balance_reply[OF mem.postgres_axioms rel_mred.reliable_redis_axioms sample_wf sample_balance_run[unfolded r]]
    by (auto simp: sample_ctx_def UserIDFromContext_def)
qed

lemma project_message_effect:
  assumes "redis_service R keys" and "in64_event evt" and "tc_sender_id evt \<noteq> tc_receiver_id evt" and "in64 i"
    and "project_message R (Some (transfer_completed_json evt)) r = (d, r')"
  shows "d \<in> {Ack, NakWithDelay 5000000000} \<and>
    (d = Ack \<longrightarrow> balance_of (keys r') i =
       (if i = tc_sender_id evt then Some (tc_sender_balance evt)
        else if i = tc_receiver_id evt then Some (tc_receiver_balance evt) else balance_of (keys r) i)) \<and>
    (balance_of (keys r') i = balance_of (keys r) i \<or>
     i = tc_sender_id evt \<and> balance_of (keys r') i = Some (tc_sender_balance evt) \<or>
     i = tc_receiver_id evt \<and> balance_of (keys r') i = Some (tc_receiver_balance evt))"
proof -
  let ?s = "hset_balance (tc_sender_id evt) (tc_sender_balance evt)"
  let ?v = "hset_balance (tc_receiver_id evt) (tc_receiver_balance evt)"
  have dec: "decode_transfer_completed (Some (transfer_completed_json evt)) = Some evt"
    using decode_encode_event[OF assms(2)] .
  have in64: "in64 (tc_sender_id evt)" "in64 (tc_receiver_id evt)" "in64 (tc_sender_balance evt)" "in64 (tc_receiver_balance evt)"
    using assms(2) by (simp_all add: in64_event_def)
  obtain e where e: "rc_Pipeline R [?s, ?v] r = (e, r')"
    "d = (if e = None then Ack else NakWithDelay 5000000000)"
    using assms(5) dec by (auto simp: project_message_def SetBalanceBatch_def second_def split: prod.splits option.splits)
  obtain cs ks where cs: "cs = [?s, ?v] \<or> (e \<noteq> None \<and> cs \<in> {[], [?s], [?v]})" "expired (keys r) ks" "keys r' = fold redis_apply cs ks"
  proof (cases e)
    case None
    with e(1) redis_service.pipe_ok[OF assms(1)] that show thesis by blast
  next
    case (Some x)
    with e(1) redis_service.pipe_err[OF assms(1)] obtain ks I where
      "expired (keys r) ks" "keys r' = fold redis_apply (nths [?s, ?v] I) ks" by blast
    moreover have "nths [?s, ?v] I \<in> {[?s, ?v], [], [?s], [?v]}" by (auto simp: nths_Cons)
    ultimately show thesis using that Some by blast
  qed
  from cs(1) e(2) show ?thesis
    using cs(3) balance_of_expired[OF cs(2)] balance_rules in64 assms(3,4) by auto
qed

text \<open>The projection acknowledges an event only after the read model holds both balances
  the event carries. When Redis fails, the message is redelivered after five seconds, and every
  balance of the read model is then either what it was or what the event says.\<close>

lemma projection_applies_event:
  assumes "redis_service R keys" and "in64_event evt" and "tc_sender_id evt \<noteq> tc_receiver_id evt" and "in64 i"
    and "project_message R (Some (transfer_completed_json evt)) r = (d, r')"
  shows "d \<in> {Ack, NakWithDelay 5000000000} \<and>
    (d = Ack \<longrightarrow> balance_of (keys r') i =
       (if i = tc_sender_id evt then Some (tc_sender_balance evt)
        else if i = tc_receiver_id evt then Some (tc_receiver_balance evt) else balance_of (keys r) i)) \<and>
    (balance_of (keys r') i = balance_of (keys r) i \<or>
     i = tc_sender_id evt \<and> balance_of (keys r') i = Some (tc_sender_balance evt) \<or>
     i = tc_receiver_id evt \<and> balance_of (keys r') i = Some (tc_receiver_balance evt))"
  by (rule project_message_effect[OF assms])

definition sample_event :: transfer_completed where
  "sample_event = \<lparr>tc_transfer_id = 1, tc_amount = 30, tc_sender_id = 1, tc_sender_balance = 470,
     tc_receiver_id = 2, tc_receiver_balance = 100\<rparr>"

section \<open>Looking up a user\<close>

text \<open>The column and the text a look-up searches for: the first of account number, phone and user name
  that is given, trimmed.\<close>

definition lookup_key :: "raw_message \<Rightarrow> (user_col \<times> string) option" where
  "lookup_key raw =
     (case decode_lookup raw of
        None \<Rightarrow> None
      | Some p \<Rightarrow>
          (let k = [(ColAccountNumber, TrimSpace (lp_account_number p)), (ColPhone, TrimSpace (lp_phone p)),
                    (ColUsername, TrimSpace (lp_username p))]
           in find (\<lambda>(c, v). v \<noteq> []) k))"

lemma handleLookup_key:
  "handleLookup B ctx action raw headers w =
     (case lookup_key raw of
        None \<Rightarrow> (reply 400 (if decode_lookup raw = None then detail ''invalid payload''
                        else detail ''provide account_number, phone, or username''), w)
      | Some (col, val) \<Rightarrow>
          (case QueryUser B col (ArgText val) (w_db w) of
             (Inl e, c') \<Rightarrow>
               (if IsNotFound (Some e) then reply 404 (detail ''User not found'') else Inl (Wrapf ''lookup user'' e),
                w\<lparr>w_db := c'\<rparr>)
           | (Inr u, c') \<Rightarrow>
               (reply 200 (JObj [(''id'', JInt (u_id u)), (''account_number'', JStr (u_account_number u)),
                                 (''username'', JStr (u_username u))]), w\<lparr>w_db := c'\<rparr>)))"
  by (auto simp: handleLookup_def lookup_key_def UserIdentifierCol_def Let_def split: option.splits)

text \<open>A look-up changes nothing and tells the truth: 200 shows the id, account number and user
  name, and nothing more, of a user who has the given identifier; 404 means that nobody has it; 400
  that no identifier was given.\<close>

lemma lookup_reply:
  assumes "postgres B tables ilike"
    and "handleLookup B ctx action raw headers w = (reply s body, w')"
  shows "tables (w_db w') = tables (w_db w) \<and> w_redis w' = w_redis w \<and> w_js w' = w_js w \<and>
    (case lookup_key raw of
       None \<Rightarrow> s = 400
     | Some (col, val) \<Rightarrow>
         s = 200 \<and> (\<exists>u \<in> set (users (tables (w_db w))). user_cell col u = ArgText val \<and>
             body = JObj [(''id'', JInt (u_id u)), (''account_number'', JStr (u_account_number u)),
                          (''username'', JStr (u_username u))]) \<or>
         s = 404 \<and> (\<forall>u \<in> set (users (tables (w_db w))). user_cell col u \<noteq> ArgText val))"
proof (cases "lookup_key raw")
  case None
  with assms(2) show ?thesis by (auto simp: handleLookup_key)
next
  case (Some cv)
  obtain col val where cv: "cv = (col, val)" by fastforce
  obtain q c' where q: "QueryUser B col (ArgText val) (w_db w) = (q, c')" by fastforce
  have t: "tables c' = tables (w_db w)" using postgres.QueryUser_tables[OF assms(1) q] .
  show ?thesis
  proof (cases q)
    case (Inl e)
    with assms(2) Some cv q have e: "IsNotFound (Some e)" "s = 404" "w' = w\<lparr>w_db := c'\<rparr>"
      by (auto simp: handleLookup_key split: if_splits)
    with postgres.QueryUser_absent[OF assms(1) q[unfolded Inl]] t Some cv show ?thesis by simp
  next
    case (Inr u)
    with postgres.QueryUser_row[OF assms(1), of col "ArgText val" "w_db w" u c'] q assms(2) Some cv t show ?thesis
      by (auto simp: handleLookup_key)
  qed
qed

end
