(* ===== verification/Read_Model.thy ===== *)
theory Read_Model
  imports Transfer_Props Account_Props
begin

text \<open>
  The balance read model as a whole. Several transfer handlers run at the same time; each commits,
  then runs its Redis pipeline, then publishes its event; the projection of the account service
  applies the events it is delivered; and balance requests that miss the hash read the balance from
  the tables and write it back to the hash later. A state holds the committed tables, the handlers
  between commit and pipeline and those between pipeline and publish (both in commit order), the
  balance requests between their miss and their write (with the balance once it is read), the Redis
  client's state, the stream, and the positions that were acknowledged.

  \<open>rm_step\<close> interleaves them freely: any handler may go next, a publish may be lost, a message may be
  delivered again as long as its acknowledgement has not arrived, and the other handlers may change the
  tables without touching an existing balance (registrations, acknowledged notifications).
  \<open>ordered_step\<close> is the part of it in which the transfer handlers finish in commit order, messages are
  acknowledged in stream order, and no back-fill is late: it writes while the balance it read is still
  the committed one, or while an event of that user is still to be acknowledged.
\<close>

record 'r rm_state =
  rm_db :: db
  rm_open :: "(transfer_payload \<times> transfer_result) list"
  rm_publishing :: "transfer_completed list"
  rm_fills :: "(int \<times> int option) list"
  rm_redis :: 'r
  rm_stream :: "transfer_completed list"
  rm_acked :: "nat set"

definition db_balances :: "db \<Rightarrow> int \<rightharpoonup> int" where
  "db_balances d = map_of (map (\<lambda>u. (u_id u, u_balance u)) (users d))"

definition mentions :: "transfer_completed \<Rightarrow> int \<Rightarrow> bool" where
  "mentions e i \<longleftrightarrow> i = tc_sender_id e \<or> i = tc_receiver_id e"

text \<open>The events of all committed transfers, and whether one of a user's is still to be acknowledged.\<close>

definition rm_log :: "'r rm_state \<Rightarrow> transfer_completed list" where
  "rm_log s = rm_stream s @ rm_publishing s @ map (\<lambda>(p, res). event_of p res) (rm_open s)"

definition pending :: "'r rm_state \<Rightarrow> int \<Rightarrow> bool" where
  "pending s i \<longleftrightarrow> (\<exists>j < length (rm_log s). j \<notin> rm_acked s \<and> mentions (rm_log s ! j) i)"

definition rm_pipeline :: "'r redis \<Rightarrow> transfer_payload \<Rightarrow> transfer_result \<Rightarrow> 'r \<Rightarrow> 'r" where
  "rm_pipeline R p res r =
     snd (PublishTransferCompleted R (event_of p res) (tr_senderPhone res) (tr_receiverPhone res) r)"

definition rm_project :: "'r redis \<Rightarrow> transfer_completed \<Rightarrow> 'r \<Rightarrow> msg_reply \<times> 'r" where
  "rm_project R evt r = project_message R (Some (transfer_completed_json evt)) r"

definition rm_fill :: "'r redis \<Rightarrow> int \<Rightarrow> int \<Rightarrow> 'r \<Rightarrow> 'r" where
  "rm_fill R i b r = snd (SetBalance R i b r)"

inductive rm_step :: "'r redis \<Rightarrow> 'r rm_state \<Rightarrow> 'r rm_state \<Rightarrow> bool" for R where
  commit:
    "transfer_spec sid p (rm_db s) res d' \<Longrightarrow> 0 < tp_amount p \<Longrightarrow> in64 (tp_amount p) \<Longrightarrow>
     rm_step R s (s\<lparr>rm_db := d', rm_open := rm_open s @ [(p, res)]\<rparr>)"
| other_write:
    "db_wf d' \<Longrightarrow> db_balances (rm_db s) \<subseteq>\<^sub>m db_balances d' \<Longrightarrow> rm_step R s (s\<lparr>rm_db := d'\<rparr>)"
| pipeline:
    "rm_open s = xs @ (p, res) # ys \<Longrightarrow>
     rm_step R s (s\<lparr>rm_open := xs @ ys, rm_publishing := rm_publishing s @ [event_of p res],
                    rm_redis := rm_pipeline R p res (rm_redis s)\<rparr>)"
| publish:
    "rm_publishing s = xs @ e # ys \<Longrightarrow>
     rm_step R s (s\<lparr>rm_publishing := xs @ ys, rm_stream := rm_stream s @ [e]\<rparr>)"
| publish_lost:
    "rm_publishing s = xs @ e # ys \<Longrightarrow> rm_step R s (s\<lparr>rm_publishing := xs @ ys\<rparr>)"
| deliver:
    "i < length (rm_stream s) \<Longrightarrow> i \<notin> rm_acked s \<Longrightarrow> rm_project R (rm_stream s ! i) (rm_redis s) = (a, r') \<Longrightarrow>
     acked = rm_acked s \<or> (a = Ack \<and> acked = insert i (rm_acked s)) \<Longrightarrow>
     rm_step R s (s\<lparr>rm_redis := r', rm_acked := acked\<rparr>)"
| balance_get:
    "GetBalance R i (rm_redis s) = (x, r') \<Longrightarrow>
     rm_step R s (s\<lparr>rm_redis := r', rm_fills := rm_fills s @ (if x = Inr None then [(i, None)] else [])\<rparr>)"
| fill_read:
    "rm_fills s = xs @ (i, None) # ys \<Longrightarrow> db_balances (rm_db s) i = Some b \<Longrightarrow>
     rm_step R s (s\<lparr>rm_fills := xs @ (i, Some b) # ys\<rparr>)"
| fill_failed:
    "rm_fills s = xs @ (i, None) # ys \<Longrightarrow> rm_step R s (s\<lparr>rm_fills := xs @ ys\<rparr>)"
| fill_write:
    "rm_fills s = xs @ (i, Some b) # ys \<Longrightarrow>
     rm_step R s (s\<lparr>rm_fills := xs @ ys, rm_redis := rm_fill R i b (rm_redis s)\<rparr>)"

inductive ordered_step :: "'r redis \<Rightarrow> 'r rm_state \<Rightarrow> 'r rm_state \<Rightarrow> bool" for R where
  commit:
    "transfer_spec sid p (rm_db s) res d' \<Longrightarrow> 0 < tp_amount p \<Longrightarrow> in64 (tp_amount p) \<Longrightarrow>
     ordered_step R s (s\<lparr>rm_db := d', rm_open := rm_open s @ [(p, res)]\<rparr>)"
| other_write:
    "db_wf d' \<Longrightarrow> db_balances (rm_db s) \<subseteq>\<^sub>m db_balances d' \<Longrightarrow> ordered_step R s (s\<lparr>rm_db := d'\<rparr>)"
| pipeline:
    "rm_open s = (p, res) # ys \<Longrightarrow>
     ordered_step R s (s\<lparr>rm_open := ys, rm_publishing := rm_publishing s @ [event_of p res],
                         rm_redis := rm_pipeline R p res (rm_redis s)\<rparr>)"
| publish:
    "rm_publishing s = e # ys \<Longrightarrow>
     ordered_step R s (s\<lparr>rm_publishing := ys, rm_stream := rm_stream s @ [e]\<rparr>)"
| deliver:
    "i < length (rm_stream s) \<Longrightarrow> rm_acked s = {..<i} \<Longrightarrow> rm_project R (rm_stream s ! i) (rm_redis s) = (a, r') \<Longrightarrow>
     acked = rm_acked s \<or> (a = Ack \<and> acked = insert i (rm_acked s)) \<Longrightarrow>
     ordered_step R s (s\<lparr>rm_redis := r', rm_acked := acked\<rparr>)"
| balance_get:
    "GetBalance R i (rm_redis s) = (x, r') \<Longrightarrow>
     ordered_step R s (s\<lparr>rm_redis := r', rm_fills := rm_fills s @ (if x = Inr None then [(i, None)] else [])\<rparr>)"
| fill_read:
    "rm_fills s = xs @ (i, None) # ys \<Longrightarrow> db_balances (rm_db s) i = Some b \<Longrightarrow>
     ordered_step R s (s\<lparr>rm_fills := xs @ (i, Some b) # ys\<rparr>)"
| fill_failed:
    "rm_fills s = xs @ (i, None) # ys \<Longrightarrow> ordered_step R s (s\<lparr>rm_fills := xs @ ys\<rparr>)"
| fill_write:
    "rm_fills s = xs @ (i, Some b) # ys \<Longrightarrow> db_balances (rm_db s) i = Some b \<or> pending s i \<Longrightarrow>
     ordered_step R s (s\<lparr>rm_fills := xs @ ys, rm_redis := rm_fill R i b (rm_redis s)\<rparr>)"

lemma ordered_step_rm_step: "ordered_step R s s' \<Longrightarrow> rm_step R s s'"
proof (induction rule: ordered_step.induct)
  case (pipeline s p res ys)
  then show ?case using rm_step.pipeline[of s "[]" p res ys R] by simp
next
  case (publish s e ys)
  then show ?case using rm_step.publish[of s "[]" e ys R] by simp
next
  case (balance_get i s x r')
  then show ?case by (rule rm_step.balance_get)
qed (auto intro: rm_step.intros)

definition quiescent :: "'r rm_state \<Rightarrow> bool" where
  "quiescent s \<longleftrightarrow> rm_open s = [] \<and> rm_publishing s = [] \<and> rm_fills s = [] \<and> rm_acked s = {..<length (rm_stream s)}"

definition rm_init :: "db \<Rightarrow> 'r \<Rightarrow> 'r rm_state" where
  "rm_init d r = \<lparr>rm_db = d, rm_open = [], rm_publishing = [], rm_fills = [], rm_redis = r, rm_stream = [], rm_acked = {}\<rparr>"

section \<open>Balances as maps\<close>

definition apply_event :: "transfer_completed \<Rightarrow> (int \<rightharpoonup> int) \<Rightarrow> (int \<rightharpoonup> int)" where
  "apply_event e m = m(tc_sender_id e \<mapsto> tc_sender_balance e, tc_receiver_id e \<mapsto> tc_receiver_balance e)"

definition good_event :: "transfer_completed \<Rightarrow> bool" where
  "good_event e \<longleftrightarrow> in64_event e \<and> tc_sender_id e \<noteq> tc_receiver_id e"

lemma apply_event_frame: "\<not> mentions e i \<Longrightarrow> apply_event e m i = m i"
  by (auto simp: apply_event_def mentions_def)

lemma fold_apply_event_frame: "\<forall>e \<in> set es. \<not> mentions e i \<Longrightarrow> fold apply_event es m i = m i"
  by (induction es arbitrary: m) (auto simp: apply_event_frame)

lemma apply_event_mono: "m \<subseteq>\<^sub>m n \<Longrightarrow> apply_event e m \<subseteq>\<^sub>m apply_event e n"
  unfolding apply_event_def by (intro map_le_upd)

lemma fold_apply_event_mentioned: "e \<in> set es \<Longrightarrow> mentions e i \<Longrightarrow> fold apply_event es m i \<noteq> None"
proof (induction es rule: rev_induct)
  case (snoc x es)
  then show ?case by (cases "mentions x i") (auto simp: apply_event_def mentions_def)
qed simp

lemma transfer_spec_balances:
  assumes "transfer_spec sid p d res d'" and "db_wf d"
  shows "db_balances d' = apply_event (event_of p res) (db_balances d)"
  using assms(1)
proof (cases rule: transfer_spec.cases)
  case (transferred s r i j k now now')
  have dist: "distinct (map u_id (users d))" using assms(2) by (simp add: db_wf_def)
  have move: "map_of (map (\<lambda>u. (u_id u, u_balance u)) (move_money sid (u_id r) a us)) x =
      (if x = sid then map_option (\<lambda>b. b - a) (db_balances (d\<lparr>users := us\<rparr>) x)
       else if x = u_id r then map_option (\<lambda>b. b + a) (db_balances (d\<lparr>users := us\<rparr>) x)
       else db_balances (d\<lparr>users := us\<rparr>) x)" for us a x
    by (induction us) (auto simp: move_money_def db_balances_def)
  have look: "db_balances d (u_id u) = Some (u_balance u)" if "u \<in> set (users d)" for u
    unfolding db_balances_def using that dist by (intro map_of_is_SomeI) (auto simp: comp_def image_iff)
  have "db_balances d' x = map_of (map (\<lambda>u. (u_id u, u_balance u)) (move_money sid (u_id r) (tp_amount p) (users d))) x" for x
    by (simp add: db_balances_def transferred(12))
  then show ?thesis
    using transferred(3,5,13) move[of "tp_amount p" "users d"] look[OF transferred(1)] look[OF transferred(2)]
    by (auto simp: apply_event_def event_of_def fun_eq_iff)
qed

section \<open>What the steps write\<close>

text \<open>Whatever part of the pipeline took effect, only the parties' balances can have changed.\<close>

lemma completed_cmds_frame:
  assumes "good_event e" and "in64 i" and "\<not> mentions e i" and "set cs \<subseteq> set (completed_cmds e sp rp)"
  shows "balance_of (fold redis_apply cs ks) i = balance_of ks i"
  using assms(4)
proof (induction cs arbitrary: ks)
  case (Cons c cs)
  have "balance_of (redis_apply c ks) i = balance_of ks i"
    using Cons.prems assms(1-3)
    by (auto simp: completed_cmds_def balance_rules good_event_def in64_event_def mentions_def
        simp del: redis_apply.simps)
  with Cons show ?case by simp
qed simp

context redis_service
begin

lemma rm_pipeline_frame:
  assumes "good_event (event_of p res)" and "in64 i" and "\<not> mentions (event_of p res) i"
  shows "balance_of (keys (rm_pipeline R p res r)) i = balance_of (keys r) i"
proof -
  let ?cs = "completed_cmds (event_of p res) (tr_senderPhone res) (tr_receiverPhone res)"
  obtain x r' where run: "rc_Pipeline R ?cs r = (x, r')" by fastforce
  obtain ks cs where "expired (keys r) ks" "keys r' = fold redis_apply cs ks" "set cs \<subseteq> set ?cs"
  proof (cases x)
    case None
    with run pipe_ok that show thesis by blast
  next
    case (Some e)
    with run pipe_err[of ?cs r e r'] that set_nths_subset show thesis by metis
  qed
  with completed_cmds_frame[OF assms] balance_of_expired run show ?thesis
    by (simp add: rm_pipeline_def PublishTransferCompleted_def)
qed

lemma rm_project_effect:
  assumes "good_event e" and "in64 i" and "rm_project R e r = (a, r')"
  shows "\<not> mentions e i \<Longrightarrow> balance_of (keys r') i = balance_of (keys r) i"
    and "a = Ack \<Longrightarrow> balance_of (keys r') i = apply_event e (balance_of (keys r)) i"
  using project_message_effect[OF redis_service_axioms, of e i r a r'] assms
  by (auto simp: good_event_def mentions_def rm_project_def apply_event_def)

end

section \<open>The invariant of ordered runs\<close>

lemma rm_log_frame [simp]:
  "rm_log (s\<lparr>rm_redis := r, rm_acked := a\<rparr>) = rm_log s"
  "rm_log (s\<lparr>rm_redis := r, rm_fills := fs\<rparr>) = rm_log s"
  "rm_log (s\<lparr>rm_fills := fs, rm_redis := r\<rparr>) = rm_log s"
  "rm_log (s\<lparr>rm_redis := r\<rparr>) = rm_log s"
  "rm_log (s\<lparr>rm_fills := fs\<rparr>) = rm_log s"
  "rm_log (s\<lparr>rm_db := d\<rparr>) = rm_log s"
  "rm_log (s\<lparr>rm_db := d, rm_open := rm_open s @ [(p, res)]\<rparr>) = rm_log s @ [event_of p res]"
  by (simp_all add: rm_log_def)

text \<open>A user's entry is settled when it is absent or the committed balance, and present once one of the
  first \<open>k\<close> events was the user's.\<close>

definition settled :: "('r \<Rightarrow> keyspace) \<Rightarrow> nat \<Rightarrow> 'r rm_state \<Rightarrow> int \<Rightarrow> bool" where
  "settled keys k s i \<longleftrightarrow>
     balance_of (keys (rm_redis s)) i \<in> {None, db_balances (rm_db s) i} \<and>
     ((\<exists>j < k. mentions (rm_log s ! j) i) \<longrightarrow> balance_of (keys (rm_redis s)) i \<noteq> None)"

text \<open>The log carries committed balances; the first \<open>k\<close> events are acknowledged; and the entry of every
  user without a pending event is settled.\<close>

definition rm_inv :: "('r \<Rightarrow> keyspace) \<Rightarrow> nat \<Rightarrow> 'r rm_state \<Rightarrow> bool" where
  "rm_inv keys k s \<longleftrightarrow>
     db_wf (rm_db s) \<and> list_all good_event (rm_log s) \<and>
     fold apply_event (rm_log s) Map.empty \<subseteq>\<^sub>m db_balances (rm_db s) \<and>
     (\<forall>i b. (i, Some b) \<in> set (rm_fills s) \<longrightarrow> in64 i \<and> in64 b) \<and>
     k \<le> length (rm_stream s) \<and> rm_acked s = {..<k} \<and>
     (\<forall>i. in64 i \<longrightarrow> pending s i \<or> settled keys k s i)"

lemma rm_inv_init:
  assumes "db_wf d" and "\<forall>i. balance_of (keys r) i = None \<or> balance_of (keys r) i = db_balances d i"
  shows "rm_inv keys 0 (rm_init d r)"
  using assms by (auto simp: rm_inv_def rm_init_def rm_log_def settled_def)

lemma rm_inv_wf: "rm_inv keys k s \<Longrightarrow> db_wf (rm_db s)"
  by (simp add: rm_inv_def)

lemma db_balances_user: "db_wf d \<Longrightarrow> u \<in> set (users d) \<Longrightarrow> db_balances d (u_id u) = Some (u_balance u)"
  unfolding db_balances_def by (intro map_of_is_SomeI) (auto simp: db_wf_def comp_def image_iff)

lemma db_balances_SomeD: "db_balances d i = Some b \<Longrightarrow> \<exists>u \<in> set (users d). u_id u = i \<and> u_balance u = b"
  by (auto simp: db_balances_def dest!: map_of_SomeD)

lemma db_balances_in64: "db_wf d \<Longrightarrow> db_balances d i = Some b \<Longrightarrow> in64 i \<and> in64 b"
  by (auto simp: user_row_wf_def dest!: db_balances_SomeD user_wf)

text \<open>Steps that change neither the log, the tables nor the acknowledgements keep the invariant when
  they keep the entries of the users without a pending event.\<close>

lemma rm_inv_redis:
  assumes "rm_inv keys k s" and "rm_log s' = rm_log s" and "rm_db s' = rm_db s" and "rm_acked s' = rm_acked s"
    and "length (rm_stream s) \<le> length (rm_stream s')"
    and "\<forall>i b. (i, Some b) \<in> set (rm_fills s') \<longrightarrow> in64 i \<and> in64 b"
    and "\<And>i. in64 i \<Longrightarrow> \<not> pending s i \<Longrightarrow> balance_of (keys (rm_redis s')) i = balance_of (keys (rm_redis s)) i \<or>
      balance_of (keys (rm_redis s')) i = db_balances (rm_db s) i \<and> db_balances (rm_db s) i \<noteq> None"
  shows "rm_inv keys k s'"
proof -
  have "settled keys k s' i" if "in64 i" "\<not> pending s i" for i
  proof -
    have "settled keys k s i" using assms(1) that by (auto simp: rm_inv_def)
    with assms(7)[OF that] show ?thesis unfolding settled_def assms(2,3) by (metis insert_iff singletonD)
  qed
  moreover have "pending s' i = pending s i" for i by (simp add: pending_def assms(2,4))
  ultimately show ?thesis using assms(1-6) by (auto simp: rm_inv_def)
qed

context redis_service
begin

lemma balance_get_frame:
  assumes "GetBalance R i r = (x, r')"
  shows "balance_of (keys r') j = balance_of (keys r) j"
proof -
  obtain y r1 where do: "rc_Do R (RHGet ''balance'' (Itoa i)) r = (y, r1)" by fastforce
  have "r1 = r'" using assms do by (auto simp: GetBalance_def split: sum.splits if_splits option.splits)
  moreover have "\<exists>ks. expired (keys r) ks \<and> keys r1 = ks"
  proof (cases y)
    case (Inl e)
    then show ?thesis using do do_nil[of _ r e r1] do_err[of _ r e r1] by fastforce
  next
    case (Inr v)
    then show ?thesis using do do_ok by fastforce
  qed
  ultimately show ?thesis using balance_of_expired by blast
qed

lemma rm_fill_effect:
  assumes "in64 i" and "in64 b" and "in64 j"
  shows "balance_of (keys (rm_fill R i b r)) j = balance_of (keys r) j \<or>
    j = i \<and> balance_of (keys (rm_fill R i b r)) j = Some b"
proof -
  obtain y r1 where do: "rc_Do R (hset_balance i b) r = (y, r1)" by fastforce
  have r1: "rm_fill R i b r = r1" using do by (auto simp: rm_fill_def SetBalance_def split: sum.splits)
  have "\<exists>ks. expired (keys r) ks \<and> (keys r1 = ks \<or> keys r1 = redis_apply (hset_balance i b) ks)"
  proof (cases y)
    case (Inl e)
    then show ?thesis using do do_nil[of _ r e r1] do_err[of _ r e r1] by blast
  next
    case (Inr v)
    then show ?thesis using do do_ok by blast
  qed
  then show ?thesis using assms by (auto simp: r1 balance_rules dest!: balance_of_expired[of _ _ j] split: if_splits)
qed

lemma commit_inv:
  assumes "transfer_spec sid p (rm_db s) res d'" and "0 < tp_amount p" and "in64 (tp_amount p)" and "rm_inv keys k s"
  shows "rm_inv keys k (s\<lparr>rm_db := d', rm_open := rm_open s @ [(p, res)]\<rparr>)" (is "rm_inv keys k ?s")
proof -
  note wf = rm_inv_wf[OF assms(4)]
  let ?e = "event_of p res"
  have good: "good_event ?e" using spec_event[OF assms(1) wf assms(2,3)] by (simp add: good_event_def)
  note bal = transfer_spec_balances[OF assms(1) wf]
  have len: "k \<le> length (rm_log s)" using assms(4) by (simp add: rm_inv_def rm_log_def)
  have "pending s i \<or> settled keys k s i" if "in64 i" for i using assms(4) that by (simp add: rm_inv_def)
  moreover have "pending ?s i" if "pending s i" for i
    using that by (auto simp: pending_def nth_append)
  moreover have "pending ?s i" if "mentions ?e i" for i
    using that assms(4) len by (auto simp: pending_def rm_inv_def intro!: exI[of _ "length (rm_log s)"])
  moreover have "settled keys k ?s i" if "settled keys k s i" "\<not> mentions ?e i" for i
    using that len by (auto simp: settled_def bal apply_event_frame nth_append)
  ultimately have "\<forall>i. in64 i \<longrightarrow> pending ?s i \<or> settled keys k ?s i" by blast
  with assms(4) good transfer_spec_wf[OF assms(1) wf assms(2,3)] show ?thesis
    by (auto simp: rm_inv_def bal intro: apply_event_mono)
qed

lemma other_write_inv:
  assumes "db_wf d'" and le: "db_balances (rm_db s) \<subseteq>\<^sub>m db_balances d'" and "rm_inv keys k s"
  shows "rm_inv keys k (s\<lparr>rm_db := d'\<rparr>)"
proof -
  have "settled keys k (s\<lparr>rm_db := d'\<rparr>) i" if "settled keys k s i" for i
    using that le by (cases "db_balances (rm_db s) i") (auto simp: settled_def map_le_def dom_def)
  moreover have "pending (s\<lparr>rm_db := d'\<rparr>) i = pending s i" for i by (simp add: pending_def)
  ultimately show ?thesis using assms by (auto simp: rm_inv_def intro: map_le_trans)
qed

lemma deliver_inv:
  assumes "i < length (rm_stream s)" and "rm_project R (rm_stream s ! i) (rm_redis s) = (a, r')"
    and "acked = rm_acked s \<or> (a = Ack \<and> acked = insert i (rm_acked s))" and inv: "rm_inv keys i s"
  shows "\<exists>k'. rm_inv keys k' (s\<lparr>rm_redis := r', rm_acked := acked\<rparr>)"
proof -
  let ?s = "s\<lparr>rm_redis := r', rm_acked := acked\<rparr>" and ?e = "rm_log s ! i"
  have i: "i < length (rm_log s)" "rm_stream s ! i = ?e" "rm_acked s = {..<i}"
    using assms(1) inv by (simp_all add: rm_log_def nth_append rm_inv_def)
  have good: "good_event ?e" using inv i(1) by (auto simp: rm_inv_def list_all_length)
  note eff = rm_project_effect[OF good _ assms(2)[unfolded i(2)]]
  have pend: "pending s j" if "mentions ?e j" for j using that i by (auto simp: pending_def)
  show ?thesis
  proof (cases "acked = rm_acked s")
    case True
    have "rm_inv keys i ?s" using inv by (rule rm_inv_redis) (use True eff(1) pend inv in \<open>auto simp: rm_inv_def\<close>)
    then show ?thesis by blast
  next
    case False
    with assms(3) have a: "a = Ack" "acked = {..<Suc i}" by (simp_all add: i(3) lessThan_Suc)
    have rep: "rm_log s = take i (rm_log s) @ ?e # drop (Suc i) (rm_log s)" using i(1) by (rule id_take_nth_drop)
    have "settled keys (Suc i) ?s j" if j: "in64 j" "\<not> pending ?s j" for j
    proof (cases "mentions ?e j")
      case True
      have "\<forall>e \<in> set (drop (Suc i) (rm_log s)). \<not> mentions e j"
      proof
        fix e assume "e \<in> set (drop (Suc i) (rm_log s))"
        then obtain n where "n < length (rm_log s) - Suc i" "e = rm_log s ! (Suc i + n)" by (auto simp: in_set_conv_nth)
        with j(2) show "\<not> mentions e j" by (auto simp: pending_def a(2) dest!: spec[of _ "Suc i + n"])
      qed
      then have last: "fold apply_event (rm_log s) Map.empty j = apply_event ?e m j" for m
        by (subst rep) (use True in \<open>auto simp: fold_apply_event_frame apply_event_def mentions_def\<close>)
      obtain b where b: "apply_event ?e (balance_of (keys (rm_redis s))) j = Some b"
        using True by (fastforce simp: apply_event_def mentions_def split: if_splits)
      have "db_balances (rm_db s) j = Some b"
        using inv last[of "balance_of (keys (rm_redis s))"] b by (simp add: rm_inv_def map_le_def dom_def)
      then show ?thesis using eff(2)[OF j(1) a(1)] b by (simp add: settled_def)
    next
      case False
      then have "\<not> pending s j" using j(2) by (auto simp: pending_def a(2) i(3) less_Suc_eq)
      then show ?thesis using inv j(1) eff(1)[OF j(1) False] False by (auto simp: rm_inv_def settled_def less_Suc_eq)
    qed
    with inv assms(1) a(2) show ?thesis by (intro exI[of _ "Suc i"]) (auto simp: rm_inv_def)
  qed
qed

lemma ordered_step_inv:
  assumes "ordered_step R s s'" and "rm_inv keys k s"
  shows "\<exists>k'. rm_inv keys k' s'"
  using assms
proof (induction rule: ordered_step.induct)
  case (commit sid p s res d')
  then show ?case using commit_inv by blast
next
  case (other_write d' s)
  then show ?case using other_write_inv by blast
next
  case (pipeline s p res ys)
  let ?e = "event_of p res"
  have "?e \<in> set (drop k (rm_log s))" "good_event ?e" using pipeline by (auto simp: rm_inv_def rm_log_def)
  moreover from this(1) obtain j where "k + j < length (rm_log s)" "rm_log s ! (k + j) = ?e"
    by (fastforce simp: in_set_conv_nth less_diff_conv add.commute)
  ultimately have "good_event ?e" "\<And>i. mentions ?e i \<Longrightarrow> pending s i"
    using pipeline.prems by (auto simp: rm_inv_def pending_def intro!: exI[of _ "k + j"])
  then have "balance_of (keys (rm_pipeline R p res (rm_redis s))) i = balance_of (keys (rm_redis s)) i"
    if "in64 i" "\<not> pending s i" for i using rm_pipeline_frame that by blast
  then show ?case
    by (intro exI[of _ k] rm_inv_redis[OF pipeline.prems]) (use pipeline in \<open>auto simp: rm_log_def rm_inv_def\<close>)
next
  case (publish s e ys)
  then show ?case
    by (intro exI[of _ k] rm_inv_redis[OF publish.prems]) (auto simp: rm_log_def rm_inv_def)
next
  case (deliver i s a r' acked)
  then have "k = i" by (simp add: rm_inv_def)
  with deliver show ?case using deliver_inv by blast
next
  case (balance_get i s x r')
  then show ?case
    by (intro exI[of _ k] rm_inv_redis[OF balance_get.prems]) (auto simp: rm_inv_def balance_get_frame split: if_splits)
next
  case (fill_read s xs i ys b)
  then have "in64 i \<and> in64 b" using db_balances_in64 rm_inv_wf by blast
  with fill_read show ?case
    by (intro exI[of _ k] rm_inv_redis[OF fill_read.prems]) (auto simp: rm_inv_def)
next
  case (fill_failed s xs i ys)
  then show ?case
    by (intro exI[of _ k] rm_inv_redis[OF fill_failed.prems]) (auto simp: rm_inv_def)
next
  case (fill_write s xs i b ys)
  then have ib: "in64 i" "in64 b" by (auto simp: rm_inv_def)
  show ?case
  proof (intro exI[of _ k] rm_inv_redis[OF fill_write.prems])
    fix j assume "in64 j" "\<not> pending s j"
    then show "balance_of (keys (rm_redis (s\<lparr>rm_fills := xs @ ys, rm_redis := rm_fill R i b (rm_redis s)\<rparr>))) j =
        balance_of (keys (rm_redis s)) j \<or>
      balance_of (keys (rm_redis (s\<lparr>rm_fills := xs @ ys, rm_redis := rm_fill R i b (rm_redis s)\<rparr>))) j =
        db_balances (rm_db s) j \<and> db_balances (rm_db s) j \<noteq> None"
      using rm_fill_effect[OF ib, of j "rm_redis s"] fill_write.hyps(2) by auto
  qed (use fill_write in \<open>auto simp: rm_inv_def\<close>)
qed

lemma ordered_run_inv:
  assumes "(ordered_step R)\<^sup>*\<^sup>* s0 s" and "rm_inv keys 0 s0"
  shows "\<exists>k. rm_inv keys k s"
  using assms(1)
proof (induction rule: rtranclp_induct)
  case base
  show ?case using assms(2) by blast
next
  case (step s s')
  then show ?case using ordered_step_inv by blast
qed

end

section \<open>Two transfers\<close>

text \<open>Alice pays Bob 30, twice.\<close>

definition pay30 :: transfer_payload where
  "pay30 = \<lparr>tp_account_number = [], tp_phone = ''0902'', tp_username = [], tp_amount = 30\<rparr>"

definition paid :: "int \<Rightarrow> db \<Rightarrow> db" where
  "paid i d = \<lparr>users = move_money 1 2 30 (users d),
     transfers = transfers d @ [\<lparr>t_id = i, t_from_user = 1, t_to_user = 2, t_amount = 30, t_created_at = 0\<rparr>],
     notifications = notifications d @
       [\<lparr>n_id = 2 * i - 1, n_user_id = 1, n_message = sent_msg 30 bobby, n_is_read = False, n_created_at = 0\<rparr>,
        \<lparr>n_id = 2 * i, n_user_id = 2, n_message = received_msg 30 alice, n_is_read = False, n_created_at = 0\<rparr>]\<rparr>"

definition paid_res :: "int \<Rightarrow> transfer_result" where
  "paid_res i = \<lparr>tr_transferID = i, tr_senderID = 1, tr_receiverID = 2, tr_senderPhone = ''0901'',
     tr_receiverPhone = ''0902'', tr_senderBalance = 500 - 30 * i, tr_receiverBalance = 70 + 30 * i\<rparr>"

lemma paid_spec: "transfer_spec 1 pay30 sample_db (paid_res 1) (paid 1 sample_db)"
  "transfer_spec 1 pay30 (paid 1 sample_db) (paid_res 2) (paid 2 (paid 1 sample_db))"
proof -
  show "transfer_spec 1 pay30 sample_db (paid_res 1) (paid 1 sample_db)"
    by (rule transfer_spec.transferred[where s = alice and r = bobby and i = 1 and j = 1 and k = 2 and now = 0 and now' = 0])
      code_simp+
  show "transfer_spec 1 pay30 (paid 1 sample_db) (paid_res 2) (paid 2 (paid 1 sample_db))"
    by (rule transfer_spec.transferred[where s = "alice\<lparr>u_balance := 470\<rparr>" and r = "bobby\<lparr>u_balance := 100\<rparr>" and i = 2 and
          j = 3 and k = 4 and now = 0 and now' = 0]) code_simp+
qed

lemma pay30_amount: "0 < tp_amount pay30" "in64 (tp_amount pay30)"
  by (simp_all add: pay30_def in64_def)

abbreviation evt :: "int \<Rightarrow> transfer_completed" where
  "evt i \<equiv> event_of pay30 (paid_res i)"

abbreviation piped :: "int \<Rightarrow> memredis \<Rightarrow> memredis" where
  "piped i r \<equiv> rm_pipeline (mem_redis False) pay30 (paid_res i) r"

definition projected :: "int \<Rightarrow> memredis \<Rightarrow> memredis" where
  "projected i r = snd (rm_project (mem_redis False) (evt i) r)"

definition rm_r0 :: memredis where
  "rm_r0 = w_redis (sample_world [])"

lemma project_ack: "rm_project (mem_redis False) (evt i) r = (Ack, projected i r)" if "i = 1 \<or> i = 2"
proof -
  have "decode_transfer_completed (Some (transfer_completed_json (evt i))) = Some (evt i)"
    using that by (intro decode_encode_event) (auto simp: in64_event_def event_of_def pay30_def paid_res_def in64_def)
  moreover have "fst (SetBalanceBatch (mem_redis False) a b c d r) = None" for a b c d
    using rel_mred.pipe_total by (metis SetBalanceBatch_def option.exhaust prod.collapse)
  ultimately have "fst (rm_project (mem_redis False) (evt i) r) = Ack"
    by (simp add: rm_project_def project_message_def split: prod.splits option.splits) (metis fst_conv option.distinct(1))
  then show ?thesis by (metis projected_def prod.collapse)
qed


text \<open>A run with a back-fill: the sender's balance request misses, the transfer commits, the request
  reads the new balance; then pipeline, publication and projection, and at last the write. In
  \<open>late_state\<close> the request reads before the commit instead; only its write is left.\<close>

abbreviation missed :: memredis where
  "missed \<equiv> snd (GetBalance (mem_redis False) 1 rm_r0)"

lemma missed_get: "GetBalance (mem_redis False) 1 rm_r0 = (Inr None, missed)"
proof -
  have "fst (GetBalance (mem_redis False) 1 rm_r0) = Inr None" by code_simp
  then show ?thesis by (simp add: prod_eq_iff)
qed

definition late_state :: "int \<Rightarrow> memredis rm_state" where
  "late_state b =
     \<lparr>rm_db = paid 1 sample_db, rm_open = [], rm_publishing = [], rm_fills = [(1, Some b)],
      rm_redis = projected 1 (piped 1 missed), rm_stream = [evt 1], rm_acked = {0}\<rparr>"

lemma ordered_transfer:
  assumes "rm_fills s = fs" and "rm_db s = paid 1 sample_db" and "rm_open s = [(pay30, paid_res 1)]"
    and "rm_publishing s = []" and "rm_redis s = r" and "rm_stream s = []" and "rm_acked s = {}"
  shows "(ordered_step (mem_redis False))\<^sup>*\<^sup>* s
     \<lparr>rm_db = paid 1 sample_db, rm_open = [], rm_publishing = [], rm_fills = fs, rm_redis = projected 1 (piped 1 r),
      rm_stream = [evt 1], rm_acked = {0}\<rparr>" (is "?S\<^sup>*\<^sup>* _ ?s4")
proof -
  let ?s1 = "\<lparr>rm_db = paid 1 sample_db, rm_open = [(pay30, paid_res 1)], rm_publishing = [], rm_fills = fs, rm_redis = r,
      rm_stream = [], rm_acked = {}\<rparr>"
  let ?s2 = "?s1\<lparr>rm_open := [], rm_publishing := [evt 1], rm_redis := piped 1 r\<rparr>"
  let ?s3 = "?s2\<lparr>rm_publishing := [], rm_stream := [evt 1]\<rparr>"
  have "s = ?s1" using assms by simp
  moreover have "?S ?s1 ?s2" using ordered_step.pipeline[of ?s1 pay30 "paid_res 1" "[]"] by simp
  moreover have "?S ?s2 ?s3" using ordered_step.publish[of ?s2 "evt 1" "[]"] by simp
  moreover have "?S ?s3 ?s4"
    using ordered_step.deliver[of 0 ?s3 "mem_redis False" Ack _ "{0}"] project_ack[of 1] by simp
  ultimately show ?thesis by (meson converse_rtranclp_into_rtranclp r_into_rtranclp)
qed

lemma reach_late_state:
  assumes "b = 500 \<or> b = 470"
  shows "(ordered_step (mem_redis False))\<^sup>*\<^sup>* (rm_init sample_db rm_r0) (late_state b)"
proof -
  let ?S = "ordered_step (mem_redis False)"
  let ?m = "(rm_init sample_db rm_r0)\<lparr>rm_redis := missed, rm_fills := [(1, None)]\<rparr>"
  let ?c = "?m\<lparr>rm_fills := [(1, Some b)], rm_db := paid 1 sample_db, rm_open := [(pay30, paid_res 1)]\<rparr>"
  have "?S (rm_init sample_db rm_r0) ?m"
    using ordered_step.balance_get[of "mem_redis False" 1 "rm_init sample_db rm_r0" "Inr None" missed] missed_get by (simp add: rm_init_def)
  moreover have "?S\<^sup>*\<^sup>* ?m ?c"
  proof (cases "b = 500")
    case True
    have "db_balances sample_db 1 = Some 500" by code_simp
    then have "?S ?m (?m\<lparr>rm_fills := [(1, Some b)]\<rparr>)"
      using ordered_step.fill_read[of ?m "[]" 1 "[]" b "mem_redis False"] True by (simp add: rm_init_def)
    moreover have "?S (?m\<lparr>rm_fills := [(1, Some b)]\<rparr>) ?c"
      using ordered_step.commit[of 1 pay30 "?m\<lparr>rm_fills := [(1, Some b)]\<rparr>" "paid_res 1" "paid 1 sample_db" "mem_redis False"]
        paid_spec(1) pay30_amount by (simp add: rm_init_def)
    ultimately show ?thesis by (meson converse_rtranclp_into_rtranclp r_into_rtranclp)
  next
    case False
    let ?d = "?m\<lparr>rm_db := paid 1 sample_db, rm_open := [(pay30, paid_res 1)]\<rparr>"
    have "db_balances (paid 1 sample_db) 1 = Some 470" by code_simp
    then have "?S ?d ?c"
      using ordered_step.fill_read[of ?d "[]" 1 "[]" b "mem_redis False"] assms False by (simp add: rm_init_def)
    moreover have "?S ?m ?d"
      using ordered_step.commit[of 1 pay30 ?m "paid_res 1" "paid 1 sample_db" "mem_redis False"]
        paid_spec(1) pay30_amount by (simp add: rm_init_def)
    ultimately show ?thesis by (meson converse_rtranclp_into_rtranclp r_into_rtranclp)
  qed
  moreover have "?S\<^sup>*\<^sup>* ?c (late_state b)"
    unfolding late_state_def by (rule ordered_transfer) (simp_all add: rm_init_def)
  ultimately show ?thesis by (meson converse_rtranclp_into_rtranclp rtranclp_trans)
qed

definition written :: "int \<Rightarrow> memredis rm_state" where
  "written b = (late_state b)\<lparr>rm_fills := [], rm_redis := rm_fill (mem_redis False) 1 b (rm_redis (late_state b))\<rparr>"

lemma written_quiescent: "quiescent (written b)"
  by (auto simp: written_def late_state_def quiescent_def)


lemma late_write:
  "balance_of (mr_keys (rm_redis (late_state 500))) 1 = Some 470" "balance_of (mr_keys (rm_redis (written 500))) 1 = Some 500"
  "db_balances (rm_db (written 500)) 1 = Some 470"
  "fst (handleBalance (mem_bob no_ilike False) (mem_redis False) sample_ctx ''balance'' None (\<lambda>_. [])
     ((sample_world [])\<lparr>w_redis := rm_redis (written 500)\<rparr>)) = reply 200 (JObj [(''balance'', JInt 500)])"
  by (code_simp, code_simp, code_simp, code_simp)

text \<open>A late back-fill alone makes the read model wrong: in a run in which everything else
  finishes in order and without a fault, a balance request that missed the hash reads 500, a transfer
  of that user commits, is projected and acknowledged, so that the hash holds the committed 470, and
  then the request writes the 500 it read. Nothing is left to do, and a balance reply shows 500.\<close>

lemma late_back_fill_goes_stale:
  "\<exists>s s'. (ordered_step (mem_redis False))\<^sup>*\<^sup>* (rm_init sample_db rm_r0) s \<and>
     balance_of (mr_keys (rm_redis s)) 1 = db_balances (rm_db s) 1 \<and>
     rm_step (mem_redis False) s s' \<and> quiescent s' \<and>
     db_balances (rm_db s') 1 = Some 470 \<and> balance_of (mr_keys (rm_redis s')) 1 = Some 500 \<and>
     fst (handleBalance (mem_bob no_ilike False) (mem_redis False) sample_ctx ''balance'' None (\<lambda>_. [])
       ((sample_world [])\<lparr>w_redis := rm_redis s'\<rparr>)) = reply 200 (JObj [(''balance'', JInt 500)])"
proof -
  have "rm_step (mem_redis False) (late_state 500) (written 500)"
    using rm_step.fill_write[of "late_state 500" "[]" 1 500 "[]" "mem_redis False"]
    by (simp add: written_def) (simp add: late_state_def)
  moreover have "rm_db (written 500) = rm_db (late_state 500)" by (simp add: written_def)
  ultimately show ?thesis
    using reach_late_state[of 500] late_write written_quiescent[of 500]
    by (intro exI[of _ "late_state 500"] exI[of _ "written 500"]) simp
qed

definition stale_redis :: memredis where
  "stale_redis = projected 1 (projected 2 (piped 1 (piped 2 rm_r0)))"

lemma stale_balances:
  "balance_of (mr_keys stale_redis) 1 = Some 470" "balance_of (mr_keys stale_redis) 2 = Some 100"
  "fst (handleBalance (mem_bob no_ilike False) (mem_redis False) sample_ctx ''balance'' None (\<lambda>_. [])
     ((sample_world [])\<lparr>w_redis := stale_redis\<rparr>)) = reply 200 (JObj [(''balance'', JInt 470)])"
  by (code_simp, code_simp, code_simp)

text \<open>Property C14. Out of commit order the read model can stay wrong: two concurrent transfers of the same
  sender, the handler of the second one being faster after the commit, lead, without any fault, to a
  state in which everything is published, projected and acknowledged, and in which the hash holds
  balances of both parties that the tables do not hold; a balance reply shows the stale value.\<close>

theorem read_model_can_stay_stale:
  "\<exists>s. (rm_step (mem_redis False))\<^sup>*\<^sup>* (rm_init sample_db rm_r0) s \<and> quiescent s \<and>
     db_balances (rm_db s) 1 = Some 440 \<and> balance_of (mr_keys (rm_redis s)) 1 = Some 470 \<and>
     db_balances (rm_db s) 2 = Some 130 \<and> balance_of (mr_keys (rm_redis s)) 2 = Some 100 \<and>
     fst (handleBalance (mem_bob no_ilike False) (mem_redis False) sample_ctx ''balance'' None (\<lambda>_. [])
       ((sample_world [])\<lparr>w_redis := rm_redis s\<rparr>)) = reply 200 (JObj [(''balance'', JInt 470)])"
proof -
  let ?S = "rm_step (mem_redis False)"
  let ?s1 = "\<lparr>rm_db = paid 1 sample_db, rm_open = [(pay30, paid_res 1)], rm_publishing = [], rm_fills = [], rm_redis = rm_r0,
      rm_stream = [], rm_acked = {}\<rparr>"
  let ?s2 = "?s1\<lparr>rm_db := paid 2 (paid 1 sample_db), rm_open := [(pay30, paid_res 1), (pay30, paid_res 2)]\<rparr>"
  let ?s3 = "?s2\<lparr>rm_open := [(pay30, paid_res 1)], rm_publishing := [evt 2], rm_redis := piped 2 rm_r0\<rparr>"
  let ?s4 = "?s3\<lparr>rm_open := [], rm_publishing := [evt 2, evt 1], rm_redis := piped 1 (piped 2 rm_r0)\<rparr>"
  let ?s5 = "?s4\<lparr>rm_publishing := [evt 1], rm_stream := [evt 2]\<rparr>"
  let ?s6 = "?s5\<lparr>rm_publishing := [], rm_stream := [evt 2, evt 1]\<rparr>"
  let ?s7 = "?s6\<lparr>rm_redis := projected 2 (piped 1 (piped 2 rm_r0)), rm_acked := {0}\<rparr>"
  let ?s8 = "?s7\<lparr>rm_redis := projected 1 (projected 2 (piped 1 (piped 2 rm_r0))), rm_acked := {1, 0}\<rparr>"
  have "?S (rm_init sample_db rm_r0) ?s1"
    using rm_step.commit[of 1 pay30 "rm_init sample_db rm_r0"] paid_spec(1) pay30_amount by (fastforce simp: rm_init_def)
  moreover have "?S ?s1 ?s2"
    using rm_step.commit[of 1 pay30 ?s1 "paid_res 2" "paid 2 (paid 1 sample_db)"] paid_spec(2) pay30_amount by simp
  moreover have "?S ?s2 ?s3" using rm_step.pipeline[of ?s2 "[(pay30, paid_res 1)]" pay30 "paid_res 2" "[]"] by simp
  moreover have "?S ?s3 ?s4" using rm_step.pipeline[of ?s3 "[]" pay30 "paid_res 1" "[]"] by simp
  moreover have "?S ?s4 ?s5" using rm_step.publish[of ?s4 "[]" "evt 2" "[evt 1]"] by simp
  moreover have "?S ?s5 ?s6" using rm_step.publish[of ?s5 "[]" "evt 1" "[]"] by simp
  moreover have "?S ?s6 ?s7" using rm_step.deliver[of 0 ?s6 "mem_redis False" Ack _ "{0}"] project_ack[of 2] by simp
  moreover have "?S ?s7 ?s8" using rm_step.deliver[of 1 ?s7 "mem_redis False" Ack _ "{1, 0}"] project_ack[of 1] by simp
  ultimately have "?S\<^sup>*\<^sup>* (rm_init sample_db rm_r0) ?s8" by (meson converse_rtranclp_into_rtranclp r_into_rtranclp)
  moreover have "quiescent ?s8" by (auto simp: quiescent_def)
  moreover have "db_balances (rm_db ?s8) 1 = Some 440" "db_balances (rm_db ?s8) 2 = Some 130"
    by code_simp+
  moreover have "rm_redis ?s8 = stale_redis" by (simp add: stale_redis_def)
  ultimately show ?thesis using stale_balances by (intro exI[of _ ?s8] conjI) simp_all
qed

end
