(* ===== verification/Projection_Limits.thy ===== *)
theory Projection_Limits
  imports Read_Model
begin

text \<open>
  The balance projection with the limit of its consumer: JetStream counts the deliveries of a message
  and stops after \<^verbatim>\<open>MaxDeliver\<close> of them. \<open>limited_step\<close> is \<open>rm_step\<close> with that count; a negative
  acknowledgement with a delay counts as a delivery.
\<close>

type_synonym 'r limited = "'r rm_state \<times> (nat \<Rightarrow> nat)"

definition deliverable :: "'r limited \<Rightarrow> nat \<Rightarrow> bool" where
  "deliverable st i \<longleftrightarrow>
     i < length (rm_stream (fst st)) \<and> i \<notin> rm_acked (fst st) \<and> int (snd st i) < cc_MaxDeliver balance_consumer_config"

inductive limited_step :: "'r redis \<Rightarrow> 'r limited \<Rightarrow> 'r limited \<Rightarrow> bool" for R where
  handler: "rm_step R s s' \<Longrightarrow> rm_open s' \<noteq> rm_open s \<or> rm_publishing s' \<noteq> rm_publishing s \<Longrightarrow>
    limited_step R (s, tries) (s', tries)"
| deliver: "deliverable (s, tries) i \<Longrightarrow> rm_project R (rm_stream s ! i) (rm_redis s) = (a, r') \<Longrightarrow>
    acked = rm_acked s \<or> (a = Ack \<and> acked = insert i (rm_acked s)) \<Longrightarrow>
    limited_step R (s, tries) (s\<lparr>rm_redis := r', rm_acked := acked\<rparr>, tries(i := Suc (tries i)))"

text \<open>The limit only takes runs away, so the convergence of \<open>Read_Model\<close> holds for what remains.\<close>

lemma limited_step_rm_step: "limited_step R st st' \<Longrightarrow> rm_step R (fst st) (fst st')"
  by (induction rule: limited_step.induct) (auto simp: deliverable_def intro: rm_step.deliver)

section \<open>What was given up stays given up\<close>

definition given_up :: "'r limited \<Rightarrow> nat \<Rightarrow> bool" where
  "given_up st i \<longleftrightarrow>
     i < length (rm_stream (fst st)) \<and> i \<notin> rm_acked (fst st) \<and> cc_MaxDeliver balance_consumer_config \<le> int (snd st i)"

lemma given_up_stays:
  assumes "limited_step R st st'" and "given_up st i"
  shows "given_up st' i \<and> rm_stream (fst st') ! i = rm_stream (fst st) ! i"
  using assms
proof (induction rule: limited_step.induct)
  case (handler s s' tries)
  from handler(1,3) show ?case by (cases rule: rm_step.cases) (use handler(2) in \<open>auto simp: given_up_def nth_append\<close>)
next
  case (deliver s tries j a r' acked)
  then have "j \<noteq> i" by (auto simp: given_up_def deliverable_def)
  with deliver show ?case by (auto simp: given_up_def)
qed

text \<open>At most \<^verbatim>\<open>MaxDeliver\<close> deliveries of each message.\<close>

lemma deliveries_bounded:
  assumes "limited_step R st st'" and "\<forall>i. int (snd st i) \<le> cc_MaxDeliver balance_consumer_config"
  shows "\<forall>i. int (snd st' i) \<le> cc_MaxDeliver balance_consumer_config"
  using assms by (induction rule: limited_step.induct) (auto simp: deliverable_def)

section \<open>An outage\<close>

text \<open>Redis holds the balances of Alice and Bob and is down for the next \<open>n\<close> calls.\<close>

definition warm_keys :: keyspace where
  "warm_keys = sample_keys\<lparr>r_hash := [(''balance'', ''1'') \<mapsto> RText ''500'', (''balance'', ''2'') \<mapsto> RText ''70'']\<rparr>"

definition down :: "nat \<Rightarrow> memredis" where
  "down n = \<lparr>mr_keys = warm_keys, mr_script = replicate n (RFault (OtherErr ''connection refused'') False)\<rparr>"

lemma outage_fault [simp]: "redis_fault (OtherErr ''connection refused'')"
  by (simp add: redis_fault_def app_err_def app_errors_def)

lemma pipeline_down: "rm_pipeline (mem_redis True) pay30 (paid_res 1) (down (Suc n)) = down n"
  by (simp add: rm_pipeline_def PublishTransferCompleted_def mem_redis_def mr_tick_def down_def)

lemma project_down: "rm_project (mem_redis True) (evt 1) (down (Suc n)) = (NakWithDelay (5 * second), down n)"
proof -
  have "decode_transfer_completed (Some (transfer_completed_json (evt 1))) = Some (evt 1)"
    by (intro decode_encode_event) (auto simp: in64_event_def event_of_def pay30_def paid_res_def in64_def)
  then show ?thesis
    by (simp add: rm_project_def project_message_def SetBalanceBatch_def mem_redis_def mr_tick_def down_def)
qed

definition outage_state :: "nat \<Rightarrow> memredis limited" where
  "outage_state k =
     (\<lparr>rm_db = paid 1 sample_db, rm_open = [], rm_publishing = [], rm_fills = [], rm_redis = down (5 - k), rm_stream = [evt 1], rm_acked = {}\<rparr>,
      (\<lambda>_. 0)(0 := k))"

lemma outage_delivery:
  assumes "k < 5"
  shows "limited_step (mem_redis True) (outage_state k) (outage_state (Suc k))"
proof -
  have "5 - k = Suc (4 - k)" using assms by simp
  with assms limited_step.deliver[of "fst (outage_state k)" "snd (outage_state k)" 0 "mem_redis True" "NakWithDelay (5 * second)"
      "down (4 - k)" "{}"] project_down[of "4 - k"]
  show ?thesis by (simp add: outage_state_def deliverable_def balance_consumer_config_def)
qed

lemma outage_start: "(limited_step (mem_redis True))\<^sup>*\<^sup>* (rm_init sample_db (down 6), \<lambda>_. 0) (outage_state 0)"
proof -
  let ?S = "limited_step (mem_redis True)" and ?t = "\<lambda>_. 0 :: nat" and ?s0 = "rm_init sample_db (down 6)"
  let ?s1 = "\<lparr>rm_db = paid 1 sample_db, rm_open = [(pay30, paid_res 1)], rm_publishing = [], rm_fills = [], rm_redis = down 6,
      rm_stream = [], rm_acked = {}\<rparr>"
  let ?s2 = "?s1\<lparr>rm_open := [], rm_publishing := [evt 1], rm_redis := down 5\<rparr>"
  have "rm_step (mem_redis True) ?s0 ?s1"
    using rm_step.commit[of 1 pay30 ?s0] paid_spec(1) pay30_amount by (fastforce simp: rm_init_def)
  then have "?S (?s0, ?t) (?s1, ?t)" by (rule limited_step.handler) (simp add: rm_init_def)
  moreover have "rm_step (mem_redis True) ?s1 ?s2"
    using rm_step.pipeline[of ?s1 "[]" pay30 "paid_res 1" "[]" "mem_redis True"] pipeline_down[of 5] by simp
  then have "?S (?s1, ?t) (?s2, ?t)" by (rule limited_step.handler) simp
  moreover have "rm_step (mem_redis True) ?s2 (fst (outage_state 0))"
    using rm_step.publish[of ?s2 "[]" "evt 1" "[]" "mem_redis True"] by (simp add: outage_state_def)
  then have "?S (?s2, ?t) (fst (outage_state 0), ?t)" by (rule limited_step.handler) (simp add: outage_state_def)
  moreover have "(fst (outage_state 0), ?t) = outage_state 0" by (simp add: outage_state_def fun_eq_iff)
  ultimately show ?thesis by (metis (no_types, lifting) rtranclp.simps)
qed

lemma outage_deliveries: "k \<le> 5 \<Longrightarrow> (limited_step (mem_redis True))\<^sup>*\<^sup>* (outage_state 0) (outage_state k)"
proof (induction k)
  case (Suc k)
  then show ?case using outage_delivery[of k] by (auto intro: rtranclp.rtrancl_into_rtrancl)
qed simp

definition outage_world :: "memredis limited \<Rightarrow> (memdb, memredis, memjs) world" where
  "outage_world st =
     (sample_world [])\<lparr>w_db := \<lparr>m_db = rm_db (fst st), m_now = 0, m_faults = []\<rparr>, w_redis := rm_redis (fst st)\<rparr>"

text \<open>Property C15. An outage of Redis that outlasts five deliveries makes the read model wrong for good: a
  transfer commits while Redis is down, its pipeline and the five deliveries of its event fail, and
  then Redis is back; nothing is left to deliver, the event is given up, the tables hold 470 for the
  sender, and a balance reply shows 500.\<close>

theorem outage_leaves_read_model_stale:
  "\<exists>st. (limited_step (mem_redis True))\<^sup>*\<^sup>* (rm_init sample_db (down 6), \<lambda>_. 0) st \<and>
     rm_open (fst st) = [] \<and> rm_publishing (fst st) = [] \<and> (\<nexists>i. deliverable st i) \<and> given_up st 0 \<and>
     mr_script (rm_redis (fst st)) = [] \<and> db_balances (rm_db (fst st)) 1 = Some 470 \<and>
     fst (handleBalance (mem_bob no_ilike True) (mem_redis True) sample_ctx ''balance'' None (\<lambda>_. []) (outage_world st)) =
       reply 200 (JObj [(''balance'', JInt 500)])"
proof -
  let ?st = "outage_state 5"
  have "(limited_step (mem_redis True))\<^sup>*\<^sup>* (rm_init sample_db (down 6), \<lambda>_. 0) ?st"
    using outage_start outage_deliveries[of 5] by (meson order_refl rtranclp_trans)
  moreover have "\<not> deliverable ?st i" for i
    by (simp add: deliverable_def outage_state_def balance_consumer_config_def)
  moreover have "given_up ?st 0" by (simp add: given_up_def outage_state_def balance_consumer_config_def)
  moreover have "mr_script (rm_redis (fst ?st)) = []" by (simp add: outage_state_def down_def)
  moreover have "db_balances (rm_db (fst ?st)) 1 = Some 470" by code_simp
  moreover have "fst (handleBalance (mem_bob no_ilike True) (mem_redis True) sample_ctx ''balance'' None (\<lambda>_. []) (outage_world ?st)) =
      reply 200 (JObj [(''balance'', JInt 500)])" by code_simp
  moreover have "rm_open (fst ?st) = []" "rm_publishing (fst ?st) = []" by (simp_all add: outage_state_def)
  ultimately show ?thesis by blast
qed

end
