(* ===== verification/Auth_Service.thy ===== *)
theory Auth_Service
  imports Rpc_Consumer Masking_Passwords
begin

text \<open>
  \<^verbatim>\<open>services/auth-service\<close>: registration, login and logout. Random account numbers come from
  \<open>rnd k i\<close>, the index drawn for position \<open>i\<close> at attempt \<open>k\<close> (\<^verbatim>\<open>crypto/rand\<close>, below ten); the new
  session id is \<open>sid\<close> (\<^verbatim>\<open>uuid.NewString\<close>); bcrypt is \<open>gen\<close> and \<open>compare\<close>.
\<close>

section \<open>Helpers\<close>

definition isDigits :: "string \<Rightarrow> bool" where
  "isDigits s \<longleftrightarrow> s \<noteq> [] \<and> list_all is_digit s"

definition randomDigits :: "(nat \<Rightarrow> nat) \<Rightarrow> nat \<Rightarrow> string" where
  "randomDigits idx n = map (\<lambda>i. ''0123456789'' ! idx i) [0..<n]"

record credentials =
  cr_phone :: string
  cr_username :: string
  cr_password :: string

definition credentials_set :: "string \<Rightarrow> json \<Rightarrow> credentials \<Rightarrow> credentials option" where
  "credentials_set f v c =
     (if f = ''phone'' then map_option (\<lambda>x. c\<lparr>cr_phone := x\<rparr>) (decode_string v (cr_phone c))
      else if f = ''username'' then map_option (\<lambda>x. c\<lparr>cr_username := x\<rparr>) (decode_string v (cr_username c))
      else map_option (\<lambda>x. c\<lparr>cr_password := x\<rparr>) (decode_string v (cr_password c)))"

definition decode_credentials :: "raw_message \<Rightarrow> credentials option" where
  "decode_credentials raw =
     unmarshal_obj [''phone'', ''username'', ''password''] credentials_set
       \<lparr>cr_phone = [], cr_username = [], cr_password = []\<rparr> raw"

section \<open>Registration\<close>

definition maxAttempts :: nat where
  "maxAttempts = 20"

fun register_loop ::
  "'c bobdb \<Rightarrow> (nat \<Rightarrow> nat \<Rightarrow> nat) \<Rightarrow> string \<Rightarrow> string \<Rightarrow> string \<Rightarrow> nat list \<Rightarrow> 'c \<Rightarrow> (goerr + any_result) \<times> 'c" where
  "register_loop B rnd phone username pwHash [] c =
     (reply 503 (detail ''Cannot generate account number''), c)"
| "register_loop B rnd phone username pwHash (k # ks) c =
     (let acctNumber = randomDigits (rnd k) 12 in
      case bob_One B (InsertUser phone acctNumber username pwHash) c of (r, c') \<Rightarrow>
        (case scan_user r of
           Inl e \<Rightarrow>
             (if IsUniqueViolation (Some e) then (reply 409 (detail ''Phone already registered''), c')
              else if IsNotFound (Some e) then register_loop B rnd phone username pwHash ks c'
              else (Inl (Wrapf ''insert user'' e), c'))
         | Inr u \<Rightarrow>
             (reply 201 (JObj [(''id'', JInt (u_id u)), (''phone'', JStr (MaskPhone (u_phone u))),
                               (''username'', JStr (u_username u)),
                               (''account_number'', JStr (u_account_number u)),
                               (''balance'', JInt (u_balance u))]), c')))"

definition handleRegister ::
  "'c bobdb \<Rightarrow> (string \<Rightarrow> int \<Rightarrow> goerr + string) \<Rightarrow> (string \<Rightarrow> string) \<Rightarrow> (nat \<Rightarrow> nat \<Rightarrow> nat) \<Rightarrow>
   ('c, 'r, 'j) handler" where
  "handleRegister B gen env rnd ctx action raw headers w =
     (case decode_credentials raw of
        None \<Rightarrow> (reply 400 (detail ''invalid payload''), w)
      | Some p \<Rightarrow>
          (let phone = TrimSpace (cr_phone p) in
           if \<not> isDigits phone then (reply 400 (detail ''Phone must be digits only''), w)
           else (case HashPassword gen env (cr_password p) of
                   Inl e \<Rightarrow> (Inl (Wrapf ''hash password'' e), w)
                 | Inr pwHash \<Rightarrow>
                     (case register_loop B rnd phone (TrimSpace (cr_username p)) pwHash [0..<maxAttempts] (w_db w) of
                        (res, c') \<Rightarrow> (res, w\<lparr>w_db := c'\<rparr>)))))"

section \<open>Login and logout\<close>

definition cached_of_row :: "user \<Rightarrow> cached_user" where
  "cached_of_row row =
     \<lparr>cu_id = u_id row, cu_phone = u_phone row, cu_username = u_username row,
      cu_account_number = u_account_number row, cu_password_hash = u_password_hash row,
      cu_balance = u_balance row, cu_is_admin = u_is_admin row\<rparr>"

text \<open>The end of login: the password check, the session and the reply.\<close>

definition finish_login ::
  "'r redis \<Rightarrow> (string \<Rightarrow> string \<Rightarrow> goerr option) \<Rightarrow> int \<Rightarrow> string \<Rightarrow> string \<Rightarrow> cached_user \<Rightarrow>
   ('c, 'r, 'j) world \<Rightarrow> (goerr + any_result) \<times> ('c, 'r, 'j) world" where
  "finish_login R compare sessionTTL sid password u w =
     (if \<not> VerifyPassword compare password (cu_password_hash u)
      then (reply 401 (detail ''Invalid credentials''), w)
      else (case CreateSession R sessionTTL sid (cu_id u) (w_redis w) of
              (Inl e, r') \<Rightarrow> (Inl (Wrapf ''create session'' e), w\<lparr>w_redis := r'\<rparr>)
            | (Inr s, r') \<Rightarrow>
                (reply 200 (JObj [(''session'', JStr s), (''phone'', JStr (MaskPhone (cu_phone u))),
                                  (''username'', JStr (cu_username u)),
                                  (''account_number'', JStr (cu_account_number u)),
                                  (''balance'', JInt (cu_balance u)), (''is_admin'', JBool (cu_is_admin u))]),
                 w\<lparr>w_redis := r'\<rparr>)))"

definition handleLogin ::
  "'c bobdb \<Rightarrow> 'r redis \<Rightarrow> (string \<Rightarrow> string \<Rightarrow> goerr option) \<Rightarrow> int \<Rightarrow> int \<Rightarrow> string \<Rightarrow> ('c, 'r, 'j) handler" where
  "handleLogin B R compare sessionTTL userCacheTTL sid ctx action raw headers w =
     (case decode_credentials raw of
        None \<Rightarrow> (reply 400 (detail ''invalid payload''), w)
      | Some p \<Rightarrow>
          (let phone = TrimSpace (cr_phone p); username = TrimSpace (cr_username p) in
           if phone = [] \<and> username = [] then (reply 400 (detail ''Missing phone/username''), w)
           else if phone \<noteq> [] \<and> \<not> isDigits phone then (reply 400 (detail ''Phone must be digits only''), w)
           else (case (if phone \<noteq> [] then GetUserCacheByPhone R phone (w_redis w)
                       else GetUserCacheByUsername R username (w_redis w)) of
                   (Inl e, r1) \<Rightarrow> (Inl (Wrapf ''get user cache'' e), w\<lparr>w_redis := r1\<rparr>)
                 | (Inr (Some u), r1) \<Rightarrow>
                     finish_login R compare sessionTTL sid (cr_password p) u (w\<lparr>w_redis := r1\<rparr>)
                 | (Inr None, r1) \<Rightarrow>
                     (case UserIdentifierCol [] phone username of (col, val) \<Rightarrow>
                       (case QueryUser B col (ArgText val) (w_db w) of
                          (Inl e, c1) \<Rightarrow>
                            (if IsNotFound (Some e) then (reply 401 (detail ''Invalid credentials''), w\<lparr>w_redis := r1, w_db := c1\<rparr>)
                             else (Inl (Wrapf ''query user'' e), w\<lparr>w_redis := r1, w_db := c1\<rparr>))
                        | (Inr row, c1) \<Rightarrow>
                            (let cu = cached_of_row row;
                                 r2 = snd (SetUserCache R userCacheTTL cu r1)
                             in finish_login R compare sessionTTL sid (cr_password p) cu
                                  (w\<lparr>w_redis := r2, w_db := c1\<rparr>)))))))"

definition handleLogout :: "'r redis \<Rightarrow> ('c, 'r, 'j) handler" where
  "handleLogout R ctx action raw headers w =
     (case DeleteSession R (headers ''x-session'') (w_redis w) of
        (Some e, r') \<Rightarrow> (Inl (Wrapf ''delete session'' e), w\<lparr>w_redis := r'\<rparr>)
      | (None, r') \<Rightarrow> (reply 204 JNull, w\<lparr>w_redis := r'\<rparr>))"

end
