(* ===== verification/Auth_Props.thy ===== *)
theory Auth_Props
  imports Auth_Service Sample_World Db_Shared
begin

text \<open>
  The properties of the auth service: what registration does to the users table, whom a login
  authenticates, how long a session token is good for, and that a registered user can log in.
\<close>

section \<open>Registration\<close>

lemma not_found_no_code: "errors_Is e SqlErrNoRows \<Longrightarrow> pg_code e = []"
  by (induction e) auto

definition register_body :: "user \<Rightarrow> json" where
  "register_body u =
     JObj [(''id'', JInt (u_id u)), (''phone'', JStr (MaskPhone (u_phone u))), (''username'', JStr (u_username u)),
           (''account_number'', JStr (u_account_number u)), (''balance'', JInt (u_balance u))]"

text \<open>A user row that the schema accepts is added, and nothing else changes.\<close>

definition user_added :: "string \<Rightarrow> string \<Rightarrow> string \<Rightarrow> string \<Rightarrow> int \<Rightarrow> db \<Rightarrow> db \<Rightarrow> bool" where
  "user_added phone acct username hash i d d' \<longleftrightarrow>
     sql_errs (InsertUser phone acct username hash) d = [] \<and>
     acct \<notin> u_account_number ` set (users d) \<and> fresh (map u_id (users d)) i \<and>
     d' = d\<lparr>users := users d @ [new_user i phone acct username hash]\<rparr>"

lemma user_added_new:
  assumes "user_added phone acct username hash i d d'"
  shows "i \<notin> user_ids d" "phone \<notin> u_phone ` set (users d)" "acct \<notin> u_account_number ` set (users d)"
  using assms by (auto simp: user_added_def fresh_def user_ids_def list_ex_iff list_all_iff split: if_splits)

lemma user_added_wf:
  assumes "user_added phone acct username hash i d d'" and "db_wf d"
  shows "db_wf d'"
proof (rule sql_sem_wf[OF _ assms(2)])
  have "\<not> list_ex (\<lambda>u. u_account_number u = acct) (users d)" using assms(1) by (auto simp: user_added_def list_ex_iff)
  with assms(1) show "sql_sem (\<lambda>_ _. False) (InsertUser phone acct username hash) d
      [UserRow ((new_user i phone acct username hash)\<lparr>u_password_hash := []\<rparr>)] 1 d'"
    unfolding user_added_def sql_sem.simps by auto
qed

lemma InsertUser_added:
  assumes "sql_sem ilike (InsertUser phone acct username hash) d (UserRow u # rows) n d'"
  shows "\<exists>i. user_added phone acct username hash i d d' \<and> u = (new_user i phone acct username hash)\<lparr>u_password_hash := []\<rparr>"
  using assms unfolding user_added_def sql_sem.simps by (auto simp: list_ex_iff split: if_splits)

lemma InsertUser_row: "sql_sem ilike (InsertUser phone acct username hash) d (r # rows) n d' \<Longrightarrow> \<exists>u. r = UserRow u"
  by (auto split: if_splits)

lemma InsertUser_none:
  "sql_sem ilike (InsertUser phone acct username hash) d [] n d' \<Longrightarrow> d' = d \<and> acct \<in> u_account_number ` set (users d)"
  by (auto simp: list_ex_iff split: if_splits)

lemma InsertUser_effect:
  "sql_sem ilike (InsertUser phone acct username hash) d rows n d' \<Longrightarrow>
     d' = d \<or> (\<exists>i. user_added phone acct username hash i d d')"
  by (cases rows) (auto dest: InsertUser_none InsertUser_added InsertUser_row simp del: sql_sem.simps)

lemma InsertUser_unique:
  "''23505'' \<in> set (sql_errs (InsertUser phone acct username hash) d) \<Longrightarrow> phone \<in> u_phone ` set (users d)"
  by (auto simp: text_errs_def list_ex_iff split: if_splits)

context postgres
begin

lemma register_attempt:
  assumes "bob_One B (InsertUser phone acct username hash) c = (q, c')"
  obtains (created) i where "scan_user q = Inr ((new_user i phone acct username hash)\<lparr>u_password_hash := []\<rparr>)"
      "user_added phone acct username hash i (tables c) (tables c')"
  | (phone_taken) e where "scan_user q = Inl e" "IsUniqueViolation (Some e)" "tables c' = tables c"
      "phone \<in> u_phone ` set (users (tables c))"
  | (acct_taken) e where "scan_user q = Inl e" "\<not> IsUniqueViolation (Some e)" "IsNotFound (Some e)" "tables c' = tables c"
      "acct \<in> u_account_number ` set (users (tables c))"
  | (failed) e where "scan_user q = Inl e" "\<not> IsUniqueViolation (Some e)" "\<not> IsNotFound (Some e)"
      "tables c' = tables c \<or> pg_code e = [] \<and> (\<exists>i. user_added phone acct username hash i (tables c) (tables c'))"
proof (cases q)
  case (Inr r)
  then obtain rs n where s: "sql_sem ilike (InsertUser phone acct username hash) (tables c) (r # rs) n (tables c')"
    using one_row[of "InsertUser phone acct username hash" c r c'] assms by blast
  from InsertUser_row[OF s] obtain u where "r = UserRow u" by blast
  with InsertUser_added[of ilike phone acct username hash "tables c" u rs n "tables c'"] s obtain i where
    "user_added phone acct username hash i (tables c) (tables c')"
    "u = (new_user i phone acct username hash)\<lparr>u_password_hash := []\<rparr>" by blast
  with Inr \<open>r = UserRow u\<close> show thesis by (intro created[of i]) simp_all
next
  case (Inl e)
  show thesis
  proof (cases "errors_Is e SqlErrNoRows")
    case True
    with Inl assms one_none[of "InsertUser phone acct username hash" c e c'] obtain n where n: "sql_sem ilike (InsertUser phone acct username hash) (tables c) [] n (tables c')"
      by blast
    show thesis
      by (rule acct_taken[of e])
        (use Inl True not_found_no_code[OF True] InsertUser_none[OF n] in
          \<open>simp_all add: IsUniqueViolation_def IsNotFound_def err_is_def pgErrCode_def\<close>)
  next
    case False
    with Inl assms one_err have e: "err_effect ilike (InsertUser phone acct username hash) (tables c) e (tables c')"
      "db_err (InsertUser phone acct username hash) (tables c) e" by blast+
    show thesis
    proof (cases "pg_code e = ''23505''")
      case True
      with e have "tables c' = tables c" "''23505'' \<in> set (sql_errs (InsertUser phone acct username hash) (tables c))"
        by (auto simp: err_effect_def db_err_def constraint_codes_def simp del: sql_errs.simps)
      with Inl True phone_taken[of e] InsertUser_unique show thesis
        by (simp add: IsUniqueViolation_def pgErrCode_def del: sql_errs.simps)
    next
      case no: False
      with Inl False e(1) failed[of e] show thesis
        using InsertUser_effect[of ilike phone acct username hash "tables c" _ _ "tables c'"]
        by (fastforce simp: IsUniqueViolation_def IsNotFound_def err_is_def pgErrCode_def err_effect_def simp del: sql_sem.simps)
    qed
  qed
qed

end

context shared_postgres
begin

text \<open>The loop of up to twenty attempts, while other sessions may commit before each of them.\<close>

lemma register_loop_outcome:
  assumes "register_loop (busy act B) rnd phone username hash ks c = (r, c')"
  obtains (created) k i d where "k \<in> set ks" "others\<^sup>*\<^sup>* (tables c) d"
      "user_added phone (randomDigits (rnd k) 12) username hash i d (tables c')"
      "r = reply 201 (register_body (new_user i phone (randomDigits (rnd k) 12) username hash))"
  | (phone_taken) "r = reply 409 (detail ''Phone already registered'')" "others\<^sup>*\<^sup>* (tables c) (tables c')"
      "phone \<in> u_phone ` set (users (tables c'))"
  | (exhausted) "r = reply 503 (detail ''Cannot generate account number'')" "others\<^sup>*\<^sup>* (tables c) (tables c')"
      "\<And>k. k \<in> set ks \<Longrightarrow> \<exists>d. others\<^sup>*\<^sup>* (tables c) d \<and> others\<^sup>*\<^sup>* d (tables c') \<and>
         randomDigits (rnd k) 12 \<in> u_account_number ` set (users d)"
  | (failed) e k d where "r = Inl (Wrapf ''insert user'' e)" "others\<^sup>*\<^sup>* (tables c) d"
      "tables c' = d \<or> pg_code e = [] \<and>
         (\<exists>i. user_added phone (randomDigits (rnd k) 12) username hash i d (tables c'))"
  using assms
proof (induction ks arbitrary: c thesis)
  case Nil
  then show ?case by simp
next
  case (Cons k ks)
  obtain q c1 where q: "bob_One B (InsertUser phone (randomDigits (rnd k) 12) username hash) (act c) = (q, c1)" by fastforce
  note act = others_act[of c]
  from q show ?case
  proof (cases rule: register_attempt)
    case (created i)
    with q Cons.prems(5) Cons.prems(1)[of k "tables (act c)" i] act show ?thesis
      by (auto simp: Let_def register_body_def new_user_def)
  next
    case (phone_taken e)
    with q Cons.prems(5) Cons.prems(2) act show ?thesis by (auto simp: Let_def)
  next
    case (acct_taken e)
    with q Cons.prems(5) have loop: "register_loop (busy act B) rnd phone username hash ks c1 = (r, c')" by (simp add: Let_def)
    have mid: "others\<^sup>*\<^sup>* (tables c) (tables c1)" using act acct_taken(4) by simp
    show ?thesis
    proof (rule Cons.IH[OF _ _ _ _ loop])
      assume x: "r = reply 503 (detail ''Cannot generate account number'')" "others\<^sup>*\<^sup>* (tables c1) (tables c')"
        "\<And>k. k \<in> set ks \<Longrightarrow> \<exists>d. others\<^sup>*\<^sup>* (tables c1) d \<and> others\<^sup>*\<^sup>* d (tables c') \<and>
           randomDigits (rnd k) 12 \<in> u_account_number ` set (users d)"
      show thesis
      proof (rule Cons.prems(3)[OF x(1) rtranclp_trans[OF mid x(2)]])
        fix k' assume "k' \<in> set (k # ks)"
        then show "\<exists>d. others\<^sup>*\<^sup>* (tables c) d \<and> others\<^sup>*\<^sup>* d (tables c') \<and> randomDigits (rnd k') 12 \<in> u_account_number ` set (users d)"
          using acct_taken(4,5) mid x(2) x(3)[of k'] by (cases "k' = k") (auto intro: rtranclp_trans)
      qed
    qed (use Cons.prems(1,2,4) mid in \<open>auto intro: rtranclp_trans\<close>)
  next
    case (failed e)
    with q Cons.prems(5) Cons.prems(4)[of e "tables (act c)" k] act show ?thesis by (auto simp: Let_def)
  qed
qed

end

text \<open>The checked request: the trimmed phone, the trimmed name and the password hash.\<close>

definition register_request ::
  "(string \<Rightarrow> int \<Rightarrow> goerr + string) \<Rightarrow> (string \<Rightarrow> string) \<Rightarrow> raw_message \<Rightarrow> (string \<times> string \<times> string) option" where
  "register_request gen env raw =
     (case decode_credentials raw of
        None \<Rightarrow> None
      | Some p \<Rightarrow>
          (if isDigits (TrimSpace (cr_phone p))
           then (case HashPassword gen env (cr_password p) of
                   Inl e \<Rightarrow> None
                 | Inr h \<Rightarrow> Some (TrimSpace (cr_phone p), TrimSpace (cr_username p), h))
           else None))"

lemma handleRegister_request:
  "handleRegister B gen env rnd ctx action raw headers w = (r, w') \<Longrightarrow>
   (register_request gen env raw = None \<and> w' = w \<and> ((\<exists>m. r = reply 400 (detail m)) \<or> (\<exists>e. r = Inl (Wrapf ''hash password'' e)))) \<or>
   (\<exists>phone username hash c'. register_request gen env raw = Some (phone, username, hash) \<and> isDigits phone \<and>
      register_loop B rnd phone username hash [0..<maxAttempts] (w_db w) = (r, c') \<and> w' = w\<lparr>w_db := c'\<rparr>)"
  by (auto simp: handleRegister_def register_request_def Let_def split: option.splits sum.splits if_splits prod.splits)

text \<open>Runs for the witnesses.\<close>

definition sample_gen :: "string \<Rightarrow> int \<Rightarrow> goerr + string" where
  "sample_gen pw cost = Inr (''h'' @ pw)"

definition sample_compare :: "string \<Rightarrow> string \<Rightarrow> goerr option" where
  "sample_compare hash pw = (if hash = ''h'' @ pw then None else Some (OtherErr ''mismatch''))"

lemma sample_bcrypt: "bcrypt_law sample_gen sample_compare"
  by (simp add: bcrypt_law_def sample_gen_def sample_compare_def)

definition sample_credentials :: "string \<Rightarrow> raw_message" where
  "sample_credentials phone =
     Some (JObj [(''phone'', JStr phone), (''username'', JStr ''carol''), (''password'', JStr ''pw'')])"

definition sample_register :: "string \<Rightarrow> (goerr + any_result) \<times> (memdb, memredis, memjs) world" where
  "sample_register phone =
     handleRegister (mem_bob no_ilike True) sample_gen (\<lambda>_. []) (\<lambda>k i. 1) sample_ctx ''register''
       (sample_credentials phone) (\<lambda>_. []) (sample_world [])"

lemma sample_register_run:
  "handleRegister (mem_bob no_ilike True) sample_gen (\<lambda>_. []) (\<lambda>k i. 1) sample_ctx ''register''
     (sample_credentials phone) (\<lambda>_. []) (sample_world []) = (fst (sample_register phone), snd (sample_register phone))"
  by (simp add: sample_register_def)

definition sample_rel_register :: "(goerr + any_result) \<times> (memdb, memredis, memjs) world" where
  "sample_rel_register =
     handleRegister (mem_bob no_ilike False) sample_gen (\<lambda>_. []) (\<lambda>k i. 1) sample_ctx ''register''
       (sample_credentials ''0903'') (\<lambda>_. []) (sample_world [])"

lemma sample_rel_register_run:
  "handleRegister (mem_bob no_ilike False) sample_gen (\<lambda>_. []) (\<lambda>k i. 1) sample_ctx ''register''
     (sample_credentials ''0903'') (\<lambda>_. []) (sample_world []) = (fst sample_rel_register, snd sample_rel_register)"
  by (simp add: sample_rel_register_def)

definition sample_login_raw :: raw_message where
  "sample_login_raw = Some (JObj [(''phone'', JStr ''0901''), (''password'', JStr ''1'')])"

definition sample_login :: "(goerr + any_result) \<times> (memdb, memredis, memjs) world" where
  "sample_login =
     handleLogin (mem_bob no_ilike True) (mem_redis True) sample_compare 10 10 ''s9'' sample_ctx ''login''
       sample_login_raw (\<lambda>_. []) (sample_world [])"

lemma sample_login_run:
  "handleLogin (mem_bob no_ilike True) (mem_redis True) sample_compare 10 10 ''s9'' sample_ctx ''login''
     sample_login_raw (\<lambda>_. []) (sample_world []) = (fst sample_login, snd sample_login)"
  by (simp add: sample_login_def)

definition sample_logout :: "(goerr + any_result) \<times> (memdb, memredis, memjs) world" where
  "sample_logout = handleLogout (mem_redis True) sample_ctx ''logout'' None (\<lambda>_. ''s1'') (sample_world [])"

lemma sample_logout_run:
  "handleLogout (mem_redis True) sample_ctx ''logout'' None (\<lambda>_. ''s1'') (sample_world []) =
     (fst sample_logout, snd sample_logout)"
  by (simp add: sample_logout_def)

lemma sample_world_wf: "db_wf (m_db (w_db (sample_world faults)))"
  using sample_db_wf by (simp add: sample_world_def)

text \<open>Property C24. A reply 201 means that exactly one row was added to the users table as it was at that
  moment (other sessions may have committed since the request began): the trimmed, all-digit phone
  nobody had before, an unused account number, the opening balance 100000, no admin right, the
  bcrypt hash; the reply shows that row with the phone masked. The schema's constraints hold
  afterwards and Redis is untouched.\<close>

theorem register_adds_one_user:
  assumes "shared_postgres B tables ilike act others" and "stable_wf others" and "db_wf (tables (w_db w))"
    and "handleRegister (busy act B) gen env rnd ctx action raw headers w = (reply 201 body, w')"
  shows "\<exists>phone username hash k i d. register_request gen env raw = Some (phone, username, hash) \<and> k < 20 \<and>
    others\<^sup>*\<^sup>* (tables (w_db w)) d \<and> isDigits phone \<and> phone \<notin> u_phone ` set (users d) \<and>
    user_added phone (randomDigits (rnd k) 12) username hash i d (tables (w_db w')) \<and>
    body = register_body (new_user i phone (randomDigits (rnd k) 12) username hash) \<and>
    db_wf (tables (w_db w')) \<and> w_redis w' = w_redis w"
proof -
  from handleRegister_request[OF assms(4)] obtain phone username hash c' where
    h: "register_request gen env raw = Some (phone, username, hash)" "isDigits phone"
    "register_loop (busy act B) rnd phone username hash [0..<maxAttempts] (w_db w) = (reply 201 body, c')" "w' = w\<lparr>w_db := c'\<rparr>"
    by auto
  show ?thesis
  proof (rule shared_postgres.register_loop_outcome[OF assms(1) h(3)])
    fix k i d assume k: "k \<in> set [0..<maxAttempts]" and d: "others\<^sup>*\<^sup>* (tables (w_db w)) d"
      and a: "user_added phone (randomDigits (rnd k) 12) username hash i d (tables c')"
      and b: "reply 201 body = reply 201 (register_body (new_user i phone (randomDigits (rnd k) 12) username hash))"
    have "k < 20" using k by (simp add: maxAttempts_def)
    with h a b d user_added_new(2)[OF a] user_added_wf[OF a stable_wfD[OF d assms(2,3)]] show ?thesis by auto
  qed simp_all
qed

theorem register_adds_one_user_witness:
  "db_wf (m_db (w_db (snd (sample_register ''0903''))))"
proof -
  have r: "fst (sample_register ''0903'') = reply 201 (register_body (new_user 3 ''0903'' ''111111111111'' ''carol'' ''hpw''))"
    by code_simp
  show ?thesis
    using register_adds_one_user[OF mem_alone.shared_postgres_axioms stable_eq sample_world_wf, unfolded busy_quiet,
        OF sample_register_run[of "''0903''", unfolded r]] by blast
qed

text \<open>Property C25. The refusals of registration are justified, and the request itself changes nothing: 409
  only when a user with that phone exists, 503 only when each of the twenty random account numbers
  was taken at the moment it was tried. An internal error leaves the tables to the other sessions
  too, unless the connection broke (no SQLSTATE), and then at most the one row was added.\<close>

theorem register_refusals_justified:
  assumes "shared_postgres B tables ilike act others"
    and "handleRegister (busy act B) gen env rnd ctx action raw headers w = (r, w')" and "\<And>body. r \<noteq> reply 201 body"
    and "register_request gen env raw = Some (phone, username, hash)"
  shows "(\<exists>d. others\<^sup>*\<^sup>* (tables (w_db w)) d \<and> (tables (w_db w') = d \<or>
     (\<exists>e k i. r = Inl (Wrapf ''insert user'' e) \<and> pg_code e = [] \<and>
        user_added phone (randomDigits (rnd k) 12) username hash i d (tables (w_db w'))))) \<and>
    (r = reply 409 b \<longrightarrow> phone \<in> u_phone ` set (users (tables (w_db w')))) \<and>
    (r = reply 503 b \<longrightarrow> (\<forall>k < 20. \<exists>d. others\<^sup>*\<^sup>* (tables (w_db w)) d \<and> others\<^sup>*\<^sup>* d (tables (w_db w')) \<and>
       randomDigits (rnd k) 12 \<in> u_account_number ` set (users d)))"
proof -
  from handleRegister_request[OF assms(2)] assms(4) obtain c' where
    h: "register_loop (busy act B) rnd phone username hash [0..<maxAttempts] (w_db w) = (r, c')" "w' = w\<lparr>w_db := c'\<rparr>"
    by auto
  show ?thesis
  proof (cases rule: shared_postgres.register_loop_outcome[OF assms(1) h(1), case_names created phone_taken exhausted failed])
    case (created k i d)
    with assms(3) show ?thesis by blast
  next
    case (exhausted)
    with h(2) show ?thesis by (auto simp: maxAttempts_def)
  next
    case (failed e k d)
    with h(2) show ?thesis by auto
  qed (use h(2) in auto)
qed

theorem register_refusals_justified_witness:
  "m_db (w_db (snd (sample_register ''0902''))) = sample_db"
proof -
  have r: "fst (sample_register ''0902'') = reply 409 (detail ''Phone already registered'')" by code_simp
  have q: "register_request sample_gen (\<lambda>_. []) (sample_credentials ''0902'') = Some (''0902'', ''carol'', ''hpw'')"
    by code_simp
  show ?thesis
    using register_refusals_justified[OF mem_alone.shared_postgres_axioms, unfolded busy_quiet,
        OF sample_register_run[of "''0902''", unfolded r] _ q]
    by (simp add: sample_world_def)
qed

section \<open>Login\<close>

definition login_body :: "string \<Rightarrow> cached_user \<Rightarrow> json" where
  "login_body s u =
     JObj [(''session'', JStr s), (''phone'', JStr (MaskPhone (cu_phone u))), (''username'', JStr (cu_username u)),
           (''account_number'', JStr (cu_account_number u)), (''balance'', JInt (cu_balance u)),
           (''is_admin'', JBool (cu_is_admin u))]"

text \<open>The record a login is checked against: the user cached under the given identifier, or else the
  row the identifier names.\<close>

definition login_key :: "credentials \<Rightarrow> string" where
  "login_key p =
     (if TrimSpace (cr_phone p) \<noteq> [] then ''user_cache:phone:'' @ TrimSpace (cr_phone p)
      else ''user_cache:username:'' @ TrimSpace (cr_username p))"

definition login_candidate :: "keyspace \<Rightarrow> db \<Rightarrow> credentials \<Rightarrow> cached_user \<Rightarrow> bool" where
  "login_candidate ks d p u \<longleftrightarrow>
     (\<exists>v ttl. r_string ks (login_key p) = Some (v, ttl) \<and>
        unmarshal_obj cached_user_fields cached_user_set cached_user_zero (as_raw v) = Some u) \<or>
     (\<exists>row \<in> set (users d). u = cached_of_row row \<and>
        (if TrimSpace (cr_phone p) \<noteq> [] then u_phone row = TrimSpace (cr_phone p)
         else u_username row = TrimSpace (cr_username p)))"

lemma finish_login_ok:
  assumes "redis_service R keys" and "finish_login R compare sessionTTL sid pw u w = (reply 200 body, w')"
  shows "VerifyPassword compare pw (cu_password_hash u) \<and> body = login_body sid u \<and> w_db w' = w_db w \<and>
    r_string (keys (w_redis w')) (session_key sid) = Some (RText (Itoa (cu_id u)), sessionTTL)"
  using assms(2) redis_service.CreateSession_stores[OF assms(1)]
  by (auto simp: finish_login_def login_body_def split: if_splits prod.splits sum.splits)

lemma finish_login_db [simp]: "w_db (snd (finish_login R compare ttl sid pw u w)) = w_db w"
  by (auto simp: finish_login_def split: prod.splits sum.splits)

context redis_service
begin

lemma GetUserCache_hit:
  assumes "GetUserCache R key w = (Inr (Some u), w')"
  shows "\<exists>v ttl. r_string (keys w) (''user_cache:'' @ key) = Some (v, ttl) \<and>
    unmarshal_obj cached_user_fields cached_user_set cached_user_zero (as_raw v) = Some u"
  using assms
  by (auto simp: GetUserCache_def split: if_splits prod.splits sum.splits option.splits dest!: do_ok)
    (blast dest: expired_Some)

end


lemma handleLogin_cases:
  assumes "handleLogin B R compare sessionTTL cacheTTL sid ctx action raw headers w = (r, w')"
  obtains (refused) m where "r = reply 400 (detail m)" "w' = w"
  | (cache_error) e r1 where "r = Inl e" "w' = w\<lparr>w_redis := r1\<rparr>"
  | (cached) p u key r1 where "decode_credentials raw = Some p" "GetUserCache R key (w_redis w) = (Inr (Some u), r1)"
      "login_key p = ''user_cache:'' @ key"
      "finish_login R compare sessionTTL sid (cr_password p) u (w\<lparr>w_redis := r1\<rparr>) = (r, w')"
  | (no_row) p col val e c1 r1 where "decode_credentials raw = Some p"
      "(col, val) = UserIdentifierCol [] (TrimSpace (cr_phone p)) (TrimSpace (cr_username p))"
      "QueryUser B col (ArgText val) (w_db w) = (Inl e, c1)" "w' = w\<lparr>w_redis := r1, w_db := c1\<rparr>"
      "r = (if IsNotFound (Some e) then reply 401 (detail ''Invalid credentials'') else Inl (Wrapf ''query user'' e))"
  | (row) p col val u c1 r2 where "decode_credentials raw = Some p"
      "(col, val) = UserIdentifierCol [] (TrimSpace (cr_phone p)) (TrimSpace (cr_username p))"
      "QueryUser B col (ArgText val) (w_db w) = (Inr u, c1)"
      "finish_login R compare sessionTTL sid (cr_password p) (cached_of_row u) (w\<lparr>w_redis := r2, w_db := c1\<rparr>) = (r, w')"
proof (cases "decode_credentials raw")
  case None
  with assms refused show thesis by (auto simp: handleLogin_def)
next
  case (Some p)
  let ?ph = "TrimSpace (cr_phone p)" and ?un = "TrimSpace (cr_username p)"
  show thesis
  proof (cases "(?ph = [] \<and> ?un = []) \<or> (?ph \<noteq> [] \<and> \<not> isDigits ?ph)")
    case True
    with Some assms refused show thesis by (auto simp: handleLogin_def split: if_splits)
  next
    case False
    define key where "key = (if ?ph \<noteq> [] then ''phone:'' @ ?ph else ''username:'' @ ?un)"
    obtain g r1 where g: "GetUserCache R key (w_redis w) = (g, r1)" by fastforce
    obtain col val where cv: "UserIdentifierCol [] ?ph ?un = (col, val)" by fastforce
    obtain q c1 where q: "QueryUser B col (ArgText val) (w_db w) = (q, c1)" by fastforce
    have get: "(if ?ph \<noteq> [] then GetUserCacheByPhone R ?ph (w_redis w) else GetUserCacheByUsername R ?un (w_redis w)) = (g, r1)"
      using g by (simp add: key_def GetUserCacheByPhone_def GetUserCacheByUsername_def split: if_splits)
    note eq = assms[unfolded handleLogin_def Some option.case Let_def]
    have key: "login_key p = ''user_cache:'' @ key" by (simp add: login_key_def key_def)
    show thesis
    proof (cases g)
      case (Inl e)
      with eq False get show thesis by (intro cache_error[of "Wrapf ''get user cache'' e" r1]) auto
    next
      case (Inr hit)
      show thesis
      proof (cases hit)
        case hit: (Some u)
        with eq False get Inr g key Some show thesis by (intro cached[of p key u r1]) auto
      next
        case None
        with eq False get Inr cv q Some no_row[of p col val] row[of p col val] show thesis
          by (cases q) (auto split: if_splits)
      qed
    qed
  qed
qed

lemma decoded_cached_user_id:
  "unmarshal_obj cached_user_fields cached_user_set cached_user_zero raw = Some u \<Longrightarrow> in64 (cu_id u)"
  by (erule unmarshal_obj_inv)
    (auto simp: cached_user_zero_def in64_def cached_user_set_def split: if_splits dest: decode_int_range[unfolded in64_def])

lemma login_candidate_id: "login_candidate ks d p u \<Longrightarrow> db_wf d \<Longrightarrow> in64 (cu_id u)"
  by (auto simp: login_candidate_def cached_of_row_def db_wf_def list_all_iff user_row_wf_def
      dest: decoded_cached_user_id)

lemma login_outcome:
  assumes "postgres B tables ilike" and "redis_service R keys"
    and "handleLogin B R compare sessionTTL cacheTTL sid ctx action raw headers w = (reply 200 body, w')"
  shows "\<exists>p u. decode_credentials raw = Some p \<and> login_candidate (keys (w_redis w)) (tables (w_db w)) p u \<and>
    VerifyPassword compare (cr_password p) (cu_password_hash u) \<and> body = login_body sid u \<and>
    r_string (keys (w_redis w')) (session_key sid) = Some (RText (Itoa (cu_id u)), sessionTTL) \<and>
    tables (w_db w') = tables (w_db w)"
  using assms(3)
proof (cases rule: handleLogin_cases)
  case (cached p u key r1)
  have "login_candidate (keys (w_redis w)) (tables (w_db w)) p u"
    unfolding login_candidate_def cached(3)
    using redis_service.GetUserCache_hit[OF assms(2) cached(2)] by blast
  with finish_login_ok[OF assms(2) cached(4)] cached(1) show ?thesis by auto
next
  case (row p col val u c1 r2)
  note u = postgres.QueryUser_row[OF assms(1) row(3)]
  then have "login_candidate (keys (w_redis w)) (tables (w_db w)) p (cached_of_row u)"
    using row(2) by (auto simp: login_candidate_def UserIdentifierCol_def split: if_splits)
  with finish_login_ok[OF assms(2) row(4)] row(1) u show ?thesis by auto
qed (auto split: if_splits)


text \<open>Property C26. A reply 200 to a login means that the password matched the stored hash of the user
  the identifier names (in the cache or in the table), that the new session token in Redis stands
  for exactly that user's id, and that the reply describes that user; logging in never changes the
  tables.\<close>

theorem login_authenticates:
  assumes "postgres B tables ilike" and "redis_service R keys"
    and "handleLogin B R compare sessionTTL cacheTTL sid ctx action raw headers w = (reply 200 body, w')"
  shows "\<exists>p u. decode_credentials raw = Some p \<and> login_candidate (keys (w_redis w)) (tables (w_db w)) p u \<and>
    VerifyPassword compare (cr_password p) (cu_password_hash u) \<and> body = login_body sid u \<and>
    r_string (keys (w_redis w')) (session_key sid) = Some (RText (Itoa (cu_id u)), sessionTTL) \<and>
    tables (w_db w') = tables (w_db w)"
  using login_outcome[OF assms] .

theorem login_authenticates_witness:
  "\<exists>u. login_candidate sample_keys sample_db
        \<lparr>cr_phone = ''0901'', cr_username = [], cr_password = ''1''\<rparr> u \<and> VerifyPassword sample_compare ''1'' (cu_password_hash u)"
proof -
  have r: "fst sample_login = reply 200 (login_body ''s9'' (cached_of_row alice))" by code_simp
  have d: "decode_credentials sample_login_raw = Some \<lparr>cr_phone = ''0901'', cr_username = [], cr_password = ''1''\<rparr>"
    by code_simp
  show ?thesis
    using login_authenticates[OF mem.postgres_axioms mred.redis_service_axioms sample_login_run[unfolded r]] d
    by (auto simp: sample_world_def)
qed

text \<open>From a successful login on, and as long as nothing but expiry happens to its key, a
  request with the session token either runs its handler with the id of the user who logged in, or
  is refused with 401 or 500; it never runs for another user.\<close>

lemma session_identifies_user:
  assumes "postgres B tables ilike" and "redis_service R keys" and "db_wf (tables (w_db w))"
    and "handleLogin B R compare sessionTTL cacheTTL sid ctx0 action0 raw headers0 w = (reply 200 body, w')"
    and "expired (keys (w_redis w')) (keys (w_redis w2))" and "headers ''x-session'' = sid"
  shows "\<exists>u. body = login_body sid u \<and>
    ((\<exists>r'. RequireSession R nxt ctx action payload headers w2 =
            nxt (withUserID ctx (cu_id u)) action payload headers (w2\<lparr>w_redis := r'\<rparr>)) \<or>
     (\<exists>s b r'. RequireSession R nxt ctx action payload headers w2 = (reply s b, w2\<lparr>w_redis := r'\<rparr>) \<and> s \<in> {401, 500}))"
proof -
  obtain p u where u: "login_candidate (keys (w_redis w)) (tables (w_db w)) p u" "body = login_body sid u"
    "r_string (keys (w_redis w')) (session_key sid) = Some (RText (Itoa (cu_id u)), sessionTTL)"
    using login_outcome[OF assms(1,2,4)] by blast
  have "(\<exists>r'. RequireSession R nxt ctx action payload headers w2 =
            nxt (withUserID ctx (cu_id u)) action payload headers (w2\<lparr>w_redis := r'\<rparr>)) \<or>
     (\<exists>s b r'. RequireSession R nxt ctx action payload headers w2 = (reply s b, w2\<lparr>w_redis := r'\<rparr>) \<and> s \<in> {401, 500})"
  proof (rule redis_service.RequireSession_cases[OF assms(2), of nxt ctx action payload headers w2])
    fix uid r' v ttl
    assume run: "RequireSession R nxt ctx action payload headers w2 =
         nxt (withUserID ctx uid) action payload headers (w2\<lparr>w_redis := r'\<rparr>)"
      and v: "r_string (keys (w_redis w2)) (session_key (headers ''x-session'')) = Some (v, ttl)" "Atoi (as_text v) = Some uid"
    have "r_string (keys (w_redis w')) (session_key sid) = Some (v, ttl)"
      using expired_Some[OF assms(5)] v(1) assms(6) by simp
    with u(3) v(2) login_candidate_id[OF u(1) assms(3)] have "uid = cu_id u" by (auto simp: Atoi_Itoa)
    with run show ?thesis by blast
  qed auto
  with u(2) show ?thesis by blast
qed

lemma session_identifies_user_witness:
  "\<exists>u. login_body ''s9'' (cached_of_row alice) = login_body ''s9'' u \<and>
    ((\<exists>r'. RequireSession (mem_redis True) (handleLogout (mem_redis True)) sample_ctx ''me'' None (\<lambda>_. ''s9'') (snd sample_login) =
        handleLogout (mem_redis True) (withUserID sample_ctx (cu_id u)) ''me'' None (\<lambda>_. ''s9'') ((snd sample_login)\<lparr>w_redis := r'\<rparr>)) \<or>
     (\<exists>s b r'. RequireSession (mem_redis True) (handleLogout (mem_redis True)) sample_ctx ''me'' None (\<lambda>_. ''s9'') (snd sample_login) =
        (reply s b, (snd sample_login)\<lparr>w_redis := r'\<rparr>) \<and> s \<in> {401, 500}))"
proof -
  have r: "fst sample_login = reply 200 (login_body ''s9'' (cached_of_row alice))" by code_simp
  show ?thesis
    by (rule session_identifies_user[OF mem.postgres_axioms mred.redis_service_axioms sample_world_wf
          sample_login_run[unfolded r] expired_refl]) simp
qed

text \<open>Property C27. After a logout that replied 204 the token is dead: as long as nobody stores a new
  session under it, every request that carries it is refused with 401 or 500 and no handler runs.\<close>

theorem logout_revokes_session:
  assumes "redis_service R keys"
    and "handleLogout R ctx0 action0 payload0 headers w = (reply 204 JNull, w')" and "headers ''x-session'' \<noteq> []"
    and "expired (keys (w_redis w')) (keys (w_redis w2))"
  shows "\<exists>s b r'. RequireSession R nxt ctx action payload headers w2 = (reply s b, w2\<lparr>w_redis := r'\<rparr>) \<and> s \<in> {401, 500}"
proof -
  have "DeleteSession R (headers ''x-session'') (w_redis w) = (None, w_redis w')"
    using assms(2) by (auto simp: handleLogout_def split: prod.splits option.splits)
  from redis_service.DeleteSession_removes[OF assms(1) this assms(3)]
  have none: "r_string (keys (w_redis w2)) (session_key (headers ''x-session'')) = None"
    using expired_None[OF assms(4)] by blast
  show ?thesis
    by (rule redis_service.RequireSession_cases[OF assms(1), of nxt ctx action payload headers w2]) (use none in auto)
qed


theorem logout_revokes_session_witness:
  "\<exists>s b r'. RequireSession (mem_redis True) (\<lambda>ctx action payload headers w. (reply 200 JNull, w)) sample_ctx ''me'' None
      (\<lambda>_. ''s1'') (snd sample_logout) = (reply s b, (snd sample_logout)\<lparr>w_redis := r'\<rparr>) \<and> s \<in> {401, 500}"
proof -
  have r: "fst sample_logout = reply 204 JNull" by code_simp
  show ?thesis
    by (rule logout_revokes_session[OF mred.redis_service_axioms sample_logout_run[unfolded r] _ expired_refl]) simp
qed

section \<open>Registration, then login\<close>

context reliable_redis
begin

lemma set_total: "\<exists>v w'. rc_Do R (RSet k x ttl) w = (Inr v, w')"
proof (cases "rc_Do R (RSet k x ttl) w")
  case (Pair q w')
  show ?thesis
  proof (cases q)
    case (Inl e)
    with Pair do_nil[of "RSet k x ttl" w e w'] do_total[of "RSet k x ttl" w e w'] show ?thesis by auto
  qed (use Pair in auto)
qed

lemma CreateSession_total: "\<exists>w'. CreateSession R ttl sid uid w = (Inr sid, w')"
  using set_total[of "session_key sid" "RText (Itoa uid)" ttl w] by (auto simp: CreateSession_def)

lemma GetUserCache_absent:
  assumes "r_string (keys w) (''user_cache:'' @ key) = None"
  shows "\<exists>w'. GetUserCache R key w = (Inr None, w')"
proof -
  let ?c = "RGetToBuffer (''user_cache:'' @ key) 512"
  obtain q w' where q: "rc_Do R ?c w = (q, w')" by fastforce
  show ?thesis
  proof (cases q)
    case (Inl e)
    with q do_total[of ?c w e w'] show ?thesis by (auto simp: GetUserCache_def)
  next
    case (Inr v)
    with q do_ok[of ?c w v w'] assms show ?thesis by (auto dest: expired_None)
  qed
qed

end

context reliable_postgres
begin

lemma QueryUser_total:
  assumes "CHR 0x00 \<notin> set val" and "u \<in> set (users (tables c))" and "user_cell col u = ArgText val"
  shows "\<exists>v c'. QueryUser B col (ArgText val) c = (Inr v, c')"
proof (cases "QueryUser B col (ArgText val) c")
  case (Pair q c')
  let ?st = "SelectUsers ProjUser (UserEq col (ArgText val)) Unordered None False"
  have acc: "accepted ?st (tables c)" using assms(1) by (simp add: accepted_def page_errs_def)
  show ?thesis
  proof (cases q)
    case (Inl e)
    have "IsNotFound (Some e)"
      using Pair Inl one_total[OF acc] one_row[of ?st c]
      by (cases "bob_One B ?st c"; cases "fst (bob_One B ?st c)")
        (auto simp: QueryUser_def IsNotFound_def err_is_def elim!: scan_user.elims)
    with QueryUser_absent[of col "ArgText val" c e c'] Pair Inl assms(2,3) show ?thesis by auto
  qed (use Pair in auto)
qed

end

lemma unique_phone:
  "db_wf d \<Longrightarrow> u \<in> set (users d) \<Longrightarrow> v \<in> set (users d) \<Longrightarrow> u_phone u = u_phone v \<Longrightarrow> u = v"
  unfolding db_wf_def distinct_map by (metis inj_onD)

lemma isDigits_no_NUL: "isDigits s \<Longrightarrow> CHR 0x00 \<notin> set s"
  by (auto simp: isDigits_def list_all_iff is_digit_def)

text \<open>Property C28. A user who has registered can log in: on services without faults, and when no
  stale record is cached under that phone, a login with the same credentials succeeds, shows the
  opening balance, and the session stands for the new user.\<close>

theorem registered_user_can_log_in:
  assumes "reliable_postgres B tables ilike" and "reliable_redis R keys" and "bcrypt_law gen compare"
    and "db_wf (tables (w_db w))"
    and "handleRegister B gen env rnd ctx action raw headers w = (reply 201 body, w1)"
    and "decode_credentials raw = Some p"
    and "r_string (keys (w_redis w1)) (cache_phone_key (TrimSpace (cr_phone p))) = None"
  shows "\<exists>i acct w2. i \<notin> user_ids (tables (w_db w)) \<and>
    handleLogin B R compare sessionTTL cacheTTL sid ctx' action' raw headers' w1 =
      (reply 200 (JObj [(''session'', JStr sid), (''phone'', JStr (MaskPhone (cr_phone p))),
         (''username'', JStr (TrimSpace (cr_username p))), (''account_number'', JStr acct),
         (''balance'', JInt 100000), (''is_admin'', JBool False)]), w2) \<and>
    r_string (keys (w_redis w2)) (session_key sid) = Some (RText (Itoa i), sessionTTL)"
proof -
  have pg: "postgres B tables ilike" using assms(1) by (rule reliable_postgres.axioms(1))
  have rs: "redis_service R keys" using assms(2) by (rule reliable_redis.axioms(1))
  let ?ph = "TrimSpace (cr_phone p)" and ?un = "TrimSpace (cr_username p)"
  from handleRegister_request[OF assms(5)] obtain hash c' where
    h: "HashPassword gen env (cr_password p) = Inr hash" "isDigits ?ph"
    "register_loop B rnd ?ph ?un hash [0..<maxAttempts] (w_db w) = (reply 201 body, c')" "w1 = w\<lparr>w_db := c'\<rparr>"
    using assms(6) by (auto simp: register_request_def split: option.splits sum.splits if_splits)
  obtain k i where a: "user_added ?ph (randomDigits (rnd k) 12) ?un hash i (tables (w_db w)) (tables c')"
    by (rule shared_postgres.register_loop_outcome[OF postgres.exclusive[OF pg], unfolded busy_quiet nobody_else, OF h(3)]) auto
  let ?u = "new_user i ?ph (randomDigits (rnd k) 12) ?un hash"
  have ph: "?ph \<noteq> []" using h(2) by (simp add: isDigits_def)
  have u: "?u \<in> set (users (tables c'))" "u_phone ?u = ?ph" using a by (simp_all add: user_added_def new_user_def)
  obtain r1 where g: "GetUserCacheByPhone R ?ph (w_redis w1) = (Inr None, r1)"
    using reliable_redis.GetUserCache_absent[OF assms(2), of "w_redis w1" "''phone:'' @ ?ph"] assms(7)
    by (auto simp: GetUserCacheByPhone_def cache_phone_key_def)
  obtain v c2 where q: "QueryUser B ColPhone (ArgText ?ph) c' = (Inr v, c2)"
    using reliable_postgres.QueryUser_total[OF assms(1) isDigits_no_NUL[OF h(2)] u(1), of ColPhone] u(2) by auto
  from postgres.QueryUser_row[OF pg q] have "v \<in> set (users (tables c'))" "u_phone v = ?ph" by auto
  then have "v = ?u" using unique_phone[OF user_added_wf[OF a assms(4)]] u by simp
  moreover have "VerifyPassword compare (cr_password p) hash" using Hash_Verify[OF assms(3) h(1)] .
  moreover obtain r3 where "CreateSession R sessionTTL sid i (snd (SetUserCache R cacheTTL (cached_of_row ?u) r1)) = (Inr sid, r3)"
    using reliable_redis.CreateSession_total[OF assms(2)] by blast
  moreover note redis_service.CreateSession_stores[OF rs this]
  ultimately have "handleLogin B R compare sessionTTL cacheTTL sid ctx' action' raw headers' w1 =
      (reply 200 (JObj [(''session'', JStr sid), (''phone'', JStr (MaskPhone ?ph)),
         (''username'', JStr ?un), (''account_number'', JStr (randomDigits (rnd k) 12)),
         (''balance'', JInt 100000), (''is_admin'', JBool False)]), w1\<lparr>w_redis := r3, w_db := c2\<rparr>)"
    "r_string (keys r3) (session_key sid) = Some (RText (Itoa i), sessionTTL)"
    using assms(6) ph h(2,4) g q
    by (simp_all add: handleLogin_def UserIdentifierCol_def finish_login_def cached_of_row_def new_user_def)
  moreover have "MaskPhone ?ph = MaskPhone (cr_phone p)" by (simp add: MaskPhone_def TrimSpace_idem)
  ultimately show ?thesis using user_added_new(1)[OF a] by auto
qed

theorem registered_user_can_log_in_witness:
  "\<exists>i acct w2. i \<notin> user_ids sample_db \<and>
    handleLogin (mem_bob no_ilike False) (mem_redis False) sample_compare 10 10 ''s9'' sample_ctx ''login''
      (sample_credentials ''0903'') (\<lambda>_. []) (snd sample_rel_register) =
      (reply 200 (JObj [(''session'', JStr ''s9''), (''phone'', JStr (MaskPhone ''0903'')),
         (''username'', JStr (TrimSpace ''carol'')), (''account_number'', JStr acct),
         (''balance'', JInt 100000), (''is_admin'', JBool False)]), w2) \<and>
    r_string (mr_keys (w_redis w2)) (session_key ''s9'') = Some (RText (Itoa i), 10)"
proof -
  have r: "fst sample_rel_register = reply 201 (register_body (new_user 3 ''0903'' ''111111111111'' ''carol'' ''hpw''))"
    by code_simp
  have d: "decode_credentials (sample_credentials ''0903'') =
      Some \<lparr>cr_phone = ''0903'', cr_username = ''carol'', cr_password = ''pw''\<rparr>" by code_simp
  have n: "r_string (mr_keys (w_redis (snd sample_rel_register))) (cache_phone_key (TrimSpace ''0903'')) = None"
    by code_simp
  show ?thesis
    using registered_user_can_log_in[OF rel_mem.reliable_postgres_axioms rel_mred.reliable_redis_axioms sample_bcrypt
        sample_world_wf sample_rel_register_run[unfolded r] d, of 10 10 "''s9''" sample_ctx "''login''" "\<lambda>_. []"] n
    by (simp add: sample_world_def)
qed

end
