(* ===== verification/Login_Cache.thy ===== *)
theory Login_Cache
  imports Auth_Props Transfer_Props
begin

text \<open>
  The login cache and transfers together: a login stores the user under the phone and under the user
  name, a transfer deletes only the entries under the phones of its parties.
\<close>

definition alice_logs_in ::
  "string \<Rightarrow> (memdb, memredis, memjs) world \<Rightarrow> (goerr + any_result) \<times> (memdb, memredis, memjs) world" where
  "alice_logs_in field w =
     handleLogin (mem_bob no_ilike False) (mem_redis False) (\<lambda>h pw. if h = pw then None else Some (OtherErr ''bcrypt''))
       86400 300 ''s7'' sample_ctx ''login''
       (Some (JObj [(field, JStr (if field = ''phone'' then ''0901'' else ''alice'')), (''password'', JStr ''h1'')])) (\<lambda>_. []) w"

definition alice_pays :: "(memdb, memredis, memjs) world \<Rightarrow> (goerr + any_result) \<times> (memdb, memredis, memjs) world" where
  "alice_pays w =
     handleTransfer (mem_bob no_ilike False) (mem_RunInTx False) (mem_redis False) (Some (PublishTransferEvent mem_js))
       half quiet_sleep sample_ctx ''transfer'' pay_bob (\<lambda>_. []) w"

definition shown_balance :: "goerr + any_result \<Rightarrow> json option" where
  "shown_balance r = (case r of Inr (Rpc q) \<Rightarrow> (if rpc_status q = 200 then json_get (rpc_body q) ''balance'' else None) | _ \<Rightarrow> None)"

text \<open>A login by user name shows a stale balance: after a login of Alice by user name and a
  transfer of 30 by her, the tables hold 470 for her, a login by phone shows 470, but another login
  by user name is answered from the cache and shows 500.\<close>

lemma username_login_shows_stale_balance:
  "\<exists>w1 w2 r1 r2. alice_logs_in ''username'' (sample_world []) = (r1, w1) \<and> alice_pays w1 = (r2, w2) \<and>
     shown_balance r1 = Some (JInt 500) \<and> r2 = reply 200 (JObj [(''transfer_id'', JInt 1), (''amount'', JInt 30)]) \<and>
     (\<exists>u \<in> set (users (m_db (w_db w2))). u_username u = ''alice'' \<and> u_balance u = 470) \<and>
     shown_balance (fst (alice_logs_in ''phone'' w2)) = Some (JInt 470) \<and>
     shown_balance (fst (alice_logs_in ''username'' w2)) = Some (JInt 500)"
proof -
  let ?l = "alice_logs_in ''username'' (sample_world [])" let ?p = "alice_pays (snd ?l)"
  have "shown_balance (fst ?l) = Some (JInt 500)" by code_simp
  moreover have "fst ?p = reply 200 (JObj [(''transfer_id'', JInt 1), (''amount'', JInt 30)])" by code_simp
  moreover have "list_ex (\<lambda>u. u_username u = ''alice'' \<and> u_balance u = 470) (users (m_db (w_db (snd ?p))))" by code_simp
  moreover have "shown_balance (fst (alice_logs_in ''phone'' (snd ?p))) = Some (JInt 470)" by code_simp
  moreover have "shown_balance (fst (alice_logs_in ''username'' (snd ?p))) = Some (JInt 500)" by code_simp
  moreover obtain r1 w1 r2 w2 where "?l = (r1, w1)" "alice_pays w1 = (r2, w2)" by (metis prod.collapse)
  ultimately show ?thesis by (simp add: list_ex_iff)
qed

end
