(* ===== verification/Duplicate_Names.thy ===== *)
theory Duplicate_Names
  imports Login_Cache
begin

text \<open>
  User names are not unique: the schema has no constraint on the column and registration does not look
  for one. Login and transfers take a user name as an identifier all the same, and the login cache
  has one entry per name.
\<close>

definition reply_status :: "goerr + any_result \<Rightarrow> int" where
  "reply_status r = (case r of Inr (Rpc q) \<Rightarrow> rpc_status q | _ \<Rightarrow> 500)"

text \<open>A second user registers under the name of Alice and logs in by phone.\<close>

definition namesake_registers :: "(memdb, memredis, memjs) world \<Rightarrow> (goerr + any_result) \<times> (memdb, memredis, memjs) world" where
  "namesake_registers w =
     handleRegister (mem_bob no_ilike False) (\<lambda>pw cost. Inr pw) (\<lambda>_. []) (\<lambda>k i. 1) sample_ctx ''register''
       (Some (JObj [(''phone'', JStr ''0999''), (''username'', JStr ''alice''), (''password'', JStr ''m'')])) (\<lambda>_. []) w"

definition namesake_logs_in :: "(memdb, memredis, memjs) world \<Rightarrow> (goerr + any_result) \<times> (memdb, memredis, memjs) world" where
  "namesake_logs_in w =
     handleLogin (mem_bob no_ilike False) (mem_redis False) (\<lambda>h pw. if h = pw then None else Some (OtherErr ''bcrypt''))
       86400 300 ''s8'' sample_ctx ''login''
       (Some (JObj [(''phone'', JStr ''0999''), (''password'', JStr ''m'')])) (\<lambda>_. []) w"

text \<open>What a login by phone leaves under the user name, unless it expires at once.\<close>

lemma SetUserCache_name:
  assumes "reliable_redis R keys" and "cu_username u \<noteq> []"
  shows "r_string (keys (snd (SetUserCache R ttl u r))) (cache_username_key (cu_username u)) = Some (RJson (cached_user_json u), ttl)"
proof -
  note rs = reliable_redis.axioms(1)[OF assms(1)]
  obtain v r1 where one: "rc_Do R (RSet (cache_phone_key (cu_phone u)) (RJson (cached_user_json u)) ttl) r = (Inr v, r1)"
    using reliable_redis.set_total[OF assms(1)] by metis
  obtain v' r2 where two: "rc_Do R (RSet (cache_username_key (cu_username u)) (RJson (cached_user_json u)) ttl) r1 = (Inr v', r2)"
    using reliable_redis.set_total[OF assms(1)] by metis
  show ?thesis using redis_service.do_ok[OF rs two] by (auto simp: SetUserCache_def one two assms(2))
qed

lemma phone_login_caches_name:
  assumes "reliable_redis R keys" and "postgres B tables ilike" and "db_wf (tables (w_db w))"
    and "decode_credentials raw = Some p" and "v \<in> set (users (tables (w_db w)))" and "TrimSpace (cr_phone p) = u_phone v"
    and "u_phone v \<noteq> []" and "u_username v \<noteq> []"
    and "r_string (keys (w_redis w)) (cache_phone_key (u_phone v)) = None"
    and "handleLogin B R compare sessionTTL cacheTTL sid ctx action raw headers w = (reply 200 body, w1)"
  shows "r_string (keys (w_redis w1)) (cache_username_key (u_username v)) \<in>
      {None, Some (RJson (cached_user_json (cached_of_row v)), cacheTTL)} \<and> tables (w_db w1) = tables (w_db w)"
proof -
  note rs = reliable_redis.axioms(1)[OF assms(1)]
  obtain r1 where get: "GetUserCacheByPhone R (u_phone v) (w_redis w) = (Inr None, r1)"
    using reliable_redis.GetUserCache_absent[OF assms(1), of "w_redis w" "''phone:'' @ u_phone v"] assms(9)
    by (auto simp: GetUserCacheByPhone_def cache_phone_key_def)
  obtain q c1 where q: "QueryUser B ColPhone (ArgText (u_phone v)) (w_db w) = (q, c1)" by fastforce
  note run = assms(10)[unfolded handleLogin_def assms(4) option.case Let_def assms(6)]
  obtain row where row: "q = Inr row" "finish_login R compare sessionTTL sid (cr_password p) (cached_of_row row)
      (w\<lparr>w_redis := snd (SetUserCache R cacheTTL (cached_of_row row) r1), w_db := c1\<rparr>) = (reply 200 body, w1)"
    using run get q assms(7) by (cases q) (auto simp: UserIdentifierCol_def split: if_splits)
  from postgres.QueryUser_row[OF assms(2) q[unfolded row(1)]]
  have "row \<in> set (users (tables (w_db w)))" "u_phone row = u_phone v" "tables c1 = tables (w_db w)" by auto
  then have v: "row = v" and tb: "tables c1 = tables (w_db w)" using assms(3,5) unique_phone by blast+
  let ?cu = "cached_of_row v" and ?r2 = "snd (SetUserCache R cacheTTL (cached_of_row v) r1)"
  have name: "cu_username ?cu = u_username v" by (simp add: cached_of_row_def)
  obtain s r3 where s: "CreateSession R sessionTTL sid (cu_id ?cu) ?r2 = (Inr s, r3)" "w1 = w\<lparr>w_redis := r3, w_db := c1\<rparr>"
    using row(2) by (auto simp: v finish_login_def split: if_splits prod.splits sum.splits)
  obtain x where "rc_Do R (RSet (session_key sid) (RText (Itoa (cu_id ?cu))) sessionTTL) ?r2 = (Inr x, r3)"
    using s(1) by (auto simp: CreateSession_def split: prod.splits sum.splits)
  from redis_service.do_ok[OF rs this] obtain ks where ks: "expired (keys ?r2) ks"
    "keys r3 = redis_apply (RSet (session_key sid) (RText (Itoa (cu_id ?cu))) sessionTTL) ks" by blast
  have "r_string (keys r3) (cache_username_key (u_username v)) = r_string ks (cache_username_key (u_username v))"
    by (simp add: ks(2) session_key_def cache_username_key_def)
  with expired_Some[OF ks(1), of "cache_username_key (u_username v)"] SetUserCache_name[OF assms(1), of ?cu cacheTTL r1] assms(8) name s(2) tb
  show ?thesis by (cases "r_string ks (cache_username_key (u_username v))") auto
qed

text \<open>Property C29. One user's login shuts every namesake out of the login by user name: on services
  without faults, once a user has logged in by phone (and was not cached before), a login by that
  user name whose password does not match that user's hash is refused with 401 for as long as the
  cache entry is there, whatever other user of that name the password belongs to.\<close>

theorem namesake_shuts_out_name_login:
  assumes "reliable_redis R keys" and "postgres B tables ilike" and "db_wf (tables (w_db w))"
    and "decode_credentials raw = Some p" and "v \<in> set (users (tables (w_db w)))" and "TrimSpace (cr_phone p) = u_phone v"
    and "u_phone v \<noteq> []" and "u_username v \<noteq> []"
    and "r_string (keys (w_redis w)) (cache_phone_key (u_phone v)) = None"
    and "handleLogin B R compare sessionTTL cacheTTL sid ctx action raw headers w = (reply 200 body, w1)"
    and "decode_credentials raw2 = Some q" and "TrimSpace (cr_phone q) = []" and "TrimSpace (cr_username q) = u_username v"
    and "\<not> VerifyPassword compare (cr_password q) (u_password_hash v)"
    and "fst (GetUserCacheByUsername R (u_username v) (w_redis w1)) \<noteq> Inr None"
  shows "\<exists>w2. handleLogin B R compare sessionTTL cacheTTL sid2 ctx2 action2 raw2 headers2 w1 =
      (reply 401 (detail ''Invalid credentials''), w2) \<and> tables (w_db w2) = tables (w_db w)"
proof -
  note rs = reliable_redis.axioms(1)[OF assms(1)]
  let ?c = "RGetToBuffer (''user_cache:'' @ ''username:'' @ u_username v) 512" and ?cu = "cached_of_row v"
  note cache = phone_login_caches_name[OF assms(1-10)]
  obtain x r1 where x: "rc_Do R ?c (w_redis w1) = (x, r1)" by fastforce
  obtain y where y: "x = Inr y"
    using assms(15) x reliable_redis.do_total[OF assms(1), of ?c "w_redis w1"]
    by (cases x) (auto simp: GetUserCacheByUsername_def GetUserCache_def)
  from redis_service.do_ok[OF rs x[unfolded y]] have "\<exists>ttl. r_string (keys (w_redis w1)) (cache_username_key (u_username v)) = Some (y, ttl)"
    using expired_Some by (fastforce simp: cache_username_key_def)
  with cache have y': "y = RJson (cached_user_json ?cu)" by auto
  have "user_row_wf v" using assms(3,5) by (rule user_wf)
  then have "in64 (cu_id ?cu)" "in64 (cu_balance ?cu)" by (simp_all add: cached_of_row_def user_row_wf_def)
  then have "GetUserCacheByUsername R (u_username v) (w_redis w1) = (Inr (Some ?cu), r1)"
    using x by (simp add: GetUserCacheByUsername_def GetUserCache_def y y' decode_encode_cached_user)
  then show ?thesis
    using assms(8,11-14) cache by (simp add: handleLogin_def Let_def finish_login_def cached_of_row_def)
qed

text \<open>A namesake of Alice registers and logs in by phone; before that Alice can log in by name, after
  it she cannot, while her login by phone works.\<close>

abbreviation namesake_world :: "(memdb, memredis, memjs) world" where
  "namesake_world \<equiv> snd (namesake_registers (sample_world []))"

lemma namesake_run:
  "reply_status (fst (namesake_registers (sample_world []))) = 201"
  "reply_status (fst (alice_logs_in ''username'' namesake_world)) = 200"
  "reply_status (fst (alice_logs_in ''phone'' (snd (namesake_logs_in namesake_world)))) = 200"
  by (code_simp, code_simp, code_simp)

definition namesake :: user where
  "namesake = new_user 3 ''0999'' (concat (replicate 12 ''1'')) ''alice'' ''m''"

lemma namesake_facts:
  "db_wf (m_db (w_db namesake_world))" "namesake \<in> set (users (m_db (w_db namesake_world)))"
  "fst (namesake_logs_in namesake_world) = reply 200 (login_body ''s8'' (cached_of_row namesake))"
  "r_string (mr_keys (w_redis namesake_world)) (cache_phone_key ''0999'') = None"
  "fst (GetUserCacheByUsername (mem_redis False) ''alice'' (w_redis (snd (namesake_logs_in namesake_world)))) \<noteq> Inr None"
  by (code_simp, code_simp, code_simp, code_simp, code_simp)

theorem namesake_shuts_out_name_login_witness:
  "fst (alice_logs_in ''username'' (snd (namesake_logs_in namesake_world))) = reply 401 (detail ''Invalid credentials'')"
proof -
  let ?raw = "Some (JObj [(''phone'', JStr ''0999''), (''password'', JStr ''m'')])"
  let ?raw2 = "Some (JObj [(''username'', JStr ''alice''), (''password'', JStr ''h1'')])"
  have d: "decode_credentials ?raw = Some \<lparr>cr_phone = ''0999'', cr_username = [], cr_password = ''m''\<rparr>"
    "decode_credentials ?raw2 = Some \<lparr>cr_phone = [], cr_username = ''alice'', cr_password = ''h1''\<rparr>" by code_simp+
  have n: "u_phone namesake = ''0999''" "u_username namesake = ''alice''" "u_password_hash namesake = ''m''"
    by (simp_all add: namesake_def new_user_def)
  have t: "TrimSpace ''0999'' = ''0999''" "TrimSpace ''alice'' = ''alice''" "TrimSpace [] = []" by code_simp+
  let ?cmp = "\<lambda>h pw. if h = pw then None else Some (OtherErr ''bcrypt'')" and ?w1 = "snd (namesake_logs_in namesake_world)"
  have run: "handleLogin (mem_bob no_ilike False) (mem_redis False) ?cmp 86400 300 ''s8'' sample_ctx ''login'' ?raw (\<lambda>_. []) namesake_world =
      (reply 200 (login_body ''s8'' (cached_of_row namesake)), ?w1)"
    using namesake_facts(3) unfolding namesake_logs_in_def[symmetric] by (simp add: prod_eq_iff)
  have "\<exists>w2. handleLogin (mem_bob no_ilike False) (mem_redis False) ?cmp 86400 300 ''s7'' sample_ctx ''login'' ?raw2 (\<lambda>_. []) ?w1 =
      (reply 401 (detail ''Invalid credentials''), w2) \<and> m_db (w_db w2) = m_db (w_db namesake_world)"
    by (rule namesake_shuts_out_name_login[OF rel_mred.reliable_redis_axioms mem.postgres_axioms namesake_facts(1) d(1)
          namesake_facts(2) _ _ _ _ run d(2)])
      (use namesake_facts(4,5) in \<open>simp_all add: n t VerifyPassword_def\<close>)
  then show ?thesis by (auto simp: alice_logs_in_def)
qed

text \<open>Bob and a namesake of his, in either order of the table.\<close>

definition bob_namesake :: user where
  "bob_namesake = bobby\<lparr>u_id := 3, u_phone := ''0903'', u_account_number := ''300''\<rparr>"

definition names_world :: "user list \<Rightarrow> (memdb, memredis, memjs) world" where
  "names_world us = (sample_world [])\<lparr>w_db := \<lparr>m_db = sample_db\<lparr>users := us\<rparr>, m_now = 0, m_faults = []\<rparr>\<rparr>"

definition alice_pays_name :: "(memdb, memredis, memjs) world \<Rightarrow> (goerr + any_result) \<times> (memdb, memredis, memjs) world" where
  "alice_pays_name w =
     handleTransfer (mem_bob no_ilike False) (mem_RunInTx False) (mem_redis False) None half quiet_sleep sample_ctx ''transfer''
       (Some (JObj [(''username'', JStr ''bob''), (''amount'', JInt 30)])) (\<lambda>_. []) w"

definition paid_users :: "(goerr + any_result) \<times> (memdb, memredis, memjs) world \<Rightarrow> int list" where
  "paid_users x = map t_to_user (transfers (m_db (w_db (snd x))))"

text \<open>A transfer to a user name that two users have is not refused: it succeeds and pays
  whichever row the database returns first. Two tables with the same rows, which SQL does not
  distinguish, give the money to different users.\<close>

lemma payment_by_name_is_ambiguous:
  "let us = [alice, bobby, bob_namesake]; vs = [alice, bob_namesake, bobby];
       x = alice_pays_name (names_world us); y = alice_pays_name (names_world vs)
   in mset us = mset vs \<and> db_wf (m_db (w_db (names_world us))) \<and> db_wf (m_db (w_db (names_world vs))) \<and>
      reply_status (fst x) = 200 \<and> reply_status (fst y) = 200 \<and> paid_users x = [2] \<and> paid_users y = [3]"
proof -
  have "db_wf (m_db (w_db (names_world [alice, bobby, bob_namesake])))"
    "db_wf (m_db (w_db (names_world [alice, bob_namesake, bobby])))" by code_simp+
  moreover have "reply_status (fst (alice_pays_name (names_world [alice, bobby, bob_namesake]))) = 200"
    "reply_status (fst (alice_pays_name (names_world [alice, bob_namesake, bobby]))) = 200" by code_simp+
  moreover have "paid_users (alice_pays_name (names_world [alice, bobby, bob_namesake])) = [2]"
    "paid_users (alice_pays_name (names_world [alice, bob_namesake, bobby])) = [3]" by code_simp+
  ultimately show ?thesis by simp
qed

end
