(* ===== verification/Redis_Subscribe.thy ===== *)
theory Redis_Subscribe
  imports Redis_Access "HOL-Library.Sublist"
begin

text \<open>
  \<^verbatim>\<open>Subscribe\<close> of \<^verbatim>\<open>internal/redis/redis.go\<close>: the goroutine that moves the messages of one Redis
  channel into a Go channel of 16 places, and the unsubscribe function.

  \<open>sub_seen\<close> counts the messages of \<open>r_published\<close> that have passed the subscription. Redis pub/sub is
  at most once: a message may be lost, as one on another channel is (\<open>lost\<close>), but messages are not
  reordered. \<open>sub_held\<close> is the message the goroutine holds in its \<^verbatim>\<open>select\<close>; \<open>sub_open\<close> is false once
  the goroutine has returned and closed the Go channel; \<open>sub_unsub\<close> is set when the subscription was
  closed, by the unsubscribe function or with the client.
\<close>

record subscription =
  sub_channel :: string
  sub_seen :: nat
  sub_held :: "rval option"
  sub_buffer :: "rval list"
  sub_open :: bool
  sub_unsub :: bool

definition Subscribe :: "string \<Rightarrow> nat \<Rightarrow> subscription" where
  "Subscribe channel seen =
     \<lparr>sub_channel = channel, sub_seen = seen, sub_held = None, sub_buffer = [], sub_open = True, sub_unsub = False\<rparr>"

definition SubscribeNotify :: "int \<Rightarrow> nat \<Rightarrow> subscription" where
  "SubscribeNotify userID seen = Subscribe (notify_channel userID) seen"

definition unsubscribe :: "subscription \<Rightarrow> subscription" where
  "unsubscribe s = s\<lparr>sub_unsub := True\<rparr>"

text \<open>\<open>ps\<close> is what has been published, \<open>ctx_done\<close> whether the context is cancelled.\<close>

inductive subscribe_step :: "(string \<times> rval) list \<Rightarrow> bool \<Rightarrow> subscription \<Rightarrow> subscription \<Rightarrow> bool" for ps ctx_done where
  lost: "sub_seen s < length ps \<Longrightarrow> subscribe_step ps ctx_done s (s\<lparr>sub_seen := Suc (sub_seen s)\<rparr>)"
| taken: "sub_open s \<Longrightarrow> \<not> sub_unsub s \<Longrightarrow> sub_held s = None \<Longrightarrow> sub_seen s < length ps \<Longrightarrow>
    ps ! sub_seen s = (sub_channel s, v) \<Longrightarrow>
    subscribe_step ps ctx_done s (s\<lparr>sub_seen := Suc (sub_seen s), sub_held := Some v\<rparr>)"
| forward: "sub_open s \<Longrightarrow> sub_held s = Some v \<Longrightarrow> length (sub_buffer s) < 16 \<Longrightarrow>
    subscribe_step ps ctx_done s (s\<lparr>sub_held := None, sub_buffer := sub_buffer s @ [v]\<rparr>)"
| cancelled: "sub_open s \<Longrightarrow> sub_held s = Some v \<Longrightarrow> ctx_done \<Longrightarrow>
    subscribe_step ps ctx_done s (s\<lparr>sub_held := None, sub_open := False\<rparr>)"
| ended: "sub_open s \<Longrightarrow> sub_held s = None \<Longrightarrow> sub_unsub s \<Longrightarrow>
    subscribe_step ps ctx_done s (s\<lparr>sub_open := False\<rparr>)"
| client_closed: "subscribe_step ps ctx_done s (unsubscribe s)"

inductive_cases subscribe_stepE: "subscribe_step ps ctx_done s s'"

text \<open>The messages on their way: in the buffer and in the hand of the goroutine.\<close>

definition in_transit :: "subscription \<Rightarrow> rval list" where
  "in_transit s = sub_buffer s @ (case sub_held s of None \<Rightarrow> [] | Some v \<Rightarrow> [v])"

section \<open>Order\<close>

lemma subseq_front: "subseq xs (xs @ ys)"
  by (simp add: prefix_imp_subseq)

lemma subseq_both: "subseq xs ys \<Longrightarrow> subseq (xs @ zs) (ys @ zs)"
  by (rule list_emb_append_mono) simp_all

text \<open>The payloads published on a channel.\<close>

definition on_channel :: "string \<Rightarrow> (string \<times> rval) list \<Rightarrow> rval list" where
  "on_channel ch ms = map snd (filter (\<lambda>m. fst m = ch) ms)"

lemma on_channel_append: "on_channel ch (ms @ ns) = on_channel ch ms @ on_channel ch ns"
  by (simp add: on_channel_def)

lemma subscribe_step_frame:
  assumes "subscribe_step ps done s s'"
  shows "sub_channel s' = sub_channel s \<and> sub_seen s \<le> sub_seen s' \<and>
    (sub_seen s \<le> length ps \<longrightarrow> sub_seen s' \<le> length ps)"
  using assms by (cases rule: subscribe_step.cases) (auto simp: unsubscribe_def)

text \<open>What is in transit after a step is what was in transit before and what has been taken, in order.\<close>

lemma subscribe_step_transit:
  assumes "subscribe_step ps done s s'"
  shows "subseq (in_transit s')
    (in_transit s @ on_channel (sub_channel s) (take (sub_seen s' - sub_seen s) (drop (sub_seen s) ps)))"
  using assms
proof (cases rule: subscribe_step.cases)
  case (taken v)
  then have "take (sub_seen s' - sub_seen s) (drop (sub_seen s) ps) = [(sub_channel s, v)]"
    using take_Suc_conv_app_nth[of 0 "drop (sub_seen s) ps"] by simp
  with taken show ?thesis by (simp add: in_transit_def on_channel_def)
next
  case (cancelled v)
  then show ?thesis by (simp add: in_transit_def subseq_front)
qed (auto simp: in_transit_def unsubscribe_def subseq_front)

section \<open>Bounds and end\<close>

lemma subscribe_step_bounded: "subscribe_step ps done s s' \<Longrightarrow> length (sub_buffer s) \<le> 16 \<Longrightarrow> length (sub_buffer s') \<le> 16"
  by (erule subscribe_stepE) (auto simp: unsubscribe_def)

text \<open>The goroutine does not leak: once the subscription is closed and the context cancelled, some step of
  its own is possible until it has returned, and each of its own steps brings it nearer to that.\<close>

definition goroutine_left :: "subscription \<Rightarrow> nat" where
  "goroutine_left s = (if sub_open s then 1 else 0) + (if sub_held s = None then 0 else 1)"

lemma goroutine_can_end:
  assumes "sub_open s" and "sub_unsub s"
  shows "\<exists>s'. subscribe_step ps True s s' \<and> goroutine_left s' < goroutine_left s"
proof (cases "sub_held s")
  case None
  then show ?thesis
    using ended[OF assms(1) None assms(2), of ps True] assms by (intro exI conjI) (auto simp: goroutine_left_def)
next
  case (Some v)
  then show ?thesis
    using cancelled[OF assms(1) Some, of True ps] assms by (intro exI conjI) (auto simp: goroutine_left_def)
qed

lemma goroutine_left_decreases:
  assumes "subscribe_step ps done s s'" and "sub_unsub s"
  shows "sub_unsub s' \<and> goroutine_left s' \<le> goroutine_left s \<and>
    (goroutine_left s' = goroutine_left s \<longrightarrow> sub_open s' = sub_open s \<and> sub_held s' = sub_held s)"
  using assms by (cases rule: subscribe_step.cases) (auto simp: goroutine_left_def unsubscribe_def)

end
