(* ===== verification/Notification_Service.thy ===== *)
theory Notification_Service
  imports Account_Service Redis_Subscribe
begin

text \<open>
  \<^verbatim>\<open>services/notification-service\<close>: the notification list, acknowledging a notification, and the
  WebSocket connection.

  A connection runs two goroutines, the presence heartbeat and the message pump, beside the
  goroutine of \<^verbatim>\<open>iredis.Subscribe\<close> (\<open>Redis_Subscribe\<close>). Their interleavings are the steps of \<open>ws_step\<close>.
  A heartbeat's \<^verbatim>\<open>SetPresence\<close> begins only while the connection's context is live but may reach Redis
  later, so it has two steps. The pump reads the Go channel of the subscription; when it returns,
  the deferred unsubscribe closes the subscription.
\<close>

section \<open>RPC handlers\<close>

definition handleNotifications :: "'c bobdb \<Rightarrow> ('c, 'r, 'j) handler" where
  "handleNotifications B ctx action raw headers w =
     (let userID = fst (UserIDFromContext ctx) in
      case apfst scan_all_notifications
             (bob_All B (SelectNotifications (Some userID) CreatedAtDesc (Some (50, 0))) (w_db w)) of
        (Inl e, c') \<Rightarrow>
          (if IsNotFound (Some e) then reply 200 (JObj [(''notifications'', JArr [])])
           else Inl (Wrapf ''query notifications'' e), w\<lparr>w_db := c'\<rparr>)
      | (Inr notifs, c') \<Rightarrow>
          (reply 200 (JObj [(''notifications'', JArr (map NotificationToMap notifs))]), w\<lparr>w_db := c'\<rparr>))"

definition decode_ack :: "raw_message \<Rightarrow> int option" where
  "decode_ack raw = unmarshal_obj [''id''] (\<lambda>f v i. decode_int v i) 0 raw"

definition handleAck :: "'c bobdb \<Rightarrow> ('c, 'r, 'j) handler" where
  "handleAck B ctx action raw headers w =
     (let userID = fst (UserIDFromContext ctx) in
      case decode_ack raw of
        None \<Rightarrow> (reply 400 (detail ''invalid payload: id required''), w)
      | Some i \<Rightarrow>
          (if i = 0 then (reply 400 (detail ''invalid payload: id required''), w)
           else (case bob_Exec B (AckNotification i userID) (w_db w) of
                   (Inl e, c') \<Rightarrow> (Inl (Wrapf ''ack notification'' e), w\<lparr>w_db := c'\<rparr>)
                 | (Inr n, c') \<Rightarrow>
                     (if n = 0 then reply 404 (detail ''notification not found'')
                      else reply 200 (JObj [(''status'', JStr ''ok'')]), w\<lparr>w_db := c'\<rparr>))))"

section \<open>The WebSocket connection\<close>

definition presenceHeartbeatInterval :: "int \<Rightarrow> int" where
  "presenceHeartbeatInterval presenceTTL = go_div presenceTTL 3"

datatype ws_answer = HttpError int string | UpgradeFailed | Connected int

text \<open>\<open>accept\<close> is whether \<^verbatim>\<open>websocket.Accept\<close> succeeds.\<close>

definition ws_accept :: "'r redis \<Rightarrow> bool \<Rightarrow> string \<Rightarrow> 'r \<Rightarrow> ws_answer \<times> 'r" where
  "ws_accept R accept sid r =
     (if sid = [] then (HttpError 401 ''missing session'', r)
      else (case GetUserIDFromSession R sid r of
              (Inl e, r') \<Rightarrow>
                (if errors_Is e ErrUnauthorized then HttpError 401 ''Unauthorized'' else HttpError 500 ''session error'', r')
            | (Inr userID, r') \<Rightarrow> (if accept then Connected userID else UpgradeFailed, r')))"

datatype heartbeat = Idle | InFlight | Stopped

record ws_conn =
  ws_user :: int
  ws_done :: bool
  ws_closed :: bool
  ws_beat :: heartbeat
  ws_sub :: subscription
  ws_frames :: "json list"

definition ws_init :: "int \<Rightarrow> nat \<Rightarrow> ws_conn" where
  "ws_init userID seen =
     \<lparr>ws_user = userID, ws_done = False, ws_closed = False, ws_beat = InFlight,
      ws_sub = SubscribeNotify userID seen, ws_frames = []\<rparr>"

text \<open>The frame written for a message: the JSON itself, or the text as a JSON string.\<close>

definition ws_frame :: "rval \<Rightarrow> json" where
  "ws_frame v =
     JObj [(''event'', case as_raw v of Some j \<Rightarrow> j | None \<Rightarrow> JStr (as_text v))]"

definition ws_disconnect :: "'r redis \<Rightarrow> int \<Rightarrow> ws_conn \<Rightarrow> 'r \<Rightarrow> ws_conn \<times> 'r" where
  "ws_disconnect R presenceTTL k r =
     (k\<lparr>ws_closed := True, ws_done := True, ws_sub := unsubscribe (ws_sub k)\<rparr>, snd (SetPresence R presenceTTL (ws_user k) False r))"

inductive ws_step ::
  "'r redis \<Rightarrow> ('r \<Rightarrow> keyspace) \<Rightarrow> int \<Rightarrow> ws_conn \<times> 'r \<Rightarrow> ws_conn \<times> 'r \<Rightarrow> bool"
  for R keys presenceTTL where
  other_session:
    "r_published (keys r') = r_published (keys r) @ ms \<Longrightarrow> ws_step R keys presenceTTL (k, r) (k, r')"
| client_gone:
    "ws_step R keys presenceTTL (k, r) (k\<lparr>ws_done := True\<rparr>, r)"
| beat_begin:
    "\<not> ws_done k \<Longrightarrow> ws_beat k = Idle \<Longrightarrow>
     ws_step R keys presenceTTL (k, r) (k\<lparr>ws_beat := InFlight\<rparr>, r)"
| beat_end:
    "ws_beat k = InFlight \<Longrightarrow>
     ws_step R keys presenceTTL (k, r)
       (k\<lparr>ws_beat := Idle\<rparr>, snd (SetPresence R presenceTTL (ws_user k) True r))"
| beat_stop:
    "ws_done k \<Longrightarrow> ws_beat k = Idle \<Longrightarrow>
     ws_step R keys presenceTTL (k, r) (k\<lparr>ws_beat := Stopped\<rparr>, r)"
| subscription:
    "subscribe_step (r_published (keys r)) (ws_done k) (ws_sub k) s' \<Longrightarrow>
     ws_step R keys presenceTTL (k, r) (k\<lparr>ws_sub := s'\<rparr>, r)"
| write_frame:
    "\<not> ws_closed k \<Longrightarrow> sub_buffer (ws_sub k) = v # vs \<Longrightarrow>
     ws_step R keys presenceTTL (k, r)
       (k\<lparr>ws_sub := (ws_sub k)\<lparr>sub_buffer := vs\<rparr>, ws_frames := ws_frames k @ [ws_frame v]\<rparr>, r)"
| write_failed:
    "\<not> ws_closed k \<Longrightarrow> sub_buffer (ws_sub k) = v # vs \<Longrightarrow>
     ws_step R keys presenceTTL (k, r)
       (ws_disconnect R presenceTTL (k\<lparr>ws_sub := (ws_sub k)\<lparr>sub_buffer := vs\<rparr>\<rparr>) r)"
| channel_closed:
    "\<not> ws_closed k \<Longrightarrow> sub_buffer (ws_sub k) = [] \<Longrightarrow> \<not> sub_open (ws_sub k) \<Longrightarrow>
     ws_step R keys presenceTTL (k, r) (ws_disconnect R presenceTTL k r)"
| done_seen:
    "\<not> ws_closed k \<Longrightarrow> ws_done k \<Longrightarrow> ws_step R keys presenceTTL (k, r) (ws_disconnect R presenceTTL k r)"

inductive_cases ws_stepE: "ws_step R keys presenceTTL (k, r) (k', r')"

end
