(* ===== verification/Notification_Props.thy ===== *)
theory Notification_Props
  imports Notification_Service Account_Props
begin

text \<open>
  The properties of the notification service: what a user sees and may acknowledge, and what
  reaches a user's WebSocket.
\<close>

section \<open>Notification list and acknowledgement\<close>

text \<open>Property C35. The notification list holds only notifications of the user of the session, at most
  fifty, newest first, and none that is left out is newer than one that is shown; reading it changes
  nothing.\<close>

theorem notifications_listed:
  assumes "postgres B tables ilike"
    and "handleNotifications B ctx action raw headers w = (reply 200 body, w')"
  shows "\<exists>zs. mset zs = mset (filter (\<lambda>x. n_user_id x = fst (UserIDFromContext ctx)) (notifications (tables (w_db w)))) \<and>
    sorted_wrt (\<lambda>x y. n_created_at y \<le> n_created_at x) zs \<and>
    body = JObj [(''notifications'', JArr (map NotificationToMap (take 50 zs)))] \<and>
    tables (w_db w') = tables (w_db w)"
proof -
  let ?st = "SelectNotifications (Some (fst (UserIDFromContext ctx))) CreatedAtDesc (Some (50, 0))"
  obtain q c' where q: "bob_All B ?st (w_db w) = (q, c')" by fastforce
  show ?thesis
  proof (cases q)
    case (Inl e)
    with q postgres.all_err[OF assms(1), of ?st "w_db w" e c'] have "\<not> app_err e" by (simp add: db_err_def)
    then have "\<not> IsNotFound (Some e)" by (auto simp: IsNotFound_def err_is_def app_err_def app_errors_def)
    with assms(2) q Inl show ?thesis by (simp add: handleNotifications_def scan_all_notifications_def)
  next
    case (Inr rows)
    from postgres.all_rows[OF assms(1) q[unfolded Inr]] obtain ns where
      n: "tables c' = tables (w_db w)" "rows = map NotificationRow ns"
      "selection (order_rel CreatedAtDesc n_id n_created_at)
         (filter (\<lambda>x. n_user_id x = fst (UserIDFromContext ctx)) (notifications (tables (w_db w)))) (Some (50, 0)) ns"
      by auto
    from assms(2) q Inr n(2) have "body = JObj [(''notifications'', JArr (map NotificationToMap ns))]" "w' = w\<lparr>w_db := c'\<rparr>"
      by (auto simp: handleNotifications_def scan_all_notifications_def)
    with n show ?thesis by (auto simp: selection_def page_of_def order_rel_eqs)
  qed
qed

definition sample_world3 :: "(memdb, memredis, memjs) world" where
  "sample_world3 = (sample_world [])\<lparr>w_db := \<lparr>m_db = sample_db\<lparr>notifications :=
     [\<lparr>n_id = 1, n_user_id = 1, n_message = ''a'', n_is_read = False, n_created_at = 5\<rparr>,
      \<lparr>n_id = 2, n_user_id = 2, n_message = ''b'', n_is_read = False, n_created_at = 5\<rparr>]\<rparr>, m_now = 9, m_faults = []\<rparr>\<rparr>"

definition sample_list :: "(goerr + any_result) \<times> (memdb, memredis, memjs) world" where
  "sample_list = handleNotifications (mem_bob no_ilike True) sample_ctx ''notifications'' None (\<lambda>_. []) sample_world3"

theorem notifications_listed_witness:
  "m_db (w_db (snd sample_list)) = m_db (w_db sample_world3)"
proof -
  have r: "fst sample_list = reply 200 (JObj [(''notifications'', JArr [NotificationToMap
      \<lparr>n_id = 1, n_user_id = 1, n_message = ''a'', n_is_read = False, n_created_at = 5\<rparr>])])" by code_simp
  have "handleNotifications (mem_bob no_ilike True) sample_ctx ''notifications'' None (\<lambda>_. []) sample_world3 =
      (fst sample_list, snd sample_list)" by (simp add: sample_list_def)
  from notifications_listed[OF mem.postgres_axioms this[unfolded r]] show ?thesis by blast
qed

text \<open>Property C36. Acknowledging marks exactly the addressed notification as read, and only when it belongs
  to the user of the session: 200 means it was theirs and is read now; 404 means no notification
  with that id is theirs, and nothing changed. Notifications of other users never change.\<close>

theorem ack_only_own:
  assumes "postgres B tables ilike"
    and "handleAck B ctx action raw headers w = (r, w')" and "decode_ack raw = Some i" and "i \<noteq> 0"
  shows "(\<forall>x \<in> set (notifications (tables (w_db w))). n_user_id x \<noteq> fst (UserIDFromContext ctx) \<longrightarrow>
       x \<in> set (notifications (tables (w_db w')))) \<and>
    (r = reply 404 b \<longrightarrow> tables (w_db w') = tables (w_db w) \<and>
       (\<forall>x \<in> set (notifications (tables (w_db w))). \<not> (n_id x = i \<and> n_user_id x = fst (UserIDFromContext ctx)))) \<and>
    (r = reply 200 b \<longrightarrow>
       (\<exists>x \<in> set (notifications (tables (w_db w))). n_id x = i \<and> n_user_id x = fst (UserIDFromContext ctx)) \<and>
       tables (w_db w') = (tables (w_db w))\<lparr>notifications :=
         map (\<lambda>x. if n_id x = i \<and> n_user_id x = fst (UserIDFromContext ctx) then x\<lparr>n_is_read := True\<rparr> else x)
           (notifications (tables (w_db w)))\<rparr>)"
proof -
  let ?uid = "fst (UserIDFromContext ctx)" and ?d = "tables (w_db w)"
  let ?st = "AckNotification i ?uid"
  let ?f = "\<lambda>x. if n_id x = i \<and> n_user_id x = ?uid then x\<lparr>n_is_read := True\<rparr> else x"
  have frame: "x \<in> set (map ?f (notifications ?d))" if "x \<in> set (notifications ?d)" "n_user_id x \<noteq> ?uid" for x
    using that by (auto simp: image_iff intro!: bexI[of _ x])
  obtain q c' where q: "bob_Exec B ?st (w_db w) = (q, c')" by fastforce
  show ?thesis
  proof (cases q)
    case (Inl e)
    with q postgres.exec_err[OF assms(1), of ?st "w_db w" e c'] have
      "tables c' = ?d \<or> tables c' = ?d\<lparr>notifications := map ?f (notifications ?d)\<rparr>"
      by (auto simp: err_effect_def)
    moreover have "r = Inl (Wrapf ''ack notification'' e)" "w' = w\<lparr>w_db := c'\<rparr>"
      using assms(2-4) q Inl by (auto simp: handleAck_def)
    ultimately show ?thesis using frame by auto
  next
    case (Inr n)
    from postgres.exec_ok[OF assms(1) q[unfolded Inr]] have
      n: "n = int (length (filter (\<lambda>x. n_id x = i \<and> n_user_id x = ?uid) (notifications ?d)))"
      "tables c' = ?d\<lparr>notifications := map ?f (notifications ?d)\<rparr>" by auto
    have w': "w' = w\<lparr>w_db := c'\<rparr>"
      "r = (if n = 0 then reply 404 (detail ''notification not found'') else reply 200 (JObj [(''status'', JStr ''ok'')]))"
      using assms(2-4) q Inr by (auto simp: handleAck_def split: if_splits)
    show ?thesis
    proof (cases "n = 0")
      case True
      with n(1) have none: "\<forall>x \<in> set (notifications ?d). \<not> (n_id x = i \<and> n_user_id x = ?uid)"
        by (auto simp: filter_empty_conv)
      then have "map ?f (notifications ?d) = notifications ?d" by (intro map_idI) auto
      with n(2) have "tables c' = ?d" by simp
      with none w' True show ?thesis by auto
    next
      case False
      with n(1) have "filter (\<lambda>x. n_id x = i \<and> n_user_id x = ?uid) (notifications ?d) \<noteq> []" by auto
      then have "\<exists>x \<in> set (notifications ?d). n_id x = i \<and> n_user_id x = ?uid" by (auto simp: filter_empty_conv)
      with n(2) w' False frame show ?thesis by auto
    qed
  qed
qed

definition sample_ack :: "int \<Rightarrow> (goerr + any_result) \<times> (memdb, memredis, memjs) world" where
  "sample_ack i = handleAck (mem_bob no_ilike True) sample_ctx ''ack'' (Some (JObj [(''id'', JInt i)])) (\<lambda>_. []) sample_world3"

theorem ack_only_own_witness:
  "m_db (w_db (snd (sample_ack 2))) = m_db (w_db sample_world3)"
proof -
  have r: "fst (sample_ack 2) = reply 404 (detail ''notification not found'')" by code_simp
  have a: "handleAck (mem_bob no_ilike True) sample_ctx ''ack'' (Some (JObj [(''id'', JInt 2)])) (\<lambda>_. []) sample_world3 =
      (fst (sample_ack 2), snd (sample_ack 2))" by (simp add: sample_ack_def)
  have d: "decode_ack (Some (JObj [(''id'', JInt 2)])) = Some 2" by code_simp
  from ack_only_own[OF mem.postgres_axioms a d] r show ?thesis by simp
qed


section \<open>The WebSocket\<close>

context redis_service
begin

lemma SetPresence_published: "r_published (keys (snd (SetPresence R ttl uid online r))) = r_published (keys r)"
proof -
  define c where "c = (if online then RSet (presence_key uid) (RText ''online'') ttl else RDel [presence_key uid])"
  obtain q r' where q: "rc_Do R c r = (q, r')" by fastforce
  have "r_published (keys r') = r_published (keys r)"
  proof (cases q)
    case (Inr v)
    with q do_ok[of c r v r'] show ?thesis by (auto simp: c_def expired_def)
  next
    case (Inl e)
    with q do_nil[of c r e r'] do_err[of c r e r'] show ?thesis
      by (cases "errors_Is e RedisNil") (auto simp: c_def expired_def split: if_splits)
  qed
  with q show ?thesis by (simp add: SetPresence_def c_def split: sum.splits)
qed

text \<open>What has been written and is in transit is a subsequence of what was published on the user's own
  channel since the subscription.\<close>

definition ws_inv :: "nat \<Rightarrow> int \<Rightarrow> ws_conn \<times> 'r \<Rightarrow> bool" where
  "ws_inv start uid kr \<longleftrightarrow>
     (case kr of (k, r) \<Rightarrow>
        ws_user k = uid \<and> sub_channel (ws_sub k) = notify_channel uid \<and> length (sub_buffer (ws_sub k)) \<le> 16 \<and>
        start \<le> sub_seen (ws_sub k) \<and> sub_seen (ws_sub k) \<le> length (r_published (keys r)) \<and>
        subseq (ws_frames k @ map ws_frame (in_transit (ws_sub k)))
          (map ws_frame (on_channel (notify_channel uid)
             (take (sub_seen (ws_sub k) - start) (drop start (r_published (keys r)))))))"

lemma ws_inv_append:
  assumes "ws_inv start uid (k, r)" and "r_published (keys r') = r_published (keys r) @ ms"
  shows "ws_inv start uid (k, r')"
  using assms by (auto simp: ws_inv_def)

text \<open>A step that neither publishes nor reads the channel may lose messages but adds none.\<close>

lemma ws_inv_same:
  assumes "ws_inv start uid (k, r)" and "r_published (keys r') = r_published (keys r)"
    and "ws_user k' = ws_user k" and "sub_channel (ws_sub k') = sub_channel (ws_sub k)" and "sub_seen (ws_sub k') = sub_seen (ws_sub k)"
    and "length (sub_buffer (ws_sub k')) \<le> length (sub_buffer (ws_sub k))"
    and "subseq (ws_frames k' @ map ws_frame (in_transit (ws_sub k'))) (ws_frames k @ map ws_frame (in_transit (ws_sub k)))"
  shows "ws_inv start uid (k', r')"
  using assms subseq_order.order_trans by (auto simp: ws_inv_def)

lemma ws_inv_subscription:
  assumes "subscribe_step (r_published (keys r)) dn (ws_sub k) s'" and "ws_inv start uid (k, r)"
  shows "ws_inv start uid (k\<lparr>ws_sub := s'\<rparr>, r)"
proof -
  let ?s = "ws_sub k" and ?ps = "r_published (keys r)"
  let ?old = "take (sub_seen ?s - start) (drop start ?ps)" and ?new = "take (sub_seen s' - sub_seen ?s) (drop (sub_seen ?s) ?ps)"
  note f = subscribe_step_frame[OF assms(1)] and i = assms(2)[unfolded ws_inv_def, simplified]
  have "take (sub_seen s' - start) (drop start ?ps) = ?old @ ?new"
    using f i take_add[of "sub_seen ?s - start" "sub_seen s' - sub_seen ?s" "drop start ?ps"] by simp
  moreover have "subseq (ws_frames k @ map ws_frame (in_transit s')) ((ws_frames k @ map ws_frame (in_transit ?s)) @ map ws_frame (on_channel (notify_channel uid) ?new))"
    using subseq_map[OF subscribe_step_transit[OF assms(1)], of ws_frame] i
    by (auto intro!: list_emb_append_mono)
  moreover have "subseq ((ws_frames k @ map ws_frame (in_transit ?s)) @ map ws_frame (on_channel (notify_channel uid) ?new))
      (map ws_frame (on_channel (notify_channel uid) ?old) @ map ws_frame (on_channel (notify_channel uid) ?new))"
    using i by (intro subseq_both) simp
  ultimately show ?thesis
    using f i subscribe_step_bounded[OF assms(1)]
    by (auto simp: ws_inv_def on_channel_append intro: subseq_order.order_trans)
qed

lemma ws_inv_disconnect:
  "ws_inv start uid (k, r) \<Longrightarrow> ws_inv start uid (ws_disconnect R ttl k r)"
  unfolding ws_disconnect_def
  by (elim ws_inv_same) (simp_all add: SetPresence_published unsubscribe_def in_transit_def)

lemma ws_inv_drop:
  assumes "ws_inv start uid (k, r)" and "sub_buffer (ws_sub k) = v # vs"
  shows "ws_inv start uid (k\<lparr>ws_sub := (ws_sub k)\<lparr>sub_buffer := vs\<rparr>\<rparr>, r)"
proof -
  have "subseq (ws_frames k @ map ws_frame (in_transit ((ws_sub k)\<lparr>sub_buffer := vs\<rparr>)))
      (ws_frames k @ map ws_frame (in_transit (ws_sub k)))"
    using assms(2) by (intro list_emb_append_mono) (auto simp: in_transit_def)
  with assms show ?thesis by (elim ws_inv_same) simp_all
qed

lemma ws_step_inv:
  assumes "ws_step R keys ttl kr kr'" and "ws_inv start uid kr"
  shows "ws_inv start uid kr'"
  using assms
proof (induction rule: ws_step.induct)
  case (other_session r' r ms k)
  then show ?case using ws_inv_append by blast
next
  case (subscription r k s')
  then show ?case by (rule ws_inv_subscription)
next
  case (write_frame k v vs r)
  then show ?case by (auto simp: ws_inv_def in_transit_def)
next
  case (write_failed k v vs r)
  then show ?case by (intro ws_inv_disconnect ws_inv_drop)
next
  case (channel_closed k r)
  then show ?case by (intro ws_inv_disconnect)
next
  case (done_seen k r)
  then show ?case by (intro ws_inv_disconnect)
qed (auto elim!: ws_inv_same simp: SetPresence_published)

lemma ws_reachable_inv:
  assumes "(ws_step R keys ttl)\<^sup>*\<^sup>* (ws_init uid (length (r_published (keys r))), r) kr"
  shows "ws_inv (length (r_published (keys r))) uid kr"
  using assms
proof (induction rule: rtranclp_induct)
  case base
  show ?case by (simp add: ws_inv_def ws_init_def SubscribeNotify_def Subscribe_def in_transit_def)
next
  case (step y z)
  then show ?case using ws_step_inv by blast
qed

end

text \<open>Property C37. In every interleaving of the heartbeat, the pump, the subscription and other sessions,
  the frames a connection has written are a subsequence, in order and without duplicates, of the
  messages published on its own user's channel since it subscribed; nothing published for another
  user is ever written to it.\<close>

theorem ws_frames_are_own_messages:
  assumes "redis_service R keys"
    and "(ws_step R keys ttl)\<^sup>*\<^sup>* (ws_init uid (length (r_published (keys r))), r) (k, r')"
  shows "subseq (ws_frames k)
      (map ws_frame (on_channel (notify_channel uid) (drop (length (r_published (keys r))) (r_published (keys r'))))) \<and>
    length (sub_buffer (ws_sub k)) \<le> 16"
proof -
  let ?start = "length (r_published (keys r))" and ?s = "ws_sub k"
  let ?f = "\<lambda>ms. map ws_frame (on_channel (notify_channel uid) ms)"
  let ?new = "drop ?start (r_published (keys r'))"
  have "redis_service.ws_inv keys ?start uid (k, r')" using redis_service.ws_reachable_inv[OF assms(1,2)] .
  then have i: "subseq (ws_frames k @ map ws_frame (in_transit ?s)) (?f (take (sub_seen ?s - ?start) ?new))"
    "length (sub_buffer ?s) \<le> 16"
    by (simp_all add: redis_service.ws_inv_def[OF assms(1)])
  have "?f ?new = ?f (take (sub_seen ?s - ?start) ?new) @ ?f (drop (sub_seen ?s - ?start) ?new)"
    unfolding map_append[symmetric] on_channel_append[symmetric] append_take_drop_id ..
  then have "subseq (?f (take (sub_seen ?s - ?start) ?new)) (?f ?new)" using subseq_front by metis
  with i subseq_front[of "ws_frames k"] show ?thesis by (meson subseq_order.order_trans)
qed

text \<open>Once a connection is closed and no heartbeat is in flight, the connection does not
  touch Redis again: whatever step follows is another session's, or leaves Redis as it is, and this
  stays so. (A heartbeat that is in flight when the connection closes may still mark the user online
  after the disconnect marked them offline.)\<close>

lemma ws_closed_connection_is_silent:
  assumes "ws_step R keys ttl (k, r) (k', r')" and "ws_closed k" and "ws_done k" and "ws_beat k \<noteq> InFlight"
  shows "(k' = k \<or> r' = r) \<and> ws_closed k' \<and> ws_done k' \<and> ws_beat k' \<noteq> InFlight"
  using assms by (elim ws_stepE) (auto simp: ws_disconnect_def)


text \<open>A run of one connection: the receiver of a transfer gets the event, and a message on another
  user's channel is skipped.\<close>

definition sample_event_json :: json where
  "sample_event_json = transfer_completed_json sample_event"

definition sample_published :: memredis where
  "sample_published = \<lparr>mr_keys = sample_keys\<lparr>r_published := [(notify_channel 1, RJson sample_event_json),
     (notify_channel 2, RJson sample_event_json)]\<rparr>, mr_script = []\<rparr>"

definition sample_sub :: "nat \<Rightarrow> rval option \<Rightarrow> rval list \<Rightarrow> subscription" where
  "sample_sub n held buf = (SubscribeNotify 2 n)\<lparr>sub_held := held, sub_buffer := buf\<rparr>"

lemma sample_sub_steps:
  "subscribe_step (r_published (mr_keys sample_published)) False (SubscribeNotify 2 0) (sample_sub 1 None [])"
  "subscribe_step (r_published (mr_keys sample_published)) False (sample_sub 1 None []) (sample_sub 2 (Some (RJson sample_event_json)) [])"
  "subscribe_step (r_published (mr_keys sample_published)) False (sample_sub 2 (Some (RJson sample_event_json)) [])
     (sample_sub 2 None [RJson sample_event_json])"
  using subscribe_step.lost[of "SubscribeNotify 2 0" "r_published (mr_keys sample_published)" False]
    subscribe_step.taken[of "sample_sub 1 None []" "r_published (mr_keys sample_published)" "RJson sample_event_json" False]
    subscribe_step.forward[of "sample_sub 2 (Some (RJson sample_event_json)) []" "RJson sample_event_json" "r_published (mr_keys sample_published)" False]
  by (simp_all add: sample_sub_def SubscribeNotify_def Subscribe_def sample_published_def numeral_2_eq_2)

lemma sample_ws_run:
  "(ws_step (mem_redis True) mr_keys 60)\<^sup>*\<^sup>* (ws_init 2 (length (r_published (mr_keys (w_redis (sample_world []))))), w_redis (sample_world []))
     ((ws_init 2 0)\<lparr>ws_sub := sample_sub 2 None [], ws_frames := [JObj [(''event'', sample_event_json)]]\<rparr>, sample_published)"
proof -
  let ?s = "ws_step (mem_redis True) mr_keys 60" and ?k = "\<lambda>s. (ws_init 2 0)\<lparr>ws_sub := s\<rparr>"
  have 0: "length (r_published (mr_keys (w_redis (sample_world [])))) = 0" by (simp add: sample_world_def sample_keys_def)
  have 1: "?s (ws_init 2 0, w_redis (sample_world [])) (ws_init 2 0, sample_published)"
    by (rule ws_step.other_session[where ms = "r_published (mr_keys sample_published)"])
      (simp add: sample_published_def sample_world_def sample_keys_def)
  have sub: "?s (?k s, sample_published) (?k s', sample_published)"
    if "subscribe_step (r_published (mr_keys sample_published)) False s s'" for s s'
    using ws_step.subscription[of mr_keys sample_published "?k s" s' "mem_redis True" 60] that by (simp add: ws_init_def)
  have "?k (SubscribeNotify 2 0) = ws_init 2 0" by (simp add: ws_init_def)
  with sub[OF sample_sub_steps(1)] have 2: "?s (ws_init 2 0, sample_published) (?k (sample_sub 1 None []), sample_published)" by simp
  have 3: "?s (?k (sample_sub 2 None [RJson sample_event_json]), sample_published)
      ((ws_init 2 0)\<lparr>ws_sub := sample_sub 2 None [], ws_frames := [JObj [(''event'', sample_event_json)]]\<rparr>, sample_published)"
    using ws_step.write_frame[of "?k (sample_sub 2 None [RJson sample_event_json])" "RJson sample_event_json" "[]" "mem_redis True" mr_keys 60 sample_published]
    by (simp add: ws_init_def ws_frame_def sample_sub_def)
  show ?thesis unfolding 0
    using 1 2 sub[OF sample_sub_steps(2)] sub[OF sample_sub_steps(3)] 3 by (meson converse_rtranclp_into_rtranclp r_into_rtranclp)
qed

theorem ws_frames_are_own_messages_witness:
  "subseq [JObj [(''event'', sample_event_json)]]
    (map ws_frame (on_channel (notify_channel 2) (r_published (mr_keys sample_published))))"
  using ws_frames_are_own_messages[OF mred.redis_service_axioms sample_ws_run]
  by (simp add: sample_world_def sample_keys_def)

text \<open>The race that the heartbeat leaves open: a heartbeat begun before a disconnect can
  reach Redis after it, and then the user is marked online although the connection is closed, until
  the key expires.\<close>

lemma late_heartbeat_after_disconnect:
  "\<exists>k r. (ws_step (mem_redis False) mr_keys 60)\<^sup>*\<^sup>* (ws_init 1 0, w_redis (sample_world [])) (k, r) \<and>
     ws_closed k \<and> r_string (mr_keys r) (presence_key 1) = Some (RText ''online'', 60)"
proof -
  let ?s = "ws_step (mem_redis False) mr_keys 60" and ?r = "w_redis (sample_world [])"
  let ?k1 = "(ws_init 1 0)\<lparr>ws_done := True\<rparr>"
  let ?d = "ws_disconnect (mem_redis False) 60 ?k1 ?r"
  let ?e = "((fst ?d)\<lparr>ws_beat := Idle\<rparr>, snd (SetPresence (mem_redis False) 60 (ws_user (fst ?d)) True (snd ?d)))"
  have 1: "?s (ws_init 1 0, ?r) (?k1, ?r)" by (rule ws_step.client_gone)
  have 2: "?s (?k1, ?r) ?d" by (rule ws_step.done_seen) (simp_all add: ws_init_def)
  have 3: "?s ?d ?e"
    using ws_step.beat_end[of "fst ?d" "mem_redis False" mr_keys 60 "snd ?d"] by (simp add: ws_disconnect_def ws_init_def)
  have "?s\<^sup>*\<^sup>* (ws_init 1 0, ?r) ?e"
    by (rule converse_rtranclp_into_rtranclp, rule 1, rule converse_rtranclp_into_rtranclp, rule 2, rule r_into_rtranclp, rule 3)
  moreover have "ws_closed (fst ?e)" by (simp add: ws_disconnect_def)
  moreover have "r_string (mr_keys (snd ?e)) (presence_key 1) = Some (RText ''online'', 60)" by code_simp
  ultimately show ?thesis by (metis prod.collapse)
qed

section \<open>The heartbeat interval\<close>

text \<open>A third of the time to live: positive, and two beats may be missed before the key expires, as long as the
  configured number of seconds fits into a duration. Beyond that the duration wraps around, the
  interval is negative, and \<^verbatim>\<open>time.NewTicker\<close> panics.\<close>

lemma heartbeat_in_time:
  assumes "\<forall>n. Atoi (env ''PRESENCE_TTL_SECONDS'') = Some n \<longrightarrow> n \<le> 9223372036"
  shows "0 < presenceHeartbeatInterval (fst (PresenceTTL env None)) \<and>
    3 * presenceHeartbeatInterval (fst (PresenceTTL env None)) \<le> fst (PresenceTTL env None)"
proof -
  have ttl: "1000000000 \<le> fst (PresenceTTL env None)"
    using assms by (auto simp: PresenceTTL_def onceDuration_def Let_def i64_id in64_def split: option.splits)
  then have "0 < fst (PresenceTTL env None) div 3 \<and> 3 * (fst (PresenceTTL env None) div 3) \<le> fst (PresenceTTL env None)"
    by linarith
  then show ?thesis using ttl by (simp add: presenceHeartbeatInterval_def go_div_nonneg)
qed

lemma heartbeat_wraps_around:
  assumes "Atoi (env ''PRESENCE_TTL_SECONDS'') = Some 9223372037" and "env ''PRESENCE_TTL_SECONDS'' \<noteq> []"
  shows "presenceHeartbeatInterval (fst (PresenceTTL env None)) < 0"
  using assms by (simp add: PresenceTTL_def onceDuration_def presenceHeartbeatInterval_def i64_def go_div_def)

end
