(* ===== verification/Presence.thy ===== *)
theory Presence
  imports Notification_Props
begin

text \<open>
  Several WebSocket connections at once, as when a user has two browser tabs open: every connection
  runs its own goroutines (\<open>ws_step\<close>), and all of them share Redis, where there is one presence key per
  user.
\<close>

inductive conns_step ::
  "'r redis \<Rightarrow> ('r \<Rightarrow> keyspace) \<Rightarrow> int \<Rightarrow> ws_conn list \<times> 'r \<Rightarrow> ws_conn list \<times> 'r \<Rightarrow> bool"
  for R keys presenceTTL where
  conn_step: "i < length ks \<Longrightarrow> ws_step R keys presenceTTL (ks ! i, r) (k', r') \<Longrightarrow>
    conns_step R keys presenceTTL (ks, r) (ks[i := k'], r')"

inductive_cases conns_stepE: "conns_step R keys presenceTTL (ks, r) (ks', r')"

section \<open>Facts\<close>

lemma first_conn_steps:
  assumes "(ws_step R keys presenceTTL)\<^sup>*\<^sup>* (k, r) (k', r')"
  shows "(conns_step R keys presenceTTL)\<^sup>*\<^sup>* (k # ks, r) (k' # ks, r')"
  using assms
proof (induction rule: rtranclp_induct2)
  case (step k1 r1 k2 r2)
  from conn_step[of 0 "k1 # ks" R keys presenceTTL r1 k2 r2] step(2)
  have "conns_step R keys presenceTTL (k1 # ks, r1) (k2 # ks, r2)" by simp
  with step(3) show ?case by (rule rtranclp.rtrancl_into_rtrancl)
qed simp

lemma rest_conn_steps:
  assumes "(conns_step R keys presenceTTL)\<^sup>*\<^sup>* (ks, r) (ks', r')"
  shows "(conns_step R keys presenceTTL)\<^sup>*\<^sup>* (k # ks, r) (k # ks', r')"
  using assms
proof (induction rule: rtranclp_induct2)
  case (step ks1 r1 ks2 r2)
  from step(2) obtain i k' where "i < length ks1" "ws_step R keys presenceTTL (ks1 ! i, r1) (k', r2)" "ks2 = ks1[i := k']"
    by (auto elim: conns_stepE)
  then have "conns_step R keys presenceTTL (k # ks1, r1) (k # ks2, r2)"
    using conn_step[of "Suc i" "k # ks1" R keys presenceTTL r1 k' r2] by simp
  with step(3) show ?case by (rule rtranclp.rtrancl_into_rtrancl)
qed simp

text \<open>The users of the connections do not change, and no connection disappears.\<close>

lemma ws_step_user: "ws_step R keys presenceTTL (k, r) (k', r') \<Longrightarrow> ws_user k' = ws_user k"
  by (auto elim!: ws_stepE simp: ws_disconnect_def)

lemma conns_users:
  assumes "(conns_step R keys presenceTTL)\<^sup>*\<^sup>* (ks, r) (ks', r')"
  shows "map ws_user ks' = map ws_user ks"
  using assms
proof (induction rule: rtranclp_induct2)
  case (step ks1 r1 ks2 r2)
  then show ?case by (auto elim!: conns_stepE simp: map_update ws_step_user) (metis list_update_id nth_map)
qed simp

text \<open>A heartbeat that Redis answers puts the key back.\<close>

lemma heartbeat_restores:
  assumes "redis_service R keys" and "SetPresence R presenceTTL u True r = (None, r')"
  shows "r_string (keys r') (presence_key u) = Some (RText ''online'', presenceTTL)"
proof -
  obtain v where "rc_Do R (RSet (presence_key u) (RText ''online'') presenceTTL) r = (Inr v, r')"
    using assms(2) by (auto simp: SetPresence_def split: prod.splits sum.splits)
  from redis_service.do_ok[OF assms(1) this] show ?thesis by auto
qed

section \<open>Property\<close>

text \<open>With two connections of one user, closing one marks the user offline although the other is
  open, its first heartbeat done and its client still there; this lasts until the next heartbeat.\<close>

lemma closing_one_tab_shows_offline:
  "\<exists>k0 k1 r. (conns_step (mem_redis False) mr_keys 60)\<^sup>*\<^sup>* ([ws_init 1 0, ws_init 1 0], w_redis (sample_world [])) ([k0, k1], r) \<and>
     \<not> ws_closed k0 \<and> \<not> ws_done k0 \<and> ws_beat k0 = Idle \<and> ws_closed k1 \<and> r_string (mr_keys r) (presence_key 1) = None"
proof -
  let ?s = "ws_step (mem_redis False) mr_keys 60" and ?r = "w_redis (sample_world [])"
  define r1 where "r1 = snd (SetPresence (mem_redis False) 60 1 True ?r)"
  define r2 where "r2 = snd (SetPresence (mem_redis False) 60 1 True r1)"
  define r3 where "r3 = snd (SetPresence (mem_redis False) 60 1 False r2)"
  define k0 where "k0 = (ws_init 1 0)\<lparr>ws_beat := Idle\<rparr>"
  define k1 where "k1 = fst (ws_disconnect (mem_redis False) 60 (k0\<lparr>ws_done := True\<rparr>) r2)"
  have beat: "?s (ws_init 1 0, r) (k0, snd (SetPresence (mem_redis False) 60 1 True r))" for r
    using ws_step.beat_end[of "ws_init 1 0" "mem_redis False" mr_keys 60 r] by (simp add: ws_init_def k0_def)
  have "?s (k0, r2) (k0\<lparr>ws_done := True\<rparr>, r2)" by (rule ws_step.client_gone)
  moreover have "?s (k0\<lparr>ws_done := True\<rparr>, r2) (k1, r3)"
    using ws_step.done_seen[of "k0\<lparr>ws_done := True\<rparr>" "mem_redis False" mr_keys 60 r2]
    by (simp add: k0_def ws_init_def k1_def r3_def ws_disconnect_def)
  ultimately have gone: "?s\<^sup>*\<^sup>* (ws_init 1 0, r1) (k1, r3)"
    using beat[of r1] by (metis (no_types) r2_def converse_rtranclp_into_rtranclp rtranclp.rtrancl_refl)
  have "(conns_step (mem_redis False) mr_keys 60)\<^sup>*\<^sup>* ([ws_init 1 0, ws_init 1 0], ?r) ([k0, ws_init 1 0], r1)"
    using beat[of ?r] by (intro first_conn_steps) (auto simp: r1_def)
  also have "(conns_step (mem_redis False) mr_keys 60)\<^sup>*\<^sup>* ([k0, ws_init 1 0], r1) ([k0, k1], r3)"
    by (intro rest_conn_steps first_conn_steps gone)
  finally have "(conns_step (mem_redis False) mr_keys 60)\<^sup>*\<^sup>* ([ws_init 1 0, ws_init 1 0], ?r) ([k0, k1], r3)" .
  moreover have "r_string (mr_keys r3) (presence_key 1) = None"
    unfolding r3_def r2_def r1_def by code_simp
  ultimately show ?thesis
    by (intro exI[of _ k0] exI[of _ k1] exI[of _ r3]) (simp add: k0_def k1_def ws_init_def ws_disconnect_def)
qed

end
