(* ===== verification/Bank_Ledger.thy ===== *)
theory Bank_Ledger
  imports Transfer_Props Auth_Props
begin

text \<open>
  The bank as an abstract state machine over the tables: an account is opened, money is moved, a
  notification is marked as read, and nothing else happens. \<open>bank_inv\<close> is what these events keep
  true of tables that started empty: the schema's constraints, and books that balance. That the
  requests of the running system are such events is shown in \<open>Bank_System\<close>.
\<close>

section \<open>Events\<close>

datatype bank_label =
    Opened int
  | Moved int int int
  | MarkedRead int int

definition mark_read :: "int \<Rightarrow> int \<Rightarrow> notification \<Rightarrow> notification" where
  "mark_read i uid x = (if n_id x = i \<and> n_user_id x = uid then x\<lparr>n_is_read := True\<rparr> else x)"

inductive bank_event :: "bank_label \<Rightarrow> db \<Rightarrow> db \<Rightarrow> bool" where
  opened: "user_added phone acct username hash i d d' \<Longrightarrow> bank_event (Opened i) d d'"
| moved: "transfer_spec sid p d res d' \<Longrightarrow> 0 < tp_amount p \<Longrightarrow> in64 (tp_amount p) \<Longrightarrow>
    bank_event (Moved sid (tr_receiverID res) (tp_amount p)) d d'"
| marked_read: "bank_event (MarkedRead i uid) d (d\<lparr>notifications := map (mark_read i uid) (notifications d)\<rparr>)"

definition bank_step :: "db \<Rightarrow> db \<Rightarrow> bool" where
  "bank_step d d' \<longleftrightarrow> (\<exists>l. bank_event l d d')"

inductive_cases bank_event_OpenedE: "bank_event (Opened i) d d'"

inductive_cases bank_event_MovedE: "bank_event (Moved s r a) d d'"

inductive_cases bank_event_MarkedReadE: "bank_event (MarkedRead i uid) d d'"

section \<open>The books\<close>

definition empty_db :: db where
  "empty_db = \<lparr>users = [], transfers = [], notifications = []\<rparr>"

definition sent_by :: "int \<Rightarrow> transfer list \<Rightarrow> int" where
  "sent_by i ts = sum_list (map t_amount (filter (\<lambda>t. t_from_user t = i) ts))"

definition received_by :: "int \<Rightarrow> transfer list \<Rightarrow> int" where
  "received_by i ts = sum_list (map t_amount (filter (\<lambda>t. t_to_user t = i) ts))"

text \<open>Every balance is the opening balance plus what the account received minus what it sent.\<close>

definition reconciled :: "db \<Rightarrow> bool" where
  "reconciled d \<longleftrightarrow>
     list_all (\<lambda>u. u_balance u = 100000 + received_by (u_id u) (transfers d) - sent_by (u_id u) (transfers d)) (users d)"

definition bank_inv :: "db \<Rightarrow> bool" where
  "bank_inv d \<longleftrightarrow> db_wf d \<and> reconciled d \<and> list_all (\<lambda>t. t_from_user t \<noteq> t_to_user t) (transfers d) \<and>
     sum_list (map u_balance (users d)) = 100000 * int (length (users d)) \<and>
     length (notifications d) = 2 * length (transfers d)"

lemma bank_inv_empty: "bank_inv empty_db"
  by code_simp

lemma sent_by_simps [simp]:
  "sent_by i [] = 0" "sent_by i (ts @ [t]) = sent_by i ts + (if t_from_user t = i then t_amount t else 0)"
  by (simp_all add: sent_by_def)

lemma received_by_simps [simp]:
  "received_by i [] = 0" "received_by i (ts @ [t]) = received_by i ts + (if t_to_user t = i then t_amount t else 0)"
  by (simp_all add: received_by_def)

lemma nothing_moved:
  assumes "db_wf d" and "i \<notin> user_ids d"
  shows "sent_by i (transfers d) = 0" "received_by i (transfers d) = 0"
proof -
  have "filter (\<lambda>t. t_from_user t = i) (transfers d) = []" "filter (\<lambda>t. t_to_user t = i) (transfers d) = []"
    using assms by (auto simp: db_wf_def list_all_iff filter_empty_conv)
  then show "sent_by i (transfers d) = 0" "received_by i (transfers d) = 0"
    by (simp_all add: sent_by_def received_by_def)
qed

lemma mark_read_fields [simp]:
  "n_id (mark_read i uid x) = n_id x" "n_user_id (mark_read i uid x) = n_user_id x"
  "n_message (mark_read i uid x) = n_message x" "n_created_at (mark_read i uid x) = n_created_at x"
  by (simp_all add: mark_read_def)

section \<open>The events keep the books\<close>

lemma opened_inv:
  assumes "user_added phone acct username hash i d d'" and "bank_inv d"
  shows "bank_inv d'"
proof -
  have d': "d' = d\<lparr>users := users d @ [new_user i phone acct username hash]\<rparr>"
    using assms(1) by (simp add: user_added_def)
  moreover have "reconciled d'"
    using assms nothing_moved[of d i] user_added_new(1)[OF assms(1)]
    by (auto simp: bank_inv_def reconciled_def d' new_user_def)
  ultimately show ?thesis
    using assms user_added_wf[OF assms(1)] by (auto simp: bank_inv_def new_user_def)
qed

lemma moved_reconciled:
  assumes "transfer_spec sid p d res d'" and "reconciled d"
  shows "reconciled d'"
  using assms by (elim transfer_specE) (auto simp: reconciled_def move_money_def list_all_iff)

lemma moved_inv:
  assumes "transfer_spec sid p d res d'" and "0 < tp_amount p" and "in64 (tp_amount p)" and "bank_inv d"
  shows "bank_inv d'"
proof -
  have "length (users d') = length (users d)" "length (notifications d') = 2 + length (notifications d)"
    "length (transfers d') = 1 + length (transfers d)"
    "list_all (\<lambda>t. t_from_user t \<noteq> t_to_user t) (transfers d) \<Longrightarrow> list_all (\<lambda>t. t_from_user t \<noteq> t_to_user t) (transfers d')"
    using assms(1) by (auto elim!: transfer_specE simp: move_money_def)
  with assms transfer_spec_wf[OF assms(1)] transfer_spec_total[OF assms(1)] moved_reconciled[OF assms(1)] show ?thesis
    by (simp add: bank_inv_def)
qed

lemma marked_read_wf:
  assumes "db_wf d"
  shows "db_wf (d\<lparr>notifications := map (mark_read i uid) (notifications d)\<rparr>)"
  using sql_sem_wf[of "\<lambda>_ _. False" "AckNotification i uid" d "[]"] assms by (simp add: mark_read_def[abs_def])

lemma marked_read_inv: "bank_inv d \<Longrightarrow> bank_inv (d\<lparr>notifications := map (mark_read i uid) (notifications d)\<rparr>)"
  using marked_read_wf[of d i uid] by (simp add: bank_inv_def reconciled_def)

lemma bank_event_wf: "bank_event l d d' \<Longrightarrow> db_wf d \<Longrightarrow> db_wf d'"
  by (induction rule: bank_event.induct) (auto intro: user_added_wf transfer_spec_wf marked_read_wf)

lemma bank_event_inv: "bank_event l d d' \<Longrightarrow> bank_inv d \<Longrightarrow> bank_inv d'"
  by (induction rule: bank_event.induct) (auto intro: opened_inv moved_inv marked_read_inv)

lemma bank_steps_inv: "bank_step\<^sup>*\<^sup>* d d' \<Longrightarrow> bank_inv d \<Longrightarrow> bank_inv d'"
  by (induction rule: rtranclp_induct) (auto simp: bank_step_def dest: bank_event_inv)

lemma bank_steps_wf: "bank_step\<^sup>*\<^sup>* d d' \<Longrightarrow> db_wf d \<Longrightarrow> db_wf d'"
  by (induction rule: rtranclp_induct) (auto simp: bank_step_def dest: bank_event_wf)

text \<open>Accounts stay and transfers are never changed or removed: both tables only grow at their end.\<close>

definition history_kept :: "db \<Rightarrow> db \<Rightarrow> bool" where
  "history_kept d d' \<longleftrightarrow>
     (\<exists>us. map u_id (users d') = map u_id (users d) @ us) \<and> (\<exists>ts. transfers d' = transfers d @ ts)"

lemma history_kept_trans: "history_kept d d1 \<Longrightarrow> history_kept d1 d2 \<Longrightarrow> history_kept d d2"
  by (fastforce simp: history_kept_def)

lemma bank_event_history: "bank_event l d d' \<Longrightarrow> history_kept d d'"
  by (induction rule: bank_event.induct) (auto simp: history_kept_def user_added_def elim!: transfer_specE)

lemma bank_steps_history: "bank_step\<^sup>*\<^sup>* d d' \<Longrightarrow> history_kept d d'"
proof (induction rule: rtranclp_induct)
  case base
  show ?case by (simp add: history_kept_def)
next
  case (step d1 d2)
  then show ?case unfolding bank_step_def using bank_event_history history_kept_trans by blast
qed

text \<open>The only event that lowers a balance is a transfer out of that account.\<close>

lemma bank_event_debit:
  assumes "bank_event l d d'" and "db_wf d" and "u \<in> set (users d)" and "u' \<in> set (users d')" and "u_id u' = u_id u"
    and "u_balance u' < u_balance u"
  shows "\<exists>rid amt. l = Moved (u_id u) rid amt"
  using assms(1)
proof (cases rule: bank_event.cases)
  case (opened phone acct username hash i)
  then have "u' \<in> set (users d) \<or> u_id u' \<notin> user_ids d"
    using assms(4) user_added_new(1)[of phone acct username hash i d d'] by (auto simp: user_added_def new_user_def)
  with assms show ?thesis using unique_user[of d u' u] user_in_ids[of u d] by auto
next
  case (moved sid p res)
  from moved(2) obtain rid where "users d' = move_money sid rid (tp_amount p) (users d)" by (auto elim!: transfer_specE)
  with assms(4) have "u' \<in> set (move_money sid rid (tp_amount p) (users d))" by simp
  then obtain v where v: "v \<in> set (users d)"
    "u' = (if u_id v = sid then v\<lparr>u_balance := u_balance v - tp_amount p\<rparr>
           else if u_id v = rid then v\<lparr>u_balance := u_balance v + tp_amount p\<rparr> else v)"
    unfolding move_money_def set_map by (rule imageE)
  then have "v = u" using assms(2,3,5) unique_user[of d v u] by (auto split: if_splits)
  with v(2) assms(6) moved show ?thesis by (auto split: if_splits)
next
  case (marked_read i uid)
  with assms unique_user[of d u' u] show ?thesis by auto
qed

end
