(* ===== verification/Account_Reads.thy ===== *)
theory Account_Reads
  imports Account_Props
begin

text \<open>
  The remaining reading actions of the account service: the notification listing, the profile, the
  user detail and the statistics. None of them changes the tables.
\<close>

lemma admin_notifications_page:
  assumes "shared_postgres B tables ilike act others" and "stable_wf others" and "db_wf (tables (w_db w))"
    and "handleAdminNotifications (busy act B) ctx action raw headers w = (reply 200 body, w')"
  shows "\<exists>d. others\<^sup>*\<^sup>* (tables (w_db w)) d \<and> others\<^sup>*\<^sup>* d (tables (w_db w')) \<and>
    body = paged ''notifications'' (map NotificationToMap (newest_page n_id (paginate raw) (notifications d)))
      (int (length (notifications (tables (w_db w'))))) (fst (paginate raw)) (snd (paginate raw))"
proof -
  note pg = shared_postgres.axioms(1)[OF assms(1)] and act = shared_postgres.others_act[OF assms(1)]
  obtain page s where p: "paginate raw = (page, s)" by fastforce
  let ?st = "SelectNotifications None IdDesc (Some (s, i64 (i64 (page - 1) * s)))" and ?d = "tables (act (w_db w))"
  obtain q c1 where q: "bob_All B ?st (act (w_db w)) = (q, c1)" by fastforce
  from assms(4) p q obtain ns c2 n where o: "scan_all_notifications q = Inr ns"
    "apfst scan_int (bob_One B CountNotifications (act c1)) = (Inr n, c2)"
    "body = paged ''notifications'' (map NotificationToMap ns) n page s" "w' = w\<lparr>w_db := c2\<rparr>"
    by (auto simp: handleAdminNotifications_def split: prod.splits sum.splits)
  obtain rows where rows: "q = Inr rows" "scan_notifications rows = Some ns"
    using o(1) by (auto simp: scan_all_notifications_def split: sum.splits option.splits)
  from postgres.all_rows[OF pg q[unfolded rows(1)]] obtain vs where
    v: "tables c1 = ?d" "rows = map NotificationRow vs"
    "selection (order_rel IdDesc n_id n_created_at) (notifications ?d) (Some (s, i64 (i64 (page - 1) * s))) vs"
    by auto
  have "distinct (map n_id (notifications ?d))" using stable_wfD[OF act assms(2,3)] by (simp add: db_wf_def)
  from newest_page_selection[OF p v(3) this] have "ns = newest_page n_id (paginate raw) (notifications ?d)"
    using rows(2) v(2) by simp
  moreover have "n = int (length (notifications (tables (act c1)))) \<and> tables c2 = tables (act c1)"
    using postgres.count_rows[OF pg o(2)] by auto
  ultimately show ?thesis using o(3,4) p act[of "w_db w"] act[of c1] v(1) by (intro exI[of _ ?d]) simp
qed

lemma me_reply:
  assumes "postgres B tables ilike" and "handleMe B ctx action raw headers w = (reply s body, w')"
  shows "tables (w_db w') = tables (w_db w) \<and>
    (s = 200 \<and> (\<exists>u \<in> set (users (tables (w_db w))). u_id u = fst (UserIDFromContext ctx) \<and> body = userToAdminView u) \<or>
     s = 404 \<and> (\<forall>u \<in> set (users (tables (w_db w))). u_id u \<noteq> fst (UserIDFromContext ctx)))"
proof -
  let ?uid = "fst (UserIDFromContext ctx)"
  obtain q c' where q: "QueryUser B ColId (ArgInt ?uid) (w_db w) = (q, c')" by fastforce
  note t = postgres.QueryUser_tables[OF assms(1) q]
  show ?thesis
  proof (cases q)
    case (Inl e)
    with assms(2) q have e: "IsNotFound (Some e)" "s = 404" "w' = w\<lparr>w_db := c'\<rparr>"
      by (auto simp: handleMe_def Let_def split: if_splits)
    with postgres.QueryUser_absent[OF assms(1) q[unfolded Inl]] t show ?thesis by simp
  next
    case (Inr u)
    with postgres.QueryUser_row[OF assms(1), of ColId "ArgInt ?uid" "w_db w" u c'] q assms(2) t show ?thesis
      by (auto simp: handleMe_def Let_def)
  qed
qed

text \<open>A numeric id as \<^verbatim>\<open>fmt.Sscan\<close> reads it selects exactly that user.\<close>

lemma user_detail_reply:
  assumes "postgres B tables ilike" and "handleAdminUserDetail B ctx action raw headers w = (reply s body, w')"
    and "unmarshal_smap raw = Some m" and "Sscan_int (TrimSpace (smap_get m ''user_id'')) = Some i" and "0 < i"
    and "TrimSpace (smap_get m ''user_id'') \<noteq> []"
  shows "tables (w_db w') = tables (w_db w) \<and>
    (s = 200 \<and> (\<exists>u \<in> set (users (tables (w_db w))). u_id u = i \<and> body = userToAdminView u) \<or>
     s = 404 \<and> (\<forall>u \<in> set (users (tables (w_db w))). u_id u \<noteq> i))"
proof -
  obtain q c' where q: "QueryUser B ColId (ArgInt i) (w_db w) = (q, c')" by fastforce
  note q' = q[unfolded QueryUser_def] and t = postgres.QueryUser_tables[OF assms(1) q]
  show ?thesis
  proof (cases q)
    case (Inl e)
    with assms(2-6) q' have e: "IsNotFound (Some e)" "s = 404" "w' = w\<lparr>w_db := c'\<rparr>"
      by (auto simp: handleAdminUserDetail_def Let_def split: if_splits)
    with postgres.QueryUser_absent[OF assms(1) q[unfolded Inl]] t show ?thesis by simp
  next
    case (Inr u)
    with postgres.QueryUser_row[OF assms(1), of ColId "ArgInt i" "w_db w" u c'] q q' assms(2-6) t show ?thesis
      by (auto simp: handleAdminUserDetail_def Let_def)
  qed
qed

text \<open>Each aggregate of the statistics is that of the tables at its own statement.\<close>

lemma stats_tx_reads:
  assumes "shared_postgres B tables ilike act others" and "stats_tx (busy act B) x c = (None, ((n, b), (k, v), m), c')"
  shows "\<exists>d1 d2. others\<^sup>*\<^sup>* (tables c) d1 \<and> others\<^sup>*\<^sup>* d1 d2 \<and> others\<^sup>*\<^sup>* d2 (tables c') \<and>
    n = int (length (users d1)) \<and> b = sum_list (map u_balance (users d1)) \<and>
    k = int (length (transfers d2)) \<and> v = sum_list (map t_amount (transfers d2)) \<and>
    m = int (length (notifications (tables c')))"
proof -
  note pg = shared_postgres.axioms(1)[OF assms(1)] and act = shared_postgres.others_act[OF assms(1)]
  obtain c1 c2 r1 r2 r3 where o: "bob_One B UserStats (act c) = (Inr r1, c1)" "scan_stats (Inr r1) = Inr (n, b)"
    "bob_One B TransferStats (act c1) = (Inr r2, c2)" "scan_stats (Inr r2) = Inr (k, v)"
    "bob_One B CountNotifications (act c2) = (Inr r3, c')" "scan_int (Inr r3) = Inr m"
    using assms(2) by (auto simp: stats_tx_def apfst_def map_prod_def split: prod.splits sum.splits elim!: scan_stats.elims scan_int.elims)
  let ?d1 = "tables (act c)" and ?d2 = "tables (act c1)" and ?d3 = "tables (act c2)"
  have "r1 = StatsRow (int (length (users ?d1))) (sum_list (map u_balance (users ?d1)))" "tables c1 = ?d1"
    using postgres.one_row[OF pg o(1)] by auto
  moreover have "r2 = StatsRow (int (length (transfers ?d2))) (sum_list (map t_amount (transfers ?d2)))" "tables c2 = ?d2"
    using postgres.one_row[OF pg o(3)] by auto
  moreover have "r3 = IntRow (int (length (notifications ?d3)))" "tables c' = ?d3"
    using postgres.one_row[OF pg o(5)] by auto
  ultimately show ?thesis
    using o(2,4,6) act[of c] act[of c1] act[of c2] by (intro exI[of _ ?d1] exI[of _ ?d2]) auto
qed

lemma stats_tx_reading:
  assumes "shared_postgres B tables ilike act others"
  shows "reading_tx tables others (stats_tx (busy act B))"
  unfolding reading_tx_def
proof (intro allI impI)
  fix x c r x' c'
  assume "stats_tx (busy act B) x c = (r, x', c')"
  note reads = shared_postgres.shared_One_apfst[OF assms, rotated]
  with \<open>stats_tx (busy act B) x c = (r, x', c')\<close> show "others\<^sup>*\<^sup>* (tables c) (tables c')"
    unfolding stats_tx_def
    by (auto simp del: busy_simps split: prod.splits sum.splits dest!: reads intro: rtranclp_trans)
qed

end
