(* ===== verification/Service_Runtime.thy ===== *)
theory Service_Runtime
  imports Rpc_Consumer
begin

text \<open>
  The scaffolding of \<^verbatim>\<open>internal/service/service.go\<close> and \<^verbatim>\<open>internal/health/health.go\<close>: opening and
  closing the shared clients, health checks, and the life cycle of a service process.

  \<^verbatim>\<open>Runner.Run\<close> starts three goroutines in an error group: the consumer, the HTTP server and the
  signal handler. The group's context is cancelled when a goroutine first returns an error; \<^verbatim>\<open>Wait\<close>
  returns that error when all have returned. Every interleaving of the goroutines is a path of
  \<open>run_step\<close>; that a signal comes in is not a step of theirs, but of the environment (\<open>signal_arrives\<close>).
  The life cycle of \<^verbatim>\<open>producer/main.go\<close> has the same three goroutines, but its signal handler
  returns nil, and its first goroutine only waits for the context; \<open>sig_ret\<close> is what the signal
  handler returns, \<open>may_fail\<close> whether the first goroutine may return on its own.
\<close>

section \<open>Clients\<close>

record redis_options =
  ro_Addr :: string
  ro_ClientName :: string
  ro_ConnMaxLifetime :: int
  ro_ConnMaxLifetimeJitter :: int
  ro_DialerRetryBackoff :: "(int \<times> int) option"

text \<open>The dial back-off: none, or exponential between a first delay and a cap. Wrapping the client with
  the Instana tracing hook does not change what it does and is left out.\<close>

text \<open>The part of a \<^verbatim>\<open>host:port\<close> address before the first colon (\<^verbatim>\<open>strings.Cut\<close>).\<close>

definition host_of :: "string \<Rightarrow> string" where
  "host_of addr = takeWhile (\<lambda>c. c \<noteq> CHR '':'') addr"

definition NewClient ::
  "(string \<Rightarrow> goerr + redis_options) \<Rightarrow> (redis_options \<Rightarrow> 'rc) \<Rightarrow> string \<Rightarrow> goerr + 'rc" where
  "NewClient ParseURL goredis_NewClient url =
     (case ParseURL url of
        Inl e \<Rightarrow> Inl (Wrapf ''parse redis url'' e)
      | Inr opts0 \<Rightarrow>
          (let opts1 = opts0\<lparr>ro_ConnMaxLifetime := 30 * 60 * 1000000000,
                             ro_ConnMaxLifetimeJitter := 30 * 1000000000,
                             ro_DialerRetryBackoff := Some (100 * 1000000, 5 * 1000000000)\<rparr>;
               opts2 = (if ro_ClientName opts1 = [] then opts1\<lparr>ro_ClientName := host_of (ro_Addr opts1)\<rparr> else opts1)
           in Inr (goredis_NewClient opts2)))"

datatype resource = Pool | RedisClient

text \<open>The result of opening the dependencies, the resources closed on the way, and what the returned
  cleanup function closes, in order.\<close>

definition InitDeps :: "(goerr + 'p) \<Rightarrow> (goerr + 'rc) \<Rightarrow> (goerr + 'p \<times> 'rc) \<times> resource list \<times> resource list" where
  "InitDeps pool redisClient =
     (case pool of
        Inl e \<Rightarrow> (Inl e, [], [])
      | Inr p \<Rightarrow>
          (case redisClient of
             Inl e \<Rightarrow> (Inl e, [Pool], [])
           | Inr rc \<Rightarrow> (Inr (p, rc), [], [RedisClient, Pool])))"

section \<open>Health\<close>

definition statusStr :: "bool \<Rightarrow> string" where
  "statusStr ok = (if ok then ''ok'' else ''error'')"

definition checkHealth :: "('c \<Rightarrow> goerr option) \<Rightarrow> ('r \<Rightarrow> goerr option) \<Rightarrow> 'c \<Rightarrow> 'r \<Rightarrow> bool \<times> bool" where
  "checkHealth pingDB pingRedis c r = (pingDB c = None, pingRedis r = None)"

definition health_body :: "string \<Rightarrow> bool \<Rightarrow> bool \<Rightarrow> json" where
  "health_body serviceName dbOK redisOK =
     JObj [(''status'', JStr (if dbOK \<and> redisOK then ''healthy'' else ''unhealthy'')), (''service'', JStr serviceName),
           (''database'', JStr (statusStr dbOK)), (''redis'', JStr (statusStr redisOK))]"

definition HTTPHandler ::
  "string \<Rightarrow> ('c \<Rightarrow> goerr option) \<Rightarrow> ('r \<Rightarrow> goerr option) \<Rightarrow> ('c, 'r, 'j) world \<Rightarrow> int \<times> json" where
  "HTTPHandler serviceName pingDB pingRedis w =
     (case checkHealth pingDB pingRedis (w_db w) (w_redis w) of (dbOK, redisOK) \<Rightarrow>
        (if dbOK \<and> redisOK then 200 else 503, health_body serviceName dbOK redisOK))"

definition NATSHandler ::
  "string \<Rightarrow> ('c \<Rightarrow> goerr option) \<Rightarrow> ('r \<Rightarrow> goerr option) \<Rightarrow> ('c, 'r, 'j) handler" where
  "NATSHandler serviceName pingDB pingRedis ctx action raw headers w =
     (case checkHealth pingDB pingRedis (w_db w) (w_redis w) of (dbOK, redisOK) \<Rightarrow>
        (if dbOK \<and> redisOK then reply 200 (health_body serviceName dbOK redisOK)
         else reply 503 (health_body serviceName dbOK redisOK), w))"

section \<open>The life cycle of a process\<close>

datatype group_err = ErrShutdown | ServerErr goerr

datatype sig_phase = Waiting | Draining | SigDone

record group =
  g_cancelled :: bool
  g_err :: "group_err option"
  g_consumer :: bool
  g_server :: bool
  g_failed :: "goerr option"
  g_signalled :: bool
  g_sig :: sig_phase

text \<open>The group's fields: its context is cancelled, the first error, whether the consumer and the server
  goroutine still run, the error the server ended with, whether a signal has come in, and how far the
  signal goroutine is. The group's context derives from \<^verbatim>\<open>context.Background()\<close> in every \<^verbatim>\<open>main\<close>, so
  only the group itself cancels it.\<close>

definition run_init :: group where
  "run_init = \<lparr>g_cancelled = False, g_err = None, g_consumer = True, g_server = True, g_failed = None,
     g_signalled = False, g_sig = Waiting\<rparr>"

text \<open>A goroutine returns \<open>err\<close> to the group.\<close>

definition group_return :: "group_err option \<Rightarrow> group \<Rightarrow> group" where
  "group_return err g =
     (case err of
        None \<Rightarrow> g
      | Some e \<Rightarrow> g\<lparr>g_cancelled := True, g_err := (case g_err g of None \<Rightarrow> Some e | Some e' \<Rightarrow> Some e')\<rparr>)"

text \<open>The steps of the goroutines. The signal goroutine leaves its \<^verbatim>\<open>select\<close> when a signal has come in or
  when the context is done, and not before.\<close>

inductive run_step :: "bool \<Rightarrow> group_err option \<Rightarrow> group \<Rightarrow> group \<Rightarrow> bool" for may_fail sig_ret where
  consumer_stops: "g_consumer g \<Longrightarrow> g_cancelled g \<Longrightarrow> run_step may_fail sig_ret g (g\<lparr>g_consumer := False\<rparr>)"
| consumer_gives_up: "may_fail \<Longrightarrow> g_consumer g \<Longrightarrow> run_step may_fail sig_ret g (g\<lparr>g_consumer := False\<rparr>)"
| server_fails: "g_server g \<Longrightarrow>
    run_step may_fail sig_ret g (group_return (Some (ServerErr e)) (g\<lparr>g_server := False, g_failed := Some e\<rparr>))"
| server_closed: "g_server g \<Longrightarrow> g_sig g \<noteq> Waiting \<Longrightarrow> run_step may_fail sig_ret g (g\<lparr>g_server := False\<rparr>)"
| signal_seen: "g_sig g = Waiting \<Longrightarrow> g_signalled g \<Longrightarrow> run_step may_fail sig_ret g (g\<lparr>g_sig := Draining\<rparr>)"
| ctx_done_seen: "g_sig g = Waiting \<Longrightarrow> g_cancelled g \<Longrightarrow> run_step may_fail sig_ret g (g\<lparr>g_sig := Draining\<rparr>)"
| drained: "g_sig g = Draining \<Longrightarrow> run_step may_fail sig_ret g (group_return sig_ret (g\<lparr>g_sig := SigDone\<rparr>))"

text \<open>The operating system's part: SIGINT or SIGTERM comes in. No goroutine can bring this about.\<close>

definition signal_arrives :: "group \<Rightarrow> group \<Rightarrow> bool" where
  "signal_arrives g g' \<longleftrightarrow> \<not> g_signalled g \<and> g' = g\<lparr>g_signalled := True\<rparr>"

text \<open>\<^verbatim>\<open>Runner.Run\<close>: the consumer returns early when it cannot connect or register its service. In
  \<open>runner_run\<close> signals may come in at any time.\<close>

definition runner_step :: "group \<Rightarrow> group \<Rightarrow> bool" where
  "runner_step = run_step True (Some ErrShutdown)"

definition runner_run :: "group \<Rightarrow> group \<Rightarrow> bool" where
  "runner_run g g' \<longleftrightarrow> runner_step g g' \<or> signal_arrives g g'"

definition all_returned :: "group \<Rightarrow> bool" where
  "all_returned g \<longleftrightarrow> \<not> g_consumer g \<and> \<not> g_server g \<and> g_sig g = SigDone"

text \<open>What \<^verbatim>\<open>Runner.Run\<close> returns once all goroutines have returned.\<close>

definition run_result :: "group \<Rightarrow> group_err option" where
  "run_result g = (case g_err g of Some (ServerErr e) \<Rightarrow> Some (ServerErr e) | _ \<Rightarrow> None)"

fun phase_size :: "sig_phase \<Rightarrow> nat" where
  "phase_size Waiting = 2" | "phase_size Draining = 1" | "phase_size SigDone = 0"

definition run_size :: "group \<Rightarrow> nat" where
  "run_size g = (if g_consumer g then 1 else 0) + (if g_server g then 1 else 0) + (if g_signalled g then 0 else 1) +
     phase_size (g_sig g)"

section \<open>Facts\<close>

lemma group_return_fields [simp]:
  "g_consumer (group_return e g) = g_consumer g" "g_server (group_return e g) = g_server g" "g_sig (group_return e g) = g_sig g"
  "g_failed (group_return e g) = g_failed g" "g_signalled (group_return e g) = g_signalled g"
  by (simp_all add: group_return_def split: option.splits)

lemma run_step_size: "run_step may_fail sig_ret g g' \<Longrightarrow> run_size g' < run_size g"
  by (induction rule: run_step.induct) (auto simp: run_size_def)

lemma runner_run_size: "runner_run g g' \<Longrightarrow> run_size g' < run_size g"
  by (auto simp: runner_run_def runner_step_def signal_arrives_def dest: run_step_size) (simp add: run_size_def)

text \<open>What holds in every state: the context is cancelled by the first error and nothing else; the signal
  goroutine has left its \<^verbatim>\<open>select\<close> and the server has ended for a reason; a server error was returned by
  the server, and it is the first error unless the signal goroutine returned before.\<close>

definition run_inv :: "group \<Rightarrow> bool" where
  "run_inv g \<longleftrightarrow> (g_cancelled g \<longleftrightarrow> g_err g \<noteq> None) \<and> (g_sig g = SigDone \<longrightarrow> g_cancelled g) \<and>
     (g_sig g \<noteq> Waiting \<longrightarrow> g_signalled g \<or> g_cancelled g) \<and> (g_server g \<or> g_cancelled g \<or> g_sig g \<noteq> Waiting)"

definition failure_inv :: "group \<Rightarrow> bool" where
  "failure_inv g \<longleftrightarrow>
     (case g_failed g of
        None \<Rightarrow> g_err g \<in> {None, Some ErrShutdown}
      | Some e \<Rightarrow> \<not> g_server g \<and> (g_err g = Some (ServerErr e) \<or> g_sig g = SigDone \<and> g_err g = Some ErrShutdown)) \<and>
     (g_sig g \<noteq> SigDone \<longrightarrow> g_err g \<noteq> Some ErrShutdown)"

lemma runner_step_inv: "runner_step g g' \<Longrightarrow> run_inv g \<Longrightarrow> run_inv g'"
  unfolding runner_step_def
  by (induction rule: run_step.induct) (simp_all add: run_inv_def group_return_def split: option.splits, blast+)

lemma runner_step_failure_inv: "runner_step g g' \<Longrightarrow> run_inv g \<Longrightarrow> failure_inv g \<Longrightarrow> failure_inv g'"
  unfolding runner_step_def
proof (induction rule: run_step.induct)
  case (server_fails g e)
  then show ?case by (cases "g_failed g"; cases "g_sig g") (auto simp: failure_inv_def run_inv_def group_return_def)
next
  case (drained g)
  then show ?case by (cases "g_failed g"; cases "g_err g") (auto simp: failure_inv_def group_return_def)
qed (auto simp: failure_inv_def split: option.splits)

lemma runner_run_inv:
  assumes "runner_run g g'" and "run_inv g \<and> failure_inv g"
  shows "run_inv g' \<and> failure_inv g'"
  using assms(1) unfolding runner_run_def
proof
  assume "runner_step g g'"
  then show ?thesis using assms(2) runner_step_inv runner_step_failure_inv by blast
next
  assume "signal_arrives g g'"
  then have "g' = g\<lparr>g_signalled := True\<rparr>" by (simp add: signal_arrives_def)
  with assms(2) show ?thesis by (cases "g_failed g") (simp_all add: run_inv_def failure_inv_def, blast+)
qed

lemma runner_reachable_inv: "runner_run\<^sup>*\<^sup>* run_init g \<Longrightarrow> run_inv g \<and> failure_inv g"
proof (induction rule: rtranclp_induct)
  case base
  show ?case by (simp add: run_init_def run_inv_def failure_inv_def)
qed (rule runner_run_inv)

text \<open>The process is to stop: a signal has come in, or the group's context is cancelled.\<close>

definition stopping :: "group \<Rightarrow> bool" where
  "stopping g \<longleftrightarrow> g_signalled g \<or> g_cancelled g"

text \<open>Until then the server serves, and the signal goroutine waits.\<close>

lemma runner_serves_until_stopped:
  "runner_run\<^sup>*\<^sup>* run_init g \<Longrightarrow> \<not> stopping g \<Longrightarrow> g_server g \<and> g_sig g = Waiting \<and> g_err g = None"
  using runner_reachable_inv[of g] by (auto simp: run_inv_def stopping_def)

lemma runner_step_keeps:
  assumes "runner_step g g'"
  shows "stopping g \<Longrightarrow> stopping g'" and "g_err g = Some e \<Longrightarrow> g_err g' = Some e"
  using assms unfolding runner_step_def
  by (induction rule: run_step.induct) (auto simp: stopping_def group_return_def)

lemma runner_run_keeps:
  assumes "runner_run\<^sup>*\<^sup>* g g'"
  shows "stopping g \<Longrightarrow> stopping g'" and "g_err g = Some e \<Longrightarrow> g_err g' = Some e"
  using assms
  by (induction rule: rtranclp_induct) (auto simp: runner_run_def signal_arrives_def stopping_def dest: runner_step_keeps)

lemma runner_progress:
  assumes "run_inv g" and "stopping g" and "\<not> all_returned g"
  shows "\<exists>g'. runner_step g g'"
  unfolding runner_step_def
proof (cases "g_sig g")
  case Waiting
  with assms(2) show "\<exists>g'. run_step True (Some ErrShutdown) g g'"
    unfolding stopping_def using run_step.signal_seen[of g] run_step.ctx_done_seen[of g] by blast
next
  case Draining
  then show "\<exists>g'. run_step True (Some ErrShutdown) g g'" using run_step.drained by blast
next
  case SigDone
  with assms consider "g_consumer g" "g_cancelled g" | "g_server g" by (auto simp: run_inv_def all_returned_def)
  then show "\<exists>g'. run_step True (Some ErrShutdown) g g'"
  proof cases
    case 1
    then show ?thesis using run_step.consumer_stops by blast
  next
    case 2
    with SigDone show ?thesis using run_step.server_closed[of g] by fastforce
  qed
qed

lemma runner_terminates: "\<nexists>f. \<forall>n. runner_run (f n) (f (Suc n))"
proof
  assume "\<exists>f. \<forall>n. runner_run (f n) (f (Suc n))"
  then obtain f where f: "\<And>n. runner_run (f n) (f (Suc n))" by blast
  have "run_size (f n) + n \<le> run_size (f 0)" for n
  proof (induction n)
    case (Suc n)
    then show ?case using runner_run_size[OF f[of n]] by simp
  qed simp
  from this[of "Suc (run_size (f 0))"] show False by simp
qed



end
