(* ===== verification/Bank_Handlers.thy ===== *)
theory Bank_Handlers
  imports Bank_Ledger Account_Reads Notification_Props Service_Runtime
begin

text \<open>
  The handlers as parts of the abstract bank of \<open>Bank_Ledger\<close>. Every handler either only reads the
  tables or contributes at most one event, whatever faults the database, Redis and JetStream show.
  \<open>others\<close> is what other sessions may do to the tables meanwhile: before each statement that is sent
  outside a transaction (\<open>shared_postgres\<close>), and while a transaction backs off.
\<close>

section \<open>Reading handlers\<close>

text \<open>A handler that only reads: if the tables change, it is by the work of others.\<close>

definition reads_only :: "(db \<Rightarrow> db \<Rightarrow> bool) \<Rightarrow> ('c \<Rightarrow> db) \<Rightarrow> ('c, 'r, 'j) handler \<Rightarrow> bool" where
  "reads_only others tables h \<longleftrightarrow>
     (\<forall>ctx a raw hs w r w'. h ctx a raw hs w = (r, w') \<longrightarrow> others\<^sup>*\<^sup>* (tables (w_db w)) (tables (w_db w')))"

lemma reads_onlyI [intro?]:
  "(\<And>ctx a raw hs w r w'. h ctx a raw hs w = (r, w') \<Longrightarrow> others\<^sup>*\<^sup>* (tables (w_db w)) (tables (w_db w'))) \<Longrightarrow>
   reads_only others tables h"
  by (simp add: reads_only_def)

lemma reads_onlyD: "reads_only others tables h \<Longrightarrow> h ctx a raw hs w = (r, w') \<Longrightarrow> others\<^sup>*\<^sup>* (tables (w_db w)) (tables (w_db w'))"
  unfolding reads_only_def by blast

context shared_postgres
begin

lemma resolveUserNames_reads: "resolveUserNames (busy act B) ids c = (q, c') \<Longrightarrow> others\<^sup>*\<^sup>* (tables c) (tables c')"
  by (auto simp: resolveUserNames_def simp del: busy_simps dest!: shared_All[rotated]
      split: if_splits prod.splits sum.splits option.splits)

lemma queryBalanceFromDB_reads: "queryBalanceFromDB (busy act B) uid c = (q, c') \<Longrightarrow> others\<^sup>*\<^sup>* (tables c) (tables c')"
  unfolding queryBalanceFromDB_def by (rule shared_One_apfst) auto

lemmas reads = shared_QueryUser shared_One_apfst[rotated] shared_All_apfst[rotated] shared_All[rotated]
  resolveUserNames_reads queryBalanceFromDB_reads

lemma handleMe_reads: "reads_only others tables (handleMe (busy act B))"
  by rule (auto simp: handleMe_def Let_def simp del: busy_simps busy_QueryUser dest!: reads split: prod.splits sum.splits)

lemma handleBalance_reads: "reads_only others tables (handleBalance (busy act B) R)"
  by rule (auto simp: handleBalance_def Let_def dest!: reads split: prod.splits sum.splits option.splits)

lemma handleLookup_reads: "reads_only others tables (handleLookup (busy act B))"
  by rule (auto simp: handleLookup_def Let_def simp del: busy_QueryUser dest!: reads
      split: prod.splits sum.splits option.splits if_splits)

lemma handleAdminUsers_reads: "reads_only others tables (handleAdminUsers (busy act B))"
  by rule (auto simp: handleAdminUsers_def Let_def simp del: busy_simps dest!: reads intro: rtranclp_trans
      split: prod.splits sum.splits)

lemma handleAdminTransfers_reads: "reads_only others tables (handleAdminTransfers (busy act B))"
  by rule (auto simp: handleAdminTransfers_def Let_def simp del: busy_simps dest!: reads intro: rtranclp_trans
      split: prod.splits sum.splits option.splits if_splits)

lemma handleAdminNotifications_reads: "reads_only others tables (handleAdminNotifications (busy act B))"
  by rule (auto simp: handleAdminNotifications_def Let_def simp del: busy_simps dest!: reads intro: rtranclp_trans
      split: prod.splits sum.splits)

lemma handleAdminUserDetail_reads: "reads_only others tables (handleAdminUserDetail (busy act B))"
  by rule (auto simp: handleAdminUserDetail_def Let_def simp del: busy_simps dest!: reads
      split: prod.splits sum.splits option.splits if_splits)

lemma handleNotifications_reads: "reads_only others tables (handleNotifications (busy act B))"
  by rule (auto simp: handleNotifications_def Let_def simp del: busy_simps dest!: reads split: prod.splits sum.splits)

lemma handleLogin_reads: "reads_only others tables (handleLogin (busy act B) R compare sessionTTL cacheTTL sid)"
proof
  fix ctx a raw hs w r w'
  assume "handleLogin (busy act B) R compare sessionTTL cacheTTL sid ctx a raw hs w = (r, w')"
  then show "others\<^sup>*\<^sup>* (tables (w_db w)) (tables (w_db w'))"
    by (auto simp: handleLogin_def finish_login_def Let_def simp del: busy_QueryUser dest!: reads
        split: prod.splits sum.splits option.splits if_splits)
qed

end

lemma handleLogout_reads: "reads_only others tables (handleLogout R)"
  by rule (auto simp: handleLogout_def split: prod.splits option.splits)

lemma NATSHandler_reads: "reads_only others tables (NATSHandler name pingDB pingRedis)"
  by rule (auto simp: NATSHandler_def split: prod.splits)

lemma handleAdminStats_reads:
  assumes "shared_postgres B tables ilike act others" and "read_committed RunInTx tables others"
  shows "reads_only others tables (handleAdminStats (busy act B) RunInTx)"
proof
  fix ctx a raw hs w r w'
  assume run: "handleAdminStats (busy act B) RunInTx ctx a raw hs w = (r, w')"
  obtain q x c' where q: "RunInTx (stats_tx (busy act B)) ((0, 0), (0, 0), 0) (w_db w) = (q, x, c')" using prod_cases3 by blast
  with run read_committed.rc_reads[OF assms(2) q stats_tx_reading[OF assms(1)]]
  show "others\<^sup>*\<^sup>* (tables (w_db w)) (tables (w_db w'))"
    by (auto simp: handleAdminStats_def split: option.splits prod.splits)
qed

section \<open>Writing handlers\<close>

text \<open>\<open>served\<close>: other sessions committed something, and then the request contributed at most one event,
  one it may cause.\<close>

definition served :: "(db \<Rightarrow> db \<Rightarrow> bool) \<Rightarrow> (bank_label \<Rightarrow> bool) \<Rightarrow> db \<Rightarrow> db \<Rightarrow> bool" where
  "served others may d d' \<longleftrightarrow> (\<exists>d1. others\<^sup>*\<^sup>* d d1 \<and> (d' = d1 \<or> (\<exists>l. may l \<and> bank_event l d1 d')))"

lemma served_others: "others\<^sup>*\<^sup>* d d' \<Longrightarrow> served others may d d'"
  unfolding served_def by blast

lemma served_same: "d' = d \<Longrightarrow> served others may d d'"
  by (simp add: served_others)

lemma served_event: "others\<^sup>*\<^sup>* d d1 \<Longrightarrow> may l \<Longrightarrow> bank_event l d1 d' \<Longrightarrow> served others may d d'"
  unfolding served_def by blast

lemma served_mono: "served others may d d' \<Longrightarrow> (\<And>l. may l \<Longrightarrow> may' l) \<Longrightarrow> served others may' d d'"
  unfolding served_def by blast

context shared_postgres
begin

lemma register_loop_served:
  assumes "register_loop (busy act B) rnd phone username hash ks c = (r, c')"
  shows "served others (\<lambda>l. \<exists>i. l = Opened i) (tables c) (tables c')"
  using assms by (cases rule: register_loop_outcome) (auto intro: served_others served_event opened)

lemma handleRegister_served:
  assumes "handleRegister (busy act B) gen env rnd ctx a raw hs w = (r, w')"
  shows "served others (\<lambda>l. \<exists>i. l = Opened i) (tables (w_db w)) (tables (w_db w'))"
  using handleRegister_request[OF assms] register_loop_served by (fastforce intro: served_same)

lemma handleAck_served:
  assumes "handleAck (busy act B) ctx a raw hs w = (r, w')"
  shows "served others (\<lambda>l. \<exists>i. l = MarkedRead i (sender_of ctx)) (tables (w_db w)) (tables (w_db w'))"
proof (cases "\<exists>i. decode_ack raw = Some i \<and> i \<noteq> 0")
  case False
  with assms show ?thesis by (auto simp: handleAck_def intro: served_same split: option.splits if_splits)
next
  case True
  then obtain i where i: "decode_ack raw = Some i" "i \<noteq> 0" by blast
  let ?st = "AckNotification i (sender_of ctx)" and ?d = "tables (act (w_db w))"
  obtain q c' where q: "bob_Exec B ?st (act (w_db w)) = (q, c')" by fastforce
  have "tables c' = ?d \<or> tables c' = ?d\<lparr>notifications := map (mark_read i (sender_of ctx)) (notifications ?d)\<rparr>"
    using q exec_err[of ?st "act (w_db w)" _ c'] exec_ok[of ?st "act (w_db w)" _ c']
    by (cases q) (auto simp: err_effect_def mark_read_def[abs_def])
  moreover have "w_db w' = c'" using assms i q by (auto simp: handleAck_def Let_def split: sum.splits)
  ultimately show ?thesis
    using served_event[where may = "\<lambda>l. \<exists>i. l = MarkedRead i (sender_of ctx)", OF others_act _ marked_read[of i "sender_of ctx" ?d]]
      served_others[OF others_act[of "w_db w"]] by auto
qed

end

context transfer_backend
begin

lemma handleTransfer_served:
  assumes "handleTransfer B RunInTx R pub rnd sleep ctx a raw hs w = (r, w')"
    and "db_wf (tables (w_db w))" and "keeps_wf tables sleep" and "ctx_ok ctx"
    and "\<And>i c. others\<^sup>*\<^sup>* (tables c) (tables (sleep i c))"
  shows "served others (\<lambda>l. \<exists>rid amt. l = Moved (sender_of ctx) rid amt) (tables (w_db w)) (tables (w_db w'))"
proof -
  have int: "others\<^sup>*\<^sup>* d d'" if "(interference tables sleep)\<^sup>*\<^sup>* d d'" for d d'
    using that by (induction rule: rtranclp_induct) (use assms(5) in \<open>auto simp: interference_def intro: rtranclp_trans\<close>)
  have ev: "served others (\<lambda>l. \<exists>rid amt. l = Moved (sender_of ctx) rid amt) (tables (w_db w)) (tables (w_db w'))"
    if "valid_payload raw = Some p" "(interference tables sleep)\<^sup>*\<^sup>* (tables (w_db w)) d"
      "transfer_spec (sender_of ctx) p d res (tables (w_db w'))" for p d res
    using int[OF that(2)] moved[OF that(3)] valid_payload_props[OF that(1)] unfolding served_def by blast
  from assms(1-4) show ?thesis
  proof (cases rule: handleTransfer_outcome)
    case (failed p e res)
    then show ?thesis unfolding served_def using int by blast
  qed (auto intro: served_same ev)
qed

end

end
