(* ===== verification/Producer.thy ===== *)
theory Producer
  imports Service_Runtime "HOL-Library.List_Lexorder" "HOL-Library.Char_ord"
begin

text \<open>
  The HTTP gateway of \<^verbatim>\<open>producer/\<close>: building a request payload, the RPC call over NATS, the mapping of
  its outcome to an HTTP response, the route table, and the life cycle of the process.

  A request body decoded into \<^verbatim>\<open>any\<close> and marshalled again goes through \<^verbatim>\<open>float64\<close> for every number;
  that conversion (\<^verbatim>\<open>strconv\<close>'s parsing and shortest formatting of floats) is the argument \<open>num\<close>,
  \<open>None\<close> when the number has no finite \<^verbatim>\<open>float64\<close>, and \<open>float_exact\<close> is its documented behaviour on
  integers of up to 53 bits. \<open>parse_float\<close> is \<^verbatim>\<open>strconv.ParseFloat\<close>: no float, a float with its JSON
  text, or NaN and the infinities, which \<^verbatim>\<open>json.Marshal\<close> refuses. Maps are marshalled with sorted
  keys. \<open>request_msg\<close> is \<^verbatim>\<open>RequestMsgWithContext\<close>, \<open>err_text\<close> the text of an error.
\<close>

section \<open>Requests and responses\<close>

datatype http_body = NilBody | EmptyBody | BadBody | JsonBody json

record http_request =
  hr_method :: string
  hr_query :: "(string \<times> string list) list"
  hr_body :: http_body
  hr_session :: string
  hr_admin_secret :: string

record http_response =
  hs_status :: int
  hs_body :: "json option"

text \<open>A Go map as its marshalled object: later entries win, keys sorted.\<close>

definition last_wins :: "(string \<times> 'a) list \<Rightarrow> (string \<times> 'a) list" where
  "last_wins ms = sort_key fst (rev (foldl (\<lambda>acc (k, v). (k, v) # filter (\<lambda>(k', _). k' \<noteq> k) acc) [] ms))"

fun all_some :: "'a option list \<Rightarrow> 'a list option" where
  "all_some [] = Some []"
| "all_some (x # xs) = (case x of None \<Rightarrow> None | Some y \<Rightarrow> map_option ((#) y) (all_some xs))"

text \<open>Decoding into \<^verbatim>\<open>any\<close> and marshalling again.\<close>

fun any_norm :: "(json \<Rightarrow> json option) \<Rightarrow> json \<Rightarrow> json option" where
  "any_norm num (JInt i) = num (JInt i)"
| "any_norm num (JFrac s) = num (JFrac s)"
| "any_norm num (JArr xs) = map_option JArr (all_some (map (any_norm num) xs))"
| "any_norm num (JObj ms) =
     map_option (\<lambda>vs. JObj (last_wins (zip (map fst ms) vs))) (all_some (map (\<lambda>m. any_norm num (snd m)) ms))"
| "any_norm num j = Some j"

definition float_exact :: "(json \<Rightarrow> json option) \<Rightarrow> bool" where
  "float_exact num \<longleftrightarrow> (\<forall>i. \<bar>i\<bar> \<le> 9007199254740992 \<longrightarrow> num (JInt i) = Some (JInt i))"

datatype go_float = FiniteFloat json | NonFinite

text \<open>\<open>None\<close> is a value \<^verbatim>\<open>json.Marshal\<close> refuses.\<close>

definition queryValue :: "(string \<Rightarrow> go_float option) \<Rightarrow> string \<Rightarrow> json option" where
  "queryValue parse_float s =
     (case Atoi s of
        Some n \<Rightarrow> Some (JInt n)
      | None \<Rightarrow>
          (case parse_float s of
             Some (FiniteFloat j) \<Rightarrow> Some j
           | Some NonFinite \<Rightarrow> None
           | None \<Rightarrow> Some (JStr s)))"

definition first_values :: "(string \<times> string list) list \<Rightarrow> (string \<times> string) list" where
  "first_values q = map (\<lambda>(k, vs). (k, hd vs)) (filter (\<lambda>(k, vs). vs \<noteq> []) q)"

definition patch_body ::
  "(json \<Rightarrow> json option) \<Rightarrow> http_body \<Rightarrow> (string \<times> json) list" where
  "patch_body num b =
     (case b of
        JsonBody (JObj ms) \<Rightarrow> (case any_norm num (JObj ms) of Some (JObj ms') \<Rightarrow> ms' | _ \<Rightarrow> [])
      | _ \<Rightarrow> [])"

definition marshal_map :: "(string \<times> json option) list \<Rightarrow> json option" where
  "marshal_map m = map_option (\<lambda>vs. JObj (zip (map fst (last_wins m)) vs)) (all_some (map snd (last_wins m)))"

text \<open>The payload: an error, or its JSON (\<open>None\<close> when it cannot be marshalled).\<close>

definition parsePayload ::
  "(json \<Rightarrow> json option) \<Rightarrow> (string \<Rightarrow> go_float option) \<Rightarrow> http_request \<Rightarrow> goerr + json option" where
  "parsePayload num parse_float r =
     (if hr_method r \<in> {''POST'', ''PUT''}
      then (case hr_body r of
              NilBody \<Rightarrow> Inr (Some (JObj []))
            | EmptyBody \<Rightarrow> Inr (Some (JObj []))
            | BadBody \<Rightarrow> Inl (OtherErr ''json'')
            | JsonBody JNull \<Rightarrow> Inr (Some (JObj []))
            | JsonBody j \<Rightarrow> (case any_norm num j of None \<Rightarrow> Inl (OtherErr ''json'') | Some j' \<Rightarrow> Inr (Some j')))
      else if hr_method r = ''PATCH''
      then Inr (marshal_map (map (\<lambda>(k, v). (k, queryValue parse_float v)) (first_values (hr_query r)) @
                             map (\<lambda>(k, v). (k, Some v)) (patch_body num (hr_body r))))
      else if hr_method r = ''GET''
      then Inr (Some (JObj (last_wins (map (\<lambda>(k, v). (k, JStr v)) (first_values (hr_query r))))))
      else Inr (Some (JObj [])))"

definition injectPathParam :: "string \<Rightarrow> string \<Rightarrow> http_request \<Rightarrow> http_request" where
  "injectPathParam queryKey urlParam r =
     (if urlParam \<noteq> []
      then r\<lparr>hr_query := filter (\<lambda>(k, _). k \<noteq> queryKey) (hr_query r) @ [(queryKey, [urlParam])]\<rparr>
      else r)"

section \<open>The RPC call\<close>

record rpc_reply =
  rr_status :: int
  rr_body :: raw_message

definition decode_rpc_reply :: "raw_message \<Rightarrow> rpc_reply option" where
  "decode_rpc_reply raw =
     unmarshal_obj [''status'', ''body'']
       (\<lambda>f v r. if f = ''status'' then map_option (\<lambda>x. r\<lparr>rr_status := x\<rparr>) (decode_int v (rr_status r))
                else Some (r\<lparr>rr_body := Some v\<rparr>))
       \<lparr>rr_status = 0, rr_body = None\<rparr> raw"

definition rpc_headers :: "string \<Rightarrow> string \<Rightarrow> headers" where
  "rpc_headers session adminSecret =
     (\<lambda>k. if k = ''x-session'' then session else if k = ''x-admin-secret'' then adminSecret else [])"

definition rpcRequest :: "json \<Rightarrow> json" where
  "rpcRequest payload = JObj [(''payload'', payload)]"

type_synonym 'w transport = "string \<Rightarrow> request \<Rightarrow> 'w \<Rightarrow> (goerr + raw_message) \<times> 'w"

definition call ::
  "'w transport \<Rightarrow> goerr option \<Rightarrow> string \<Rightarrow> json option \<Rightarrow> string \<Rightarrow> string \<Rightarrow> 'w \<Rightarrow> (goerr + rpc_reply) \<times> 'w" where
  "call request_msg ctxErr subject payload session adminSecret w =
     (case ctxErr of
        Some e \<Rightarrow> (Inl (Wrapf ''call: context already done'' e), w)
      | None \<Rightarrow>
          (case payload of
             None \<Rightarrow> (Inl (Wrapf ''marshal rpc request'' (OtherErr ''json'')), w)
           | Some p \<Rightarrow>
               (case request_msg subject
                       \<lparr>req_data = Some (rpcRequest p), req_headers = rpc_headers session adminSecret\<rparr> w of
                  (Inl e, w') \<Rightarrow>
                    (if errors_Is e NatsNoResponders then (Inl ErrServiceUnavailable, w')
                     else (Inl (Wrapf ''nats request'' e), w'))
                | (Inr data, w') \<Rightarrow>
                    (case decode_rpc_reply data of
                       None \<Rightarrow> (Inl (Wrapf ''unmarshal reply'' (OtherErr ''json'')), w')
                     | Some resp \<Rightarrow> (Inr resp, w')))))"

definition writeRawJSON :: "int \<Rightarrow> json \<Rightarrow> http_response" where
  "writeRawJSON status body = \<lparr>hs_status = status, hs_body = Some body\<rparr>"

text \<open>\<open>payload\<close> is the marshalled value, or none when \<^verbatim>\<open>json.Marshal\<close> fails.\<close>

definition writeJSON :: "int \<Rightarrow> json option \<Rightarrow> http_response" where
  "writeJSON status payload =
     (case payload of
        None \<Rightarrow> \<lparr>hs_status = 500, hs_body = Some (detail ''internal server error'')\<rparr>
      | Some data \<Rightarrow> writeRawJSON status data)"

declare writeRawJSON_def [simp] writeJSON_def [simp] rpcRequest_def [simp]

definition proxyHandler ::
  "(json \<Rightarrow> json option) \<Rightarrow> (string \<Rightarrow> go_float option) \<Rightarrow> (goerr \<Rightarrow> string) \<Rightarrow> 'w transport \<Rightarrow> goerr option \<Rightarrow>
   string \<Rightarrow> http_request \<Rightarrow> 'w \<Rightarrow> http_response \<times> 'w" where
  "proxyHandler num parse_float err_text request_msg ctxErr subject r w =
     (case parsePayload num parse_float r of
        Inl e \<Rightarrow> (writeJSON 400 (Some (detail ''Invalid JSON body'')), w)
      | Inr payload \<Rightarrow>
          (case call request_msg ctxErr subject payload (hr_session r) (hr_admin_secret r) w of
             (Inl e, w') \<Rightarrow>
               (if errors_Is e ErrServiceUnavailable
                then writeJSON 503 (Some (detail ''Service unavailable''))
                else if errors_Is e CtxDeadlineExceeded \<or> errors_Is e CtxCanceled
                then writeJSON 504 (Some (detail ''Gateway timeout''))
                else writeJSON 502 (Some (detail (err_text e))), w')
           | (Inr resp, w') \<Rightarrow>
               (if rr_status resp = 204 then \<lparr>hs_status = 204, hs_body = None\<rparr>
                else writeRawJSON (rr_status resp) (case rr_body resp of None \<Rightarrow> JObj [] | Some j \<Rightarrow> j), w')))"

definition healthHandler :: "bool \<Rightarrow> http_response" where
  "healthHandler connected =
     (if connected
      then writeJSON 200 (Some (JObj [(''nats'', JStr ''ok''), (''service'', JStr ''api-producer''),
             (''status'', JStr ''healthy'')]))
      else writeJSON 503 (Some (JObj [(''nats'', JStr ''disconnected''), (''service'', JStr ''api-producer''),
             (''status'', JStr ''unhealthy'')])))"

section \<open>Routes and life cycle\<close>

text \<open>Method, path pattern, subject, and the query key a path parameter is injected as.\<close>

definition api_routes :: "(string \<times> string \<times> string \<times> string option) list" where
  "api_routes =
     [(''POST'', ''/api/users'', ''banking.auth.register'', None),
      (''POST'', ''/api/sessions'', ''banking.auth.login'', None),
      (''DELETE'', ''/api/sessions'', ''banking.auth.logout'', None),
      (''GET'', ''/api/users/me/balance'', ''banking.account.balance'', None),
      (''GET'', ''/api/users/me'', ''banking.account.me'', None),
      (''GET'', ''/api/users'', ''banking.account.lookup'', None),
      (''POST'', ''/api/transfers'', ''banking.transfer.transfer'', None),
      (''GET'', ''/api/notifications'', ''banking.notification.notifications'', None),
      (''PATCH'', ''/api/notifications/{id}/ack'', ''banking.notification.ack'', Some ''id''),
      (''GET'', ''/api/admin/stats'', ''banking.account.stats'', None),
      (''GET'', ''/api/admin/users'', ''banking.account.users'', None),
      (''GET'', ''/api/admin/users/{id}'', ''banking.account.user-detail'', Some ''user_id''),
      (''GET'', ''/api/admin/transfers'', ''banking.account.transfers'', None),
      (''GET'', ''/api/admin/notifications'', ''banking.account.notifications'', None),
      (''GET'', ''/api/health/auth'', ''banking.auth.health'', None),
      (''GET'', ''/api/health/account'', ''banking.account.health'', None),
      (''GET'', ''/api/health/transfer'', ''banking.transfer.health'', None),
      (''GET'', ''/api/health/notifications'', ''banking.notification.health'', None)]"

definition serverAddr :: "string \<Rightarrow> string" where
  "serverAddr port = (if starts_with '':'' port then port else '':'' @ port)"

text \<open>The three goroutines of \<^verbatim>\<open>main\<close>: the RPC client's \<^verbatim>\<open>run\<close> only waits for the context, and the
  signal handler returns nil. A signal may come in at any time.\<close>

definition producer_step :: "group \<Rightarrow> group \<Rightarrow> bool" where
  "producer_step g g' \<longleftrightarrow> run_step False None g g' \<or> signal_arrives g g'"

section \<open>Facts\<close>

lemma producer_step_inv:
  assumes "producer_step g g'" and "(g_err g = None) = (\<not> g_cancelled g)" and "g_err g = None \<longrightarrow> g_consumer g"
  shows "(g_err g' = None) = (\<not> g_cancelled g') \<and> (g_err g' = None \<longrightarrow> g_consumer g')"
  using assms unfolding producer_step_def
proof (elim disjE)
  assume "run_step False None g g'"
  then show ?thesis using assms(2,3)
    by (induction rule: run_step.induct) (auto simp: group_return_def split: option.splits)
qed (auto simp: signal_arrives_def)

lemma producer_reachable_inv:
  "producer_step\<^sup>*\<^sup>* run_init g \<Longrightarrow> (g_err g = None) = (\<not> g_cancelled g) \<and> (g_err g = None \<longrightarrow> g_consumer g)"
proof (induction rule: rtranclp_induct)
  case base
  show ?case by (simp add: run_init_def)
next
  case (step g g')
  then show ?case using producer_step_inv[OF step.hyps(2)] by simp
qed

lemma producer_signal_path:
  assumes "g_consumer g" and "g_server g" and "g_sig g = Waiting" and "\<not> g_signalled g"
  shows "producer_step\<^sup>*\<^sup>* g (g\<lparr>g_signalled := True, g_server := False, g_sig := SigDone\<rparr>)"
proof -
  let ?s = "g\<lparr>g_signalled := True\<rparr>"
  let ?a = "?s\<lparr>g_sig := Draining\<rparr>" and ?b = "?s\<lparr>g_sig := Draining, g_server := False\<rparr>"
  have "producer_step g ?s" using assms(4) by (simp add: producer_step_def signal_arrives_def)
  moreover have "producer_step ?s ?a" using run_step.signal_seen[of ?s False None] assms(3) by (simp add: producer_step_def)
  moreover have "producer_step ?a ?b" using run_step.server_closed[of ?a False None] assms(2) by (simp add: producer_step_def)
  moreover have "producer_step ?b (g\<lparr>g_signalled := True, g_server := False, g_sig := SigDone\<rparr>)"
    using run_step.drained[of ?b False None] by (simp add: producer_step_def group_return_def)
  ultimately show ?thesis by (meson converse_rtranclp_into_rtranclp r_into_rtranclp)
qed

text \<open>Property C39. The gateway process does not end on a signal: as long as its HTTP server has not
  failed, the goroutine of the RPC client has not returned, so \<^verbatim>\<open>g.Wait\<close> cannot return; and a signal
  leads to a state in which the server is closed and drained, the RPC client waits for a context
  that nobody cancels, and no goroutine can make a step.\<close>

theorem producer_hangs_on_signal:
  "(\<nexists>g. producer_step\<^sup>*\<^sup>* run_init g \<and> g_err g = None \<and> all_returned g) \<and>
   (\<exists>g. producer_step\<^sup>*\<^sup>* run_init g \<and> g_sig g = SigDone \<and> \<not> g_server g \<and> \<not> all_returned g \<and>
        (\<nexists>g'. producer_step g g'))"
proof
  show "\<nexists>g. producer_step\<^sup>*\<^sup>* run_init g \<and> g_err g = None \<and> all_returned g"
    using producer_reachable_inv by (auto simp: all_returned_def)
next
  let ?g = "run_init\<lparr>g_signalled := True, g_server := False, g_sig := SigDone\<rparr>"
  have "producer_step\<^sup>*\<^sup>* run_init ?g" by (rule producer_signal_path) (simp_all add: run_init_def)
  moreover have "\<not> producer_step ?g g'" for g'
    unfolding producer_step_def signal_arrives_def by (auto elim: run_step.cases simp: run_init_def)
  ultimately show "\<exists>g. producer_step\<^sup>*\<^sup>* run_init g \<and> g_sig g = SigDone \<and> \<not> g_server g \<and> \<not> all_returned g \<and>
        (\<nexists>g'. producer_step g g')"
    by (intro exI[of _ ?g]) (auto simp: all_returned_def run_init_def)
qed

end
