(* ===== verification/Wiring.thy ===== *)
theory Wiring
  imports Transfer_Service Auth_Service Account_Service Notification_Service Service_Runtime Producer Db_Shared
begin

text \<open>
  How the parts are put together: the consumers that the \<^verbatim>\<open>run\<close> functions of the four services
  register, and the system seen from the gateway. The external services and the random sources the
  handlers need are the fields of \<open>env\<close>. Statements of an open serializable transaction go through \<open>e_B\<close>;
  all others through the pool \<open>e_pool\<close>, where other sessions may commit (\<open>e_act\<close>) before each of them.

  \<open>serve\<close> is a transport that delivers: it hands a request to the handler registered for its subject
  and returns the reply; without a handler the client gets \<^verbatim>\<open>ErrNoResponders\<close>, without a reply
  (shutdown) it times out. The body of a service error is empty.
\<close>

record ('c, 'r, 'j) env =
  e_B :: "'c bobdb"
  e_act :: "'c \<Rightarrow> 'c"
  e_R :: "'r redis"
  e_tx :: "(transfer_result, 'c) tx_fun \<Rightarrow> (transfer_result, 'c) tx_fun"
  e_stats_tx :: "(stats_vars, 'c) tx_fun \<Rightarrow> (stats_vars, 'c) tx_fun"
  e_pub :: "(transfer_completed \<Rightarrow> 'j \<Rightarrow> goerr option \<times> 'j) option"
  e_jitter :: "nat \<Rightarrow> int \<Rightarrow> int"
  e_sleep :: "nat \<Rightarrow> 'c \<Rightarrow> 'c"
  e_gen :: "string \<Rightarrow> int \<Rightarrow> goerr + string"
  e_compare :: "string \<Rightarrow> string \<Rightarrow> goerr option"
  e_getenv :: "string \<Rightarrow> string"
  e_digits :: "nat \<Rightarrow> nat \<Rightarrow> nat"
  e_sid :: string
  e_sessionTTL :: int
  e_cacheTTL :: int
  e_pingDB :: "'c \<Rightarrow> goerr option"
  e_pingRedis :: "'r \<Rightarrow> goerr option"
  e_adminSecret :: string
  e_natsURL :: string

definition e_pool :: "('c, 'r, 'j) env \<Rightarrow> 'c bobdb" where
  "e_pool E = busy (e_act E) (e_B E)"

section \<open>The services\<close>

text \<open>The publisher of the transfer service: none when the stream could not be set up.\<close>

definition publisher_of :: "goerr + 'j jetstream \<Rightarrow> (transfer_completed \<Rightarrow> 'j \<Rightarrow> goerr option \<times> 'j) option" where
  "publisher_of js = (case js of Inl e \<Rightarrow> None | Inr J \<Rightarrow> Some (PublishTransferEvent J))"

definition auth_consumer :: "('c, 'r, 'j) env \<Rightarrow> ('c, 'r, 'j) consumer" where
  "auth_consumer E =
     (let requireSession = SessionMiddleware (e_R E) in
      NewConsumer (e_natsURL E) ''auth-service'' ''banking.auth''
        [WithMetrics,
         WithHandler ''register'' (handleRegister (e_pool E) (e_gen E) (e_getenv E) (e_digits E)),
         WithHandler ''login'' (handleLogin (e_pool E) (e_R E) (e_compare E) (e_sessionTTL E) (e_cacheTTL E) (e_sid E)),
         WithHandler ''logout'' (requireSession (handleLogout (e_R E))),
         WithHandler ''health'' (NATSHandler ''auth-service'' (e_pingDB E) (e_pingRedis E))])"

definition account_consumer :: "('c, 'r, 'j) env \<Rightarrow> ('c, 'r, 'j) consumer" where
  "account_consumer E =
     (let requireSession = SessionMiddleware (e_R E);
          requireAdmin = AdminMiddleware (e_adminSecret E) (e_R E) in
      NewConsumer (e_natsURL E) ''account-service'' ''banking.account''
        [WithConn, WithMetrics,
         WithHandler ''me'' (requireSession (handleMe (e_pool E))),
         WithHandler ''balance'' (requireSession (handleBalance (e_pool E) (e_R E))),
         WithHandler ''lookup'' (requireSession (handleLookup (e_pool E))),
         WithHandler ''stats'' (requireAdmin (handleAdminStats (e_pool E) (e_stats_tx E))),
         WithHandler ''users'' (requireAdmin (handleAdminUsers (e_pool E))),
         WithHandler ''transfers'' (requireAdmin (handleAdminTransfers (e_pool E))),
         WithHandler ''notifications'' (requireAdmin (handleAdminNotifications (e_pool E))),
         WithHandler ''user-detail'' (requireAdmin (handleAdminUserDetail (e_pool E))),
         WithHandler ''health'' (NATSHandler ''account-service'' (e_pingDB E) (e_pingRedis E))])"

definition transfer_consumer :: "('c, 'r, 'j) env \<Rightarrow> ('c, 'r, 'j) consumer" where
  "transfer_consumer E =
     (let requireSession = SessionMiddleware (e_R E) in
      NewConsumer (e_natsURL E) ''transfer-service'' ''banking.transfer''
        [WithConn, WithMetrics,
         WithHandler ''transfer''
           (requireSession (handleTransfer (e_B E) (e_tx E) (e_R E) (e_pub E) (e_jitter E) (e_sleep E))),
         WithHandler ''health'' (NATSHandler ''transfer-service'' (e_pingDB E) (e_pingRedis E))])"

definition notification_consumer :: "('c, 'r, 'j) env \<Rightarrow> ('c, 'r, 'j) consumer" where
  "notification_consumer E =
     (let requireSession = SessionMiddleware (e_R E) in
      NewConsumer (e_natsURL E) ''notification-service'' ''banking.notification''
        [WithMetrics,
         WithHandler ''notifications'' (requireSession (handleNotifications (e_pool E))),
         WithHandler ''ack'' (requireSession (handleAck (e_pool E))),
         WithHandler ''health'' (NATSHandler ''notification-service'' (e_pingDB E) (e_pingRedis E))])"

definition all_consumers :: "('c, 'r, 'j) env \<Rightarrow> ('c, 'r, 'j) consumer list" where
  "all_consumers E = [auth_consumer E, account_consumer E, transfer_consumer E, notification_consumer E]"

section \<open>The system behind the gateway\<close>

fun route_any :: "('c, 'r, 'j) consumer list \<Rightarrow> string \<Rightarrow> (string \<times> ('c, 'r, 'j) handler) option" where
  "route_any [] subject = None"
| "route_any (c # cs) subject = (case route c subject of Some ah \<Rightarrow> Some ah | None \<Rightarrow> route_any cs subject)"

definition response_json :: "rpc_response \<Rightarrow> json" where
  "response_json r = JObj [(''status'', JInt (rpc_status r)), (''body'', rpc_body r)]"

definition serve :: "('c, 'r, 'j) consumer list \<Rightarrow> goctx \<Rightarrow> ('c, 'r, 'j) world transport" where
  "serve cs ctx subject req w =
     (case route_any cs subject of
        None \<Rightarrow> (Inl NatsNoResponders, w)
      | Some (action, h) \<Rightarrow>
          (case dispatch ctx req action h w of
             (NoReply, w') \<Rightarrow> (Inl CtxDeadlineExceeded, w')
           | (ServiceError code m, w') \<Rightarrow> (Inr None, w')
           | (Respond r, w') \<Rightarrow> (Inr (Some (response_json r)), w')))"

section \<open>Facts\<close>

lemma NewConsumer_prefix:
  "c_subjectPrefix (NewConsumer url name p []) = p"
  by (simp add: NewConsumer_def)

lemmas wiring_defs [wiring] = auth_consumer_def account_consumer_def transfer_consumer_def notification_consumer_def
  NewConsumer_def WithHandler_def WithMetrics_def WithConn_def Let_def

lemma auth_route:
  "route (auth_consumer E) (''banking.auth.'' @ a) = map_option (\<lambda>h. (a, h)) (c_handlers (auth_consumer E) a)"
  by (simp add: route_def starts_with_iff wiring)

lemma consumer_prefixes:
  "c_subjectPrefix (auth_consumer E) = ''banking.auth''" "c_subjectPrefix (account_consumer E) = ''banking.account''"
  "c_subjectPrefix (transfer_consumer E) = ''banking.transfer''"
  "c_subjectPrefix (notification_consumer E) = ''banking.notification''"
  by (simp_all add: wiring)

end
