(* ===== verification/Gateway_Payload.thy ===== *)
theory Gateway_Payload
  imports Producer Transfer_Props Notification_Service "HOL-Library.Multiset"
begin

text \<open>
  What the gateway makes of a request body and of query parameters, and that the services decode it
  to what the client meant: the JSON members are sorted and numbers pass through \<^verbatim>\<open>float64\<close> on the way.
\<close>

section \<open>Sorted members\<close>

lemma last_wins_acc:
  assumes "distinct (map fst (rev ms @ acc))"
  shows "foldl (\<lambda>acc (k, v). (k, v) # filter (\<lambda>(k', _). k' \<noteq> k) acc) acc ms = rev ms @ acc"
  using assms
proof (induction ms arbitrary: acc)
  case (Cons m ms)
  obtain k v where m: "m = (k, v)" by fastforce
  with Cons.prems have "filter (\<lambda>(k', _). k' \<noteq> k) acc = acc" by (force simp: filter_id_conv)
  with Cons m show ?case by simp
qed simp

lemma last_wins_mset: "distinct (map fst ms) \<Longrightarrow> mset (last_wins ms) = mset ms"
  by (simp add: last_wins_def last_wins_acc rev_map[symmetric])

lemma last_wins_set: "distinct (map fst ms) \<Longrightarrow> set (last_wins ms) = set ms"
  using last_wins_mset mset_eq_setD by blast

lemma last_wins_distinct: "distinct (map fst ms) \<Longrightarrow> distinct (map fst (last_wins ms))"
  using last_wins_mset[of ms] by (metis mset_eq_imp_distinct_iff mset_map)

lemma all_some_Some: "(\<And>x. x \<in> set xs \<Longrightarrow> f x = Some (g x)) \<Longrightarrow> all_some (map f xs) = Some (map g xs)"
  by (induction xs) auto

text \<open>The order of members does not matter to a decoder whose field assignments commute.\<close>

definition commuting :: "string list \<Rightarrow> (string \<Rightarrow> json \<Rightarrow> 'a \<Rightarrow> 'a option) \<Rightarrow> bool" where
  "commuting names setf \<longleftrightarrow>
     (\<forall>n \<in> set names. \<forall>n' \<in> set names. n \<noteq> n' \<longrightarrow>
        (\<forall>v v' z. Option.bind (setf n v z) (setf n' v') = Option.bind (setf n' v' z) (setf n v)))"

lemma set_members_Cons:
  "k \<in> set names \<Longrightarrow> set_members names setf z ((k, v) # ms) =
     Option.bind (setf k v z) (\<lambda>z'. set_members names setf z' ms)"
  by (simp split: option.splits)

lemma set_members_front:
  assumes "commuting names setf" and "k \<in> set names" and "set (map fst xs) \<subseteq> set names" and "k \<notin> set (map fst xs)"
  shows "set_members names setf z (xs @ (k, v) # ys) =
    Option.bind (setf k v z) (\<lambda>z'. set_members names setf z' (xs @ ys))"
  using assms(3,4)
proof (induction xs arbitrary: z)
  case Nil
  show ?case using assms(2) by (simp only: append_Nil set_members_Cons)
next
  case (Cons x xs)
  obtain k' v' where x: "x = (k', v')" by fastforce
  with Cons.prems have k': "k' \<in> set names" "k' \<noteq> k" by auto
  with assms(1,2) have swap: "Option.bind (setf k' v' z) (setf k v) = Option.bind (setf k v z) (setf k' v')"
    by (auto simp: commuting_def)
  have "set_members names setf z ((x # xs) @ (k, v) # ys) =
      Option.bind (setf k' v' z) (\<lambda>z1. Option.bind (setf k v z1) (\<lambda>z'. set_members names setf z' (xs @ ys)))"
    using Cons k' x by (simp only: append_Cons set_members_Cons) simp
  also have "\<dots> = Option.bind (setf k v z) (\<lambda>z1. Option.bind (setf k' v' z1) (\<lambda>z'. set_members names setf z' (xs @ ys)))"
    using swap by (metis Option.bind_assoc)
  finally show ?case using k' x by (simp only: append_Cons set_members_Cons)
qed

lemma set_members_perm:
  assumes "commuting names setf" and "mset ms = mset ms'" and "distinct (map fst ms)" and "set (map fst ms) \<subseteq> set names"
  shows "set_members names setf z ms = set_members names setf z ms'"
  using assms(2-4)
proof (induction ms arbitrary: ms' z)
  case (Cons m ms)
  obtain k v where m: "m = (k, v)" by fastforce
  from Cons.prems m have "(k, v) \<in> set ms'" by (metis list.set_intros(1) mset_eq_setD)
  then obtain xs ys where ms': "ms' = xs @ (k, v) # ys" by (meson split_list)
  with Cons.prems m have ms: "mset ms = mset (xs @ ys)" by simp
  have fsts: "set (map fst ms) = set (map fst (xs @ ys))" using ms by (metis mset_eq_setD mset_map)
  then have "k \<notin> set (map fst xs)" "set (map fst xs) \<subseteq> set names" "k \<in> set names" using Cons.prems m by auto
  with set_members_front[OF assms(1), of k xs z v ys] Cons.IH[OF ms] Cons.prems m ms' show ?case
    by (simp only: set_members_Cons) simp
qed simp

section \<open>A POST body\<close>

text \<open>A JSON value other than an object or an array whose number, if it is one, is an integer that a
  \<^verbatim>\<open>float64\<close> holds exactly.\<close>

fun plain_value :: "json \<Rightarrow> bool" where
  "plain_value (JInt i) = (\<bar>i\<bar> \<le> 9007199254740992)"
| "plain_value (JFrac s) = False"
| "plain_value (JArr xs) = False"
| "plain_value (JObj ms) = False"
| "plain_value _ = True"

lemma any_norm_plain: "float_exact num \<Longrightarrow> plain_value v \<Longrightarrow> any_norm num v = Some v"
  by (cases v) (auto simp: float_exact_def)

lemma any_norm_object:
  assumes "float_exact num" and "\<forall>m \<in> set ms. plain_value (snd m)"
  shows "any_norm num (JObj ms) = Some (JObj (last_wins ms))"
proof -
  have "all_some (map (\<lambda>m. any_norm num (snd m)) ms) = Some (map snd ms)"
    using assms any_norm_plain by (intro all_some_Some) blast
  then show ?thesis by (simp add: zip_map_fst_snd)
qed

lemma transfer_payload_commuting: "commuting transfer_payload_fields transfer_payload_set"
  unfolding commuting_def transfer_payload_fields_def
  by (auto simp: transfer_payload_set_def map_option_case split: option.splits)

lemma post_payload:
  assumes "float_exact num" and "hr_method r = ''POST''" and "hr_body r = JsonBody (JObj ms)"
    and "\<forall>m \<in> set ms. plain_value (snd m)"
  shows "parsePayload num parse_float r = Inr (Some (JObj (last_wins ms)))"
  using assms any_norm_object[OF assms(1,4)] by (simp add: parsePayload_def del: any_norm.simps)

lemma decode_transfer_sorted:
  assumes "distinct (map fst ms)" and "set (map fst ms) \<subseteq> set transfer_payload_fields"
  shows "decode_transfer_payload (Some (JObj (last_wins ms))) = decode_transfer_payload (Some (JObj ms))"
proof -
  have "set_members transfer_payload_fields transfer_payload_set z ms =
      set_members transfer_payload_fields transfer_payload_set z (last_wins ms)" for z
    using set_members_perm[OF transfer_payload_commuting _ assms] last_wins_mset[OF assms(1)] by metis
  then show ?thesis by (simp add: decode_transfer_payload_def unmarshal_obj_def)
qed


text \<open>The condition on the names is needed: \<^verbatim>\<open>encoding/json\<close> matches members without regard to case and the
  last match wins, while the gateway sorts the members by name.\<close>

definition keep_num :: "json \<Rightarrow> json option" where
  "keep_num j = Some j"

definition no_float :: "string \<Rightarrow> go_float option" where
  "no_float s = None"

definition sample_post :: "(string \<times> json) list \<Rightarrow> string \<Rightarrow> http_request" where
  "sample_post ms session =
     \<lparr>hr_method = ''POST'', hr_query = [], hr_body = JsonBody (JObj ms), hr_session = session, hr_admin_secret = []\<rparr>"

lemma keep_num_exact: "float_exact keep_num"
  by (simp add: float_exact_def keep_num_def)

lemma reordered_member_changes_amount:
  "parsePayload keep_num no_float (sample_post [(''phone'', JStr ''0902''), (''amount'', JInt 5), (''AMOUNT'', JInt 6)] ''s1'') =
     Inr (Some (JObj [(''AMOUNT'', JInt 6), (''amount'', JInt 5), (''phone'', JStr ''0902'')]))"
  "map_option tp_amount (decode_transfer_payload (Some (JObj [(''phone'', JStr ''0902''), (''amount'', JInt 5), (''AMOUNT'', JInt 6)]))) = Some 6"
  "map_option tp_amount (decode_transfer_payload (Some (JObj [(''AMOUNT'', JInt 6), (''amount'', JInt 5), (''phone'', JStr ''0902'')]))) = Some 5"
  by (code_simp, code_simp, code_simp)


section \<open>Query and path parameters\<close>

lemma smap_members_strings:
  assumes "distinct (map fst ys)" and "\<forall>y \<in> set ys. \<exists>s. snd y = JStr s"
  shows "\<exists>m'. smap_members m ys = Some m' \<and> (\<forall>k s. (k, JStr s) \<in> set ys \<longrightarrow> m' k = Some s) \<and>
    (\<forall>k. k \<notin> fst ` set ys \<longrightarrow> m' k = m k)"
  using assms
proof (induction ys arbitrary: m)
  case (Cons y ys)
  then obtain k s where y: "y = (k, JStr s)" by (cases y) auto
  have "distinct (map fst ys)" "\<forall>y \<in> set ys. \<exists>s. snd y = JStr s" using Cons.prems by simp_all
  from Cons.IH[OF this, of "m(k \<mapsto> s)"] obtain m' where m': "smap_members (m(k \<mapsto> s)) ys = Some m'"
    "\<forall>k s. (k, JStr s) \<in> set ys \<longrightarrow> m' k = Some s" "\<forall>q. q \<notin> fst ` set ys \<longrightarrow> m' q = (m(k \<mapsto> s)) q"
    by blast
  moreover have "k \<notin> fst ` set ys" using Cons.prems y by simp
  ultimately show ?case using y by (intro exI[of _ m']) auto
qed simp

lemma first_values_keys: "distinct (map fst q) \<Longrightarrow> distinct (map fst (first_values q))"
  by (induction q) (force simp: first_values_def)+

lemma get_payload:
  assumes "hr_method r = ''GET''" and "distinct (map fst (hr_query r))"
  shows "\<exists>p m. parsePayload num parse_float r = Inr (Some p) \<and> unmarshal_smap (Some p) = Some m \<and>
    m = map_of (first_values (hr_query r))"
proof -
  let ?fv = "first_values (hr_query r)" and ?ys = "map (\<lambda>(k, v). (k, JStr v)) (first_values (hr_query r))"
  have d: "distinct (map fst ?ys)" "distinct (map fst ?fv)"
    using first_values_keys[OF assms(2)] by (simp_all add: case_prod_unfold comp_def)
  have "\<forall>y \<in> set (last_wins ?ys). \<exists>s. snd y = JStr s" unfolding last_wins_set[OF d(1)] by auto
  from smap_members_strings[OF last_wins_distinct[OF d(1)] this, of Map.empty] obtain m where
    m: "smap_members Map.empty (last_wins ?ys) = Some m" "\<forall>k s. (k, JStr s) \<in> set ?ys \<longrightarrow> m k = Some s"
    "\<forall>k. k \<notin> fst ` set ?ys \<longrightarrow> m k = None"
    unfolding last_wins_set[OF d(1)] by blast
  have "m k = map_of ?fv k" for k
  proof (cases "map_of ?fv k")
    case None
    then have "k \<notin> fst ` set ?ys" by (force simp: map_of_eq_None_iff)
    with m(3) None show ?thesis by simp
  next
    case (Some s)
    then have "(k, JStr s) \<in> set ?ys" by (force dest: map_of_SomeD)
    with m(2) Some show ?thesis by simp
  qed
  with m(1) assms(1) show ?thesis by (intro exI[of _ "JObj (last_wins ?ys)"]) (auto simp: parsePayload_def unmarshal_smap_def)
qed

lemma map_of_filter_key: "map_of (filter (\<lambda>(k, _). k \<noteq> q) xs) k = (if k = q then None else map_of xs k)"
  by (induction xs) auto

lemma injectPathParam_values:
  "urlParam \<noteq> [] \<Longrightarrow> map_of (first_values (hr_query (injectPathParam queryKey urlParam r))) =
     (map_of (first_values (hr_query r)))(queryKey \<mapsto> urlParam)"
proof -
  assume "urlParam \<noteq> []"
  then have "first_values (hr_query (injectPathParam queryKey urlParam r)) =
      filter (\<lambda>(k, _). k \<noteq> queryKey) (first_values (hr_query r)) @ [(queryKey, urlParam)]"
    by (auto simp: injectPathParam_def first_values_def filter_map comp_def case_prod_unfold
        intro!: arg_cong[of _ _ "map _"] filter_cong)
  then show ?thesis by (auto simp: map_add_def map_of_filter_key split: option.splits)
qed

lemma injectPathParam_keys:
  "distinct (map fst (hr_query r)) \<Longrightarrow> distinct (map fst (hr_query (injectPathParam queryKey urlParam r)))"
  using distinct_map_filter[of fst "hr_query r" "\<lambda>(k, _). k \<noteq> queryKey"] by (auto simp: injectPathParam_def)

text \<open>The parameters of a GET request reach the service as the client wrote them: a handler
  that decodes the payload into a string map reads, under every key, the first value of that query
  parameter, and nothing under any other key; a path parameter that the router injects is read
  under its key whatever the query string says.\<close>

lemma get_parameters_kept:
  assumes "hr_method r = ''GET''" and "distinct (map fst (hr_query r))" and "urlParam \<noteq> []"
  shows "(\<exists>p. parsePayload num parse_float r = Inr (Some p) \<and>
      unmarshal_smap (Some p) = Some (map_of (first_values (hr_query r)))) \<and>
    (\<exists>p. parsePayload num parse_float (injectPathParam queryKey urlParam r) = Inr (Some p) \<and>
      unmarshal_smap (Some p) = Some ((map_of (first_values (hr_query r)))(queryKey \<mapsto> urlParam)))"
proof -
  have "hr_method (injectPathParam queryKey urlParam r) = ''GET''" using assms(1) by (simp add: injectPathParam_def)
  from get_payload[OF this injectPathParam_keys[OF assms(2)]] get_payload[OF assms(1,2)] show ?thesis
    unfolding injectPathParam_values[OF assms(3)] by blast
qed

definition sample_get :: "(string \<times> string list) list \<Rightarrow> string \<Rightarrow> http_request" where
  "sample_get q session =
     \<lparr>hr_method = ''GET'', hr_query = q, hr_body = NilBody, hr_session = session, hr_admin_secret = []\<rparr>"

text \<open>Acknowledging by path: for every 64-bit id, the id that a client writes into
  \<^verbatim>\<open>PATCH /api/notifications/{id}/ack\<close> is the id the notification service decodes, although it passes
  through a query parameter and a JSON number.\<close>

lemma ack_path_id_kept:
  assumes "in64 i" and "hr_method r = ''PATCH''" and "hr_query r = []" and "hr_body r \<in> {NilBody, EmptyBody, BadBody}"
  shows "\<exists>p. parsePayload num parse_float (injectPathParam ''id'' (Itoa i) r) = Inr (Some p) \<and> decode_ack (Some p) = Some i"
proof -
  have "Itoa i \<noteq> []" using Atoi_Itoa[OF assms(1)] by (auto simp: Atoi_def)
  then have q: "hr_query (injectPathParam ''id'' (Itoa i) r) = [(''id'', [Itoa i])]"
    "hr_method (injectPathParam ''id'' (Itoa i) r) = ''PATCH''" "hr_body (injectPathParam ''id'' (Itoa i) r) = hr_body r"
    using assms by (simp_all add: injectPathParam_def)
  have "patch_body num (hr_body r) = []" using assms(4) by (auto simp: patch_body_def)
  with q have "parsePayload num parse_float (injectPathParam ''id'' (Itoa i) r) = Inr (Some (JObj [(''id'', JInt i)]))"
    by (simp add: parsePayload_def first_values_def queryValue_def Atoi_Itoa[OF assms(1)] marshal_map_def last_wins_def)
  moreover have "decode_ack (Some (JObj [(''id'', JInt i)])) = Some i"
    using assms(1) by (simp add: decode_ack_def unmarshal_obj_def)
  ultimately show ?thesis by blast
qed

end
