(* ===== verification/System_Props.thy ===== *)
theory System_Props
  imports Wiring Gateway_Payload
begin

text \<open>
  Properties of the system as its HTTP clients see it: the gateway of \<open>Producer\<close> in front of the
  consumers of \<open>Wiring\<close>.
\<close>

section \<open>Through the gateway and back\<close>

lemma decode_rpc_request_payload [simp]: "decode_rpc_request (Some (JObj [(''payload'', p)])) = Some (Some p)"
  by (simp add: decode_rpc_request_def unmarshal_obj_def)

lemma forwarded_rpc_headers [simp]: "forwarded_headers (rpc_headers s a) = rpc_headers s a"
  by (auto simp: forwarded_headers_def rpc_headers_def)

lemma decode_rpc_reply_response [simp]:
  "in64 (rpc_status q) \<Longrightarrow>
   decode_rpc_reply (Some (response_json q)) = Some \<lparr>rr_status = rpc_status q, rr_body = Some (rpc_body q)\<rparr>"
  by (simp add: decode_rpc_reply_def response_json_def unmarshal_obj_def)

text \<open>The HTTP response that stands for a handler's result.\<close>

definition response_of :: "goerr + any_result \<Rightarrow> rpc_response" where
  "response_of res =
     (case res of
        Inl e \<Rightarrow> Reply 500 (detail ''internal error'')
      | Inr (Rpc q) \<Rightarrow> q
      | Inr (Plain j) \<Rightarrow> Reply 200 j)"

definition http_of :: "goerr + any_result \<Rightarrow> http_response" where
  "http_of res =
     (let q = response_of res
      in \<lparr>hs_status = rpc_status q, hs_body = (if rpc_status q = 204 then None else Some (rpc_body q))\<rparr>)"

lemma http_of_reply [simp]:
  "http_of (reply s b) = \<lparr>hs_status = s, hs_body = (if s = 204 then None else Some b)\<rparr>"
  by (simp add: http_of_def response_of_def)

lemma dispatch_response:
  assumes "ctx_Err ctx = None" and "h ctx a (Some p) (rpc_headers s adm) w = (res, w')"
  shows "dispatch ctx \<lparr>req_data = Some (JObj [(''payload'', p)]), req_headers = rpc_headers s adm\<rparr> a h w =
    (Respond (response_of res), w')"
  using assms by (auto simp: dispatch_def response_of_def split: sum.splits any_result.splits)

lemma gateway_run:
  assumes "route_any cs subject = Some (a, h)" and "ctx_Err ctx = None"
    and "parsePayload num parse_float r = Inr (Some p)"
    and "h ctx a (Some p) (rpc_headers (hr_session r) (hr_admin_secret r)) w = (res, w')"
    and "in64 (rpc_status (response_of res))"
  shows "proxyHandler num parse_float err_text (serve cs ctx) None subject r w = (http_of res, w')"
  using assms dispatch_response[of ctx h a p "hr_session r" "hr_admin_secret r" w res w', OF assms(2,4)]
  by (simp add: proxyHandler_def call_def serve_def http_of_def Let_def)

definition sample_env :: "(memdb, memredis, memjs) env" where
  "sample_env =
     \<lparr>e_B = mem_bob no_ilike True, e_act = (\<lambda>c. c), e_R = mem_redis True, e_tx = mem_RunInTx True, e_stats_tx = mem_RunInTx True,
      e_pub = publisher_of (Inr mem_js), e_jitter = half, e_sleep = quiet_sleep, e_gen = (\<lambda>pw cost. Inr pw),
      e_compare = (\<lambda>h pw. if h = pw then None else Some (OtherErr ''bcrypt'')), e_getenv = (\<lambda>_. []),
      e_digits = (\<lambda>a k. (a + k) mod 10), e_sid = ''s9'', e_sessionTTL = 86400, e_cacheTTL = 300, e_pingDB = (\<lambda>_. None),
      e_pingRedis = (\<lambda>_. None), e_adminSecret = ''key'', e_natsURL = ''nats''\<rparr>"

definition sample_proxy ::
  "string \<Rightarrow> http_request \<Rightarrow> goerr option list \<Rightarrow> http_response \<times> (memdb, memredis, memjs) world" where
  "sample_proxy subject r faults =
     proxyHandler keep_num no_float (\<lambda>_. []) (serve (all_consumers sample_env) sample_ctx) None subject r (sample_world faults)"

lemma sample_ctx_live: "ctx_Err sample_ctx = None"
  by (simp add: sample_ctx_def)

section \<open>Routes\<close>

definition route_subject_of :: "string \<times> string \<times> string \<times> string option \<Rightarrow> string" where
  "route_subject_of x = (case x of (_, _, subject, _) \<Rightarrow> subject)"

definition endpoints :: "('c, 'r, 'j) consumer list \<Rightarrow> string set" where
  "endpoints cs = {ep_subject (endpoint_of c a) | c a. c \<in> set cs \<and> c_handlers c a \<noteq> None}"

lemma c_handlers_dom:
  "dom (c_handlers (auth_consumer E)) = set [''health'', ''logout'', ''login'', ''register'']"
  "dom (c_handlers (account_consumer E)) = set [''health'', ''user-detail'', ''notifications'', ''transfers'', ''users'',
     ''stats'', ''lookup'', ''balance'', ''me'']"
  "dom (c_handlers (transfer_consumer E)) = set [''health'', ''transfer'']"
  "dom (c_handlers (notification_consumer E)) = set [''health'', ''ack'', ''notifications'']"
  by (simp_all add: wiring)

lemma endpoints_Cons: "endpoints (c # cs) = (\<lambda>a. c_subjectPrefix c @ ''.'' @ a) ` dom (c_handlers c) \<union> endpoints cs"
  by (auto simp: endpoints_def endpoint_of_def Let_def)

lemma endpoints_Nil [simp]: "endpoints [] = {}"
  by (simp add: endpoints_def)

lemma all_endpoints: "endpoints (all_consumers E) = set (map route_subject_of api_routes)"
  unfolding all_consumers_def endpoints_Cons endpoints_Nil c_handlers_dom consumer_prefixes by code_simp

lemma route_any_Some:
  "route_any cs subject = Some (a, h) \<Longrightarrow> \<exists>c \<in> set cs. c_handlers c a = Some h \<and> subject = c_subjectPrefix c @ ''.'' @ a"
  by (induction cs) (auto simp: endpoint_of_def Let_def dest: route_subject split: option.splits)

lemma route_any_endpoint: "subject \<in> endpoints cs \<Longrightarrow> \<exists>a h. route_any cs subject = Some (a, h)"
proof (induction cs)
  case (Cons c cs)
  show ?case
  proof (cases "route c subject")
    case None
    then have "subject \<notin> (\<lambda>a. c_subjectPrefix c @ ''.'' @ a) ` dom (c_handlers c)"
      using route_endpoint[of c] by (fastforce simp: endpoint_of_def Let_def)
    with None Cons show ?thesis by (auto simp: endpoints_Cons)
  qed auto
qed simp

text \<open>Property C19. The route table of the gateway and the endpoints the four services register fit
  together: every route leads to a registered handler, every endpoint is the target of exactly one
  route, and no two routes share a method and a path.\<close>

theorem routes_match_endpoints:
  "endpoints (all_consumers E) = set (map route_subject_of api_routes) \<and>
   distinct (map route_subject_of api_routes) \<and> distinct (map (\<lambda>(m, path, s, k). (m, path)) api_routes) \<and>
   list_all (\<lambda>x. \<exists>a h. route_any (all_consumers E) (route_subject_of x) = Some (a, h)) api_routes"
proof (intro conjI)
  show "endpoints (all_consumers E) = set (map route_subject_of api_routes)" by (rule all_endpoints)
  show "distinct (map route_subject_of api_routes)" by (simp add: api_routes_def route_subject_of_def)
  show "distinct (map (\<lambda>(m, path, s, k). (m, path)) api_routes)" by (simp add: api_routes_def)
  show "list_all (\<lambda>x. \<exists>a h. route_any (all_consumers E) (route_subject_of x) = Some (a, h)) api_routes"
    unfolding list_all_iff by (intro ballI route_any_endpoint) (simp add: all_endpoints)
qed

section \<open>Guards\<close>

definition open_subjects :: "string list" where
  "open_subjects =
     [''banking.auth.register'', ''banking.auth.login'', ''banking.auth.health'', ''banking.account.health'',
      ''banking.transfer.health'', ''banking.notification.health'']"

definition admin_subjects :: "string list" where
  "admin_subjects =
     [''banking.account.stats'', ''banking.account.users'', ''banking.account.user-detail'',
      ''banking.account.transfers'', ''banking.account.notifications'']"

definition session_subjects :: "string list" where
  "session_subjects =
     [''banking.auth.logout'', ''banking.account.balance'', ''banking.account.me'', ''banking.account.lookup'',
      ''banking.transfer.transfer'', ''banking.notification.notifications'', ''banking.notification.ack'']"

lemma subjects_partition:
  "set (map route_subject_of api_routes) = set (open_subjects @ session_subjects @ admin_subjects)"
  by code_simp

text \<open>The handler behind a subject is that of the consumer whose prefix the subject has.\<close>

lemma route_any_prefix:
  "route_any (all_consumers E) (''banking.auth.'' @ a) = map_option (Pair a) (c_handlers (auth_consumer E) a)"
  "route_any (all_consumers E) (''banking.account.'' @ b) = map_option (Pair b) (c_handlers (account_consumer E) b)"
  "route_any (all_consumers E) (''banking.transfer.'' @ c) = map_option (Pair c) (c_handlers (transfer_consumer E) c)"
  "route_any (all_consumers E) (''banking.notification.'' @ d) = map_option (Pair d) (c_handlers (notification_consumer E) d)"
  by (simp_all add: all_consumers_def route_def starts_with_iff consumer_prefixes split: option.splits)

lemma session_handlers:
  "c_handlers (auth_consumer E) ''logout'' = Some (RequireSession (e_R E) (handleLogout (e_R E)))"
  "c_handlers (account_consumer E) ''balance'' = Some (RequireSession (e_R E) (handleBalance (e_pool E) (e_R E)))"
  "c_handlers (account_consumer E) ''me'' = Some (RequireSession (e_R E) (handleMe (e_pool E)))"
  "c_handlers (account_consumer E) ''lookup'' = Some (RequireSession (e_R E) (handleLookup (e_pool E)))"
  "c_handlers (transfer_consumer E) ''transfer'' = Some (RequireSession (e_R E)
     (handleTransfer (e_B E) (e_tx E) (e_R E) (e_pub E) (e_jitter E) (e_sleep E)))"
  "c_handlers (notification_consumer E) ''notifications'' = Some (RequireSession (e_R E) (handleNotifications (e_pool E)))"
  "c_handlers (notification_consumer E) ''ack'' = Some (RequireSession (e_R E) (handleAck (e_pool E)))"
  by (simp_all add: wiring SessionMiddleware_def)

lemma admin_handlers:
  "c_handlers (account_consumer E) ''stats'' =
     Some (RequireAdmin (e_adminSecret E) (e_R E) (handleAdminStats (e_pool E) (e_stats_tx E)))"
  "c_handlers (account_consumer E) ''users'' = Some (RequireAdmin (e_adminSecret E) (e_R E) (handleAdminUsers (e_pool E)))"
  "c_handlers (account_consumer E) ''user-detail'' =
     Some (RequireAdmin (e_adminSecret E) (e_R E) (handleAdminUserDetail (e_pool E)))"
  "c_handlers (account_consumer E) ''transfers'' =
     Some (RequireAdmin (e_adminSecret E) (e_R E) (handleAdminTransfers (e_pool E)))"
  "c_handlers (account_consumer E) ''notifications'' =
     Some (RequireAdmin (e_adminSecret E) (e_R E) (handleAdminNotifications (e_pool E)))"
  by (simp_all add: wiring AdminMiddleware_def)

lemmas auth_route_any = route_any_prefix(1)[where a = "''logout''"]
lemmas account_route_any = route_any_prefix(2)[where b = "''balance''"] route_any_prefix(2)[where b = "''me''"]
  route_any_prefix(2)[where b = "''lookup''"] route_any_prefix(2)[where b = "''stats''"]
  route_any_prefix(2)[where b = "''users''"] route_any_prefix(2)[where b = "''user-detail''"]
  route_any_prefix(2)[where b = "''transfers''"] route_any_prefix(2)[where b = "''notifications''"]
lemmas notification_route_any = route_any_prefix(4)[where d = "''notifications''"] route_any_prefix(4)[where d = "''ack''"]
lemmas guarded_routes = auth_route_any[unfolded session_handlers]
  account_route_any[unfolded session_handlers admin_handlers]
  route_any_prefix(3)[where c = "''transfer''", unfolded session_handlers]
  notification_route_any[unfolded session_handlers]

lemma session_route:
  assumes "subject \<in> set session_subjects"
  obtains a nxt where "route_any (all_consumers E) subject = Some (a, RequireSession (e_R E) nxt)"
  using assms guarded_routes[of E, simplified append_Cons append_Nil option.map]
  by (auto simp: session_subjects_def)

lemma admin_route:
  assumes "subject \<in> set admin_subjects"
  obtains a nxt where "route_any (all_consumers E) subject = Some (a, RequireAdmin (e_adminSecret E) (e_R E) nxt)"
  using assms guarded_routes[of E, simplified append_Cons append_Nil option.map]
  by (auto simp: admin_subjects_def)

lemma gateway_cases:
  assumes "proxyHandler num parse_float err_text (serve cs ctx) ctxErr subject r w = (resp, w')"
    and "route_any cs subject = Some (a, h)"
  obtains (not_run) "w' = w" "hs_status resp \<in> {400, 502, 503, 504}"
  | (run) p res where "parsePayload num parse_float r = Inr (Some p)"
      "h ctx a (Some p) (rpc_headers (hr_session r) (hr_admin_secret r)) w = (res, w')"
      "resp = http_of res \<or> hs_status resp = 502"
proof -
  consider (run) p where "parsePayload num parse_float r = Inr (Some p)" "ctxErr = None" "ctx_Err ctx = None"
    | (not_run) "w' = w" "hs_status resp \<in> {400, 502, 503, 504}"
    using assms
    by (auto simp: proxyHandler_def call_def serve_def dispatch_def split: sum.splits option.splits if_splits)
  then show thesis
  proof cases
    case run
    obtain res w1 where h: "h ctx a (Some p) (rpc_headers (hr_session r) (hr_admin_secret r)) w = (res, w1)"
      by fastforce
    let ?req = "\<lparr>req_data = Some (JObj [(''payload'', p)]), req_headers = rpc_headers (hr_session r) (hr_admin_secret r)\<rparr>"
    have d: "dispatch ctx ?req a h w = (Respond (response_of res), w1)"
      using h run(3) by (intro dispatch_response)
    have "w' = w1 \<and> (resp = http_of res \<or> hs_status resp = 502)"
      using assms run d
      by (auto simp: proxyHandler_def call_def serve_def http_of_def Let_def response_json_def
          decode_rpc_reply_def unmarshal_obj_def split: option.splits if_splits)
    with run h that(2) show thesis by blast
  qed (rule that(1))
qed

text \<open>What the gateway answers on a subject behind a guard, without a session.\<close>

context guard
begin

lemma gateway_refuses:
  assumes "route_any cs subject = Some (a, mw nxt)"
    and "r_string (keys (w_redis w)) (session_key (hr_session r)) = None"
    and "proxyHandler num parse_float err_text (serve cs ctx) ctxErr subject r w = (resp, w')"
  shows "hs_status resp \<in> refusals \<union> {400, 502, 503, 504} \<and> w_db w' = w_db w \<and> w_js w' = w_js w \<and>
    expired (keys (w_redis w)) (keys (w_redis w'))"
  using assms(3,1)
proof (cases rule: gateway_cases)
  case (run p res)
  from refuses[of w "rpc_headers (hr_session r) (hr_admin_secret r)" nxt ctx a "Some p" res w'] run(2) assms(2) obtain s b r' where
    "res = reply s b" "s \<in> refusals" "w' = w\<lparr>w_redis := r'\<rparr>" "expired (keys (w_redis w)) (keys r')"
    by (auto simp: rpc_headers_def)
  with run(3) show ?thesis by auto
qed (auto simp: expired_refl)

end

text \<open>Property C12. Nobody gets at the accounts without a session: on every route but registration, login
  and the health checks, a request whose token Redis does not hold is refused, with a status that is
  no success, and neither the database nor the event stream is touched; in Redis nothing changes but
  expiry.\<close>

theorem no_access_without_session:
  assumes "redis_service (e_R E) keys"
    and "subject \<in> set (map route_subject_of api_routes)" and "subject \<notin> set open_subjects"
    and "r_string (keys (w_redis w)) (session_key (hr_session r)) = None"
    and "proxyHandler num parse_float err_text (serve (all_consumers E) ctx) ctxErr subject r w = (resp, w')"
  shows "hs_status resp \<in> {400, 401, 403, 500, 502, 503, 504} \<and> w_db w' = w_db w \<and> w_js w' = w_js w \<and>
    expired (keys (w_redis w)) (keys (w_redis w'))"
proof (cases "subject \<in> set session_subjects")
  case True
  from session_route[OF True, of E] obtain a nxt where
    "route_any (all_consumers E) subject = Some (a, RequireSession (e_R E) nxt)" .
  with guard.gateway_refuses[OF session_guard[OF assms(1)], of "all_consumers E" subject a nxt w r num parse_float err_text ctx
      ctxErr resp w'] assms(4,5) show ?thesis by auto
next
  case False
  with assms(2,3) have "subject \<in> set admin_subjects" unfolding subjects_partition by simp
  from admin_route[OF this, of E] obtain a nxt where
    "route_any (all_consumers E) subject = Some (a, RequireAdmin (e_adminSecret E) (e_R E) nxt)" .
  with guard.gateway_refuses[OF admin_guard[OF assms(1), of "e_adminSecret E"], of "all_consumers E" subject a nxt w r num parse_float err_text ctx
      ctxErr resp w'] assms(4,5) show ?thesis by auto
qed

theorem no_access_without_session_witness:
  "hs_status (fst (sample_proxy ''banking.account.me'' (sample_get [] ''forged'') [])) \<in> {400, 401, 403, 500, 502, 503, 504} \<and>
   w_db (snd (sample_proxy ''banking.account.me'' (sample_get [] ''forged'') [])) = w_db (sample_world [])"
proof -
  have R: "redis_service (e_R sample_env) mr_keys"
    unfolding sample_env_def by (simp add: mred.redis_service_axioms)
  have s: "''banking.account.me'' \<in> set (map route_subject_of api_routes)" "''banking.account.me'' \<notin> set open_subjects"
    by code_simp+
  have n: "r_string (mr_keys (w_redis (sample_world []))) (session_key (hr_session (sample_get [] ''forged''))) = None"
    by code_simp
  have run: "proxyHandler keep_num no_float (\<lambda>_. []) (serve (all_consumers sample_env) sample_ctx) None
      ''banking.account.me'' (sample_get [] ''forged'') (sample_world []) =
      (fst (sample_proxy ''banking.account.me'' (sample_get [] ''forged'') []),
       snd (sample_proxy ''banking.account.me'' (sample_get [] ''forged'') []))"
    by (simp add: sample_proxy_def)
  show ?thesis using no_access_without_session[OF R s n run] by blast
qed

text \<open>Property C16. The admin routes are closed to whoever does not send the admin secret: the reply is 403
  and nothing at all changes, not even in Redis, whatever session token is sent.\<close>

theorem admin_needs_secret:
  assumes "subject \<in> set admin_subjects" and "hr_method r = ''GET''" and "hr_admin_secret r \<noteq> e_adminSecret E"
    and "ctx_Err ctx = None"
  shows "proxyHandler num parse_float err_text (serve (all_consumers E) ctx) None subject r w =
    (\<lparr>hs_status = 403, hs_body = Some (detail ''Forbidden'')\<rparr>, w)"
proof -
  from admin_route[OF assms(1), of E] obtain a nxt where
    route: "route_any (all_consumers E) subject = Some (a, RequireAdmin (e_adminSecret E) (e_R E) nxt)" .
  obtain p where p: "parsePayload num parse_float r = Inr (Some p)" using assms(2) by (simp add: parsePayload_def)
  have "RequireAdmin (e_adminSecret E) (e_R E) nxt ctx a (Some p) (rpc_headers (hr_session r) (hr_admin_secret r)) w =
      (reply 403 (detail ''Forbidden''), w)"
    using assms(3) by (simp add: RequireAdmin_def rpc_headers_def)
  from gateway_run[OF route assms(4) p this] show ?thesis by (simp add: response_of_def in64_def)
qed

theorem admin_needs_secret_witness:
  "sample_proxy ''banking.account.users'' (sample_get [] ''s1'') [] =
     (\<lparr>hs_status = 403, hs_body = Some (detail ''Forbidden'')\<rparr>, sample_world [])"
  unfolding sample_proxy_def
  by (rule admin_needs_secret) (simp_all add: admin_subjects_def sample_get_def sample_env_def sample_ctx_live)

section \<open>A transfer, end to end\<close>

lemma valid_payload_cong: "decode_transfer_payload a = decode_transfer_payload b \<Longrightarrow> valid_payload a = valid_payload b"
  by (simp add: valid_payload_def)

lemma http_of_200: "hs_status (http_of res) = 200 \<Longrightarrow>
    (\<exists>b. response_of res = Reply 200 b \<and> hs_body (http_of res) = Some b)"
  by (cases "response_of res") (auto simp: http_of_def Let_def Reply_def)

lemma ctx_ok_withUserID [simp]: "ctx_ok (withUserID ctx i) = ctx_ok ctx"
  by (simp add: ctx_ok_def withUserID_def)

lemma transfer_behind_session:
  assumes "transfer_backend B tables ilike RunInTx" and "redis_service R keys"
    and "db_wf (tables (w_db w))" and "keeps_wf tables sleep" and "ctx_ok ctx"
    and "RequireSession R (handleTransfer B RunInTx R pub rnd sleep) ctx action raw headers w = (res, w')"
    and "response_of res = Reply 200 body"
  shows "\<exists>v ttl uid p d tr. r_string (keys (w_redis w)) (session_key (headers ''x-session'')) = Some (v, ttl) \<and>
    Atoi (as_text v) = Some uid \<and> valid_payload raw = Some p \<and> (interference tables sleep)\<^sup>*\<^sup>* (tables (w_db w)) d \<and>
    transfer_spec uid p d tr (tables (w_db w')) \<and>
    body = JObj [(''transfer_id'', JInt (tr_transferID tr)), (''amount'', JInt (tp_amount p))]"
proof (cases rule: redis_service.RequireSession_cases[OF assms(2), of "handleTransfer B RunInTx R pub rnd sleep" ctx action raw headers w])
  case (1 uid r' v ttl)
  let ?ctx = "withUserID ctx uid" and ?w = "w\<lparr>w_redis := r'\<rparr>"
  have run: "handleTransfer B RunInTx R pub rnd sleep ?ctx action raw headers ?w = (res, w')" using 1(1) assms(6) by simp
  have hyps: "db_wf (tables (w_db ?w))" "ctx_ok ?ctx" using assms(3,5) by simp_all
  from assms(1) run hyps(1) assms(4) hyps(2) show ?thesis
  proof (cases rule: handler_outcome)
    case (success p d tr)
    then have "res = fst (after_commit R pub p tr (?w\<lparr>w_db := w_db w'\<rparr>))" by (metis fst_conv)
    then have "body = JObj [(''transfer_id'', JInt (tr_transferID tr)), (''amount'', JInt (tp_amount p))]"
      using assms(7) by (simp add: response_of_def)
    with 1 success show ?thesis by fastforce
  next
    case (failed p e tr)
    then show ?thesis using assms(7) by (simp add: response_of_def answer_def split: if_splits)
  qed (use assms(7) in \<open>auto simp: response_of_def\<close>)
next
  case (2 r' s b)
  with assms(6,7) show ?thesis by (auto simp: response_of_def)
qed

text \<open>Property C11. A client that gets 200 from \<^verbatim>\<open>POST /api/transfers\<close> has made exactly the transfer its
  body asks for: the token of the request is a live session of some user, and the tables changed, at
  one moment of the serial order, as \<open>transfer_spec\<close> says for that user as the sender and for the
  payload as the client wrote it; the body returned names the new transfer row.\<close>

theorem http_transfer_ok:
  assumes "transfer_backend (e_B E) tables ilike (e_tx E)" and "redis_service (e_R E) keys" and "float_exact num"
    and "db_wf (tables (w_db w))" and "keeps_wf tables (e_sleep E)" and "ctx_ok ctx"
    and "hr_method r = ''POST''" and "hr_body r = JsonBody (JObj ms)" and "\<forall>m \<in> set ms. plain_value (snd m)"
    and "distinct (map fst ms)" and "set (map fst ms) \<subseteq> set transfer_payload_fields"
    and "proxyHandler num parse_float err_text (serve (all_consumers E) ctx) ctxErr ''banking.transfer.transfer'' r w = (resp, w')"
    and "hs_status resp = 200"
  shows "\<exists>v ttl uid p d tr. r_string (keys (w_redis w)) (session_key (hr_session r)) = Some (v, ttl) \<and>
    Atoi (as_text v) = Some uid \<and> valid_payload (Some (JObj ms)) = Some p \<and>
    (interference tables (e_sleep E))\<^sup>*\<^sup>* (tables (w_db w)) d \<and> transfer_spec uid p d tr (tables (w_db w')) \<and>
    hs_body resp = Some (JObj [(''transfer_id'', JInt (tr_transferID tr)), (''amount'', JInt (tp_amount p))])"
proof -
  note route = guarded_routes[of E, simplified append_Cons append_Nil option.map]
  from assms(12) route(10) show ?thesis
  proof (cases rule: gateway_cases)
    case not_run
    with assms(13) show ?thesis by auto
  next
    case (run p res)
    from run(1) post_payload[OF assms(3,7-9), of parse_float] have p: "p = JObj (last_wins ms)" by simp
    from run(3) assms(13) have "resp = http_of res" by auto
    with assms(13) http_of_200 obtain b where b: "response_of res = Reply 200 b" "hs_body resp = Some b" by blast
    have "valid_payload (Some p) = valid_payload (Some (JObj ms))"
      unfolding p by (rule valid_payload_cong) (rule decode_transfer_sorted[OF assms(10,11)])
    with transfer_behind_session[OF assms(1,2,4-6) run(2) b(1)] b(2) show ?thesis
      by (simp add: rpc_headers_def)
  qed
qed

theorem http_transfer_ok_witness:
  "\<exists>p d tr. valid_payload pay_bob = Some p \<and> transfer_spec 1 p d tr
      (m_db (w_db (snd (sample_proxy ''banking.transfer.transfer'' (sample_post [(''phone'', JStr '' 0902 ''), (''amount'', JInt 30)] ''s1'')
         [Some (PgError ''40001'')]))))"
proof -
  let ?ms = "[(''phone'', JStr '' 0902 ''), (''amount'', JInt 30)]"
  let ?run = "sample_proxy ''banking.transfer.transfer'' (sample_post ?ms ''s1'') [Some (PgError ''40001'')]"
  let ?w = "sample_world [Some (PgError ''40001'')]"
  have B: "transfer_backend (e_B sample_env) m_db no_ilike (e_tx sample_env)"
    unfolding sample_env_def by (simp add: sample_backend)
  have R: "redis_service (e_R sample_env) mr_keys"
    unfolding sample_env_def by (simp add: mred.redis_service_axioms)
  have s: "keeps_wf m_db (e_sleep sample_env)" using sample_hyps by (simp add: sample_env_def)
  have body: "hr_method (sample_post ?ms ''s1'') = ''POST''" "hr_body (sample_post ?ms ''s1'') = JsonBody (JObj ?ms)"
    "\<forall>m \<in> set ?ms. plain_value (snd m)" "distinct (map fst ?ms)" "set (map fst ?ms) \<subseteq> set transfer_payload_fields"
    by (simp_all add: sample_post_def transfer_payload_fields_def)
  have run: "proxyHandler keep_num no_float (\<lambda>_. []) (serve (all_consumers sample_env) sample_ctx) None
      ''banking.transfer.transfer'' (sample_post ?ms ''s1'') ?w = (fst ?run, snd ?run)"
    by (simp add: sample_proxy_def)
  have ok: "hs_status (fst ?run) = 200" by code_simp
  have sess: "r_string (mr_keys (w_redis ?w)) (session_key (hr_session (sample_post ?ms ''s1''))) = Some (RText ''1'', 86400000000000)"
    "Atoi (as_text (RText ''1'')) = Some 1"
    by (code_simp, code_simp)
  from http_transfer_ok[OF B R keep_num_exact sample_hyps(1) s sample_hyps(3) body run ok] sess show ?thesis
    by (fastforce simp: pay_bob_def)
qed

end
