(* ===== verification/Bank_System.thy ===== *)
theory Bank_System
  imports Bank_Handlers System_Props
begin

text \<open>
  The running system as the abstract bank of \<open>Bank_Ledger\<close>: every HTTP request contributes at most one
  event, one that its session is entitled to. Sequences of requests, from the empty tables of the
  migrations, therefore keep \<open>bank_inv\<close>.

  Requests run side by side: other sessions commit between the statements that a handler sends
  outside transactions, and between the attempts of a transaction. The locale \<open>bank_services\<close> relies on
  those sessions being sessions of this bank (\<open>others\<close>), which is what it guarantees of every request.
\<close>

section \<open>The system\<close>

text \<open>The laws of the external services the system uses, and the reliance on the other sessions.\<close>

locale bank_services = transfer_backend "e_B E" tables ilike "e_tx E" + pool: shared_postgres "e_B E" tables ilike "e_act E" others +
    stats: read_committed "e_stats_tx E" tables others + redis_service "e_R E" keys
  for E :: "('c, 'r, 'j) env" and tables :: "'c \<Rightarrow> db" and ilike and keys :: "'r \<Rightarrow> keyspace" and others +
  assumes others_sleep: "others\<^sup>*\<^sup>* (tables c) (tables (e_sleep E i c))"
    and others_bank: "others d d' \<Longrightarrow> bank_step\<^sup>*\<^sup>* d d'"
begin

lemma others_steps: "others\<^sup>*\<^sup>* d d' \<Longrightarrow> bank_step\<^sup>*\<^sup>* d d'"
  by (induction rule: rtranclp_induct) (auto dest: others_bank intro: rtranclp_trans)

lemma sleep_keeps_wf: "keeps_wf tables (e_sleep E)"
  using others_steps[OF others_sleep] bank_steps_wf unfolding keeps_wf_def by blast

lemma served_bank: "served others may d d' \<Longrightarrow> bank_step\<^sup>*\<^sup>* d d'"
  unfolding served_def bank_step_def[abs_def] using others_steps[unfolded bank_step_def[abs_def]]
  by (metis (mono_tags, lifting) rtranclp.rtrancl_into_rtrancl)

end

interpretation sample: bank_services sample_env m_db no_ilike mr_keys "(=)"
  by (simp add: bank_services_def bank_services_axioms_def sample_env_def quiet_sleep_def sample_backend
      mem_alone.shared_postgres_axioms mem_rc.read_committed_axioms mred.redis_service_axioms)

section \<open>Requests\<close>

lemma RequireSession_reads: "reads_only others tables h \<Longrightarrow> reads_only others tables (RequireSession R h)"
  by rule (auto simp: RequireSession_def dest: reads_onlyD split: prod.splits sum.splits)

lemma RequireAdmin_reads: "reads_only others tables h \<Longrightarrow> reads_only others tables (RequireAdmin secret R h)"
  by rule (auto simp: RequireAdmin_def dest: reads_onlyD split: prod.splits sum.splits if_splits)

text \<open>The user a session token stands for, and the events a request on a subject may cause.\<close>

definition session_user :: "keyspace \<Rightarrow> string \<Rightarrow> int option" where
  "session_user ks token = (case r_string ks (session_key token) of None \<Rightarrow> None | Some (v, ttl) \<Rightarrow> Atoi (as_text v))"

fun entitled :: "keyspace \<Rightarrow> string \<Rightarrow> string \<Rightarrow> bank_label \<Rightarrow> bool" where
  "entitled ks token subject (Opened i) \<longleftrightarrow> subject = ''banking.auth.register''"
| "entitled ks token subject (Moved s r a) \<longleftrightarrow> subject = ''banking.transfer.transfer'' \<and> session_user ks token = Some s"
| "entitled ks token subject (MarkedRead i u) \<longleftrightarrow> subject = ''banking.notification.ack'' \<and> session_user ks token = Some u"

context bank_services
begin

lemma handlers_by_effect:
  assumes "route_any (all_consumers E) subject = Some (a, h)"
  obtains (reading) "reads_only others tables h"
  | (register) "subject = ''banking.auth.register''" "h = handleRegister (e_pool E) (e_gen E) (e_getenv E) (e_digits E)"
  | (transfer) "subject = ''banking.transfer.transfer''"
      "h = RequireSession (e_R E) (handleTransfer (e_B E) (e_tx E) (e_R E) (e_pub E) (e_jitter E) (e_sleep E))"
  | (ack) "subject = ''banking.notification.ack''" "h = RequireSession (e_R E) (handleAck (e_pool E))"
proof -
  note reading_handlers = pool.handleMe_reads pool.handleBalance_reads pool.handleLookup_reads pool.handleAdminUsers_reads
    pool.handleAdminTransfers_reads pool.handleAdminNotifications_reads pool.handleAdminUserDetail_reads
    pool.handleNotifications_reads pool.handleLogin_reads handleLogout_reads NATSHandler_reads RequireSession_reads RequireAdmin_reads
    handleAdminStats_reads[OF pool.shared_postgres_axioms stats.read_committed_axioms]
  from route_any_Some[OF assms] obtain c where c: "c \<in> set (all_consumers E)" "c_handlers c a = Some h"
    "subject = c_subjectPrefix c @ ''.'' @ a" by blast
  then consider "c = auth_consumer E" | "c = account_consumer E" | "c = transfer_consumer E" | "c = notification_consumer E"
    by (auto simp: all_consumers_def)
  then have "reads_only others tables h \<or>
     subject = ''banking.auth.register'' \<and> h = handleRegister (e_pool E) (e_gen E) (e_getenv E) (e_digits E) \<or>
     subject = ''banking.transfer.transfer'' \<and>
       h = RequireSession (e_R E) (handleTransfer (e_B E) (e_tx E) (e_R E) (e_pub E) (e_jitter E) (e_sleep E)) \<or>
     subject = ''banking.notification.ack'' \<and> h = RequireSession (e_R E) (handleAck (e_pool E))"
    by cases (use c(2,3) in
      \<open>auto simp: wiring SessionMiddleware_def AdminMiddleware_def e_pool_def reading_handlers split: if_splits\<close>)
  with that show thesis by blast
qed

lemma session_served:
  assumes "RequireSession (e_R E) nxt ctx a raw (rpc_headers token secret) w = (r, w')"
    and "ctx_ok ctx" and "db_wf (tables (w_db w))"
    and "\<And>ctx w r w'. nxt ctx a raw (rpc_headers token secret) w = (r, w') \<Longrightarrow> ctx_ok ctx \<Longrightarrow> db_wf (tables (w_db w)) \<Longrightarrow>
      served others (may (sender_of ctx)) (tables (w_db w)) (tables (w_db w'))"
  shows "served others (\<lambda>l. \<exists>uid. session_user (keys (w_redis w)) token = Some uid \<and> may uid l)
    (tables (w_db w)) (tables (w_db w'))"
proof (cases rule: RequireSession_cases[of nxt ctx a raw "rpc_headers token secret" w])
  case (run uid r' v ttl)
  have "ctx_ok (withUserID ctx uid)" using assms(2) by (simp add: ctx_ok_def withUserID_def)
  with assms(1,3) run(1) assms(4)[of "withUserID ctx uid" "w\<lparr>w_redis := r'\<rparr>" r w']
  have "served others (may uid) (tables (w_db w)) (tables (w_db w'))" by simp
  moreover have "session_user (keys (w_redis w)) token = Some uid"
    using run(3,4) by (simp add: session_user_def rpc_headers_def)
  ultimately show ?thesis by (auto elim: served_mono)
next
  case (refused r' s b)
  with assms(1) show ?thesis by (auto intro: served_same)
qed

lemma request_served:
  assumes "proxyHandler num parse_float err_text (serve (all_consumers E) ctx) ctxErr subject r w = (resp, w')"
    and "ctx_ok ctx" and "db_wf (tables (w_db w))"
  shows "served others (entitled (keys (w_redis w)) (hr_session r) subject) (tables (w_db w)) (tables (w_db w'))"
proof (cases "route_any (all_consumers E) subject")
  case None
  with assms(1) have "w' = w"
    by (auto simp: proxyHandler_def call_def serve_def split: sum.splits option.splits if_splits)
  then show ?thesis by (simp add: served_same)
next
  case (Some ah)
  obtain a h where ah: "route_any (all_consumers E) subject = Some (a, h)" using Some by (cases ah) auto
  from assms(1) ah show ?thesis
  proof (cases rule: gateway_cases)
    case not_run
    then show ?thesis by (simp add: served_same)
  next
    case (run p res)
    note run = run(2)
    from ah show ?thesis
    proof (cases rule: handlers_by_effect)
      case reading
      with run show ?thesis by (auto dest: reads_onlyD intro: served_others)
    next
      case register
      from pool.handleRegister_served[OF run[unfolded register(2) e_pool_def]] show ?thesis
        by (rule served_mono) (auto simp: register(1))
    next
      case transfer
      have "served others (\<lambda>l. \<exists>uid. session_user (keys (w_redis w)) (hr_session r) = Some uid \<and>
          (\<exists>rid amt. l = Moved uid rid amt)) (tables (w_db w)) (tables (w_db w'))"
        by (rule session_served[OF run[unfolded transfer(2)] assms(2,3)]) (rule handleTransfer_served[OF _ _ sleep_keeps_wf _ others_sleep])
      then show ?thesis by (rule served_mono) (auto simp: transfer(1))
    next
      case ack
      have "served others (\<lambda>l. \<exists>uid. session_user (keys (w_redis w)) (hr_session r) = Some uid \<and>
          (\<exists>i. l = MarkedRead i uid)) (tables (w_db w)) (tables (w_db w'))"
        by (rule session_served[OF run[unfolded ack(2) e_pool_def] assms(2,3)]) (rule pool.handleAck_served)
      then show ?thesis by (rule served_mono) (auto simp: ack(1))
    qed
  qed
qed

end

section \<open>Sequences of requests\<close>

text \<open>A step of the whole system: an HTTP request on any subject with any payload, session and
  cancellation; or anything that happens outside the tables (expiry, the projection, other clients
  of Redis and JetStream, a fault).\<close>

inductive sys_step ::
  "('c, 'r, 'j) env \<Rightarrow> ('c \<Rightarrow> db) \<Rightarrow> ('c, 'r, 'j) world \<Rightarrow> ('c, 'r, 'j) world \<Rightarrow> bool" for E tables where
  request: "ctx_ok ctx \<Longrightarrow>
    proxyHandler num parse_float err_text (serve (all_consumers E) ctx) ctxErr subject r w = (resp, w') \<Longrightarrow>
    sys_step E tables w w'"
| elsewhere: "tables (w_db w') = tables (w_db w) \<Longrightarrow> sys_step E tables w w'"

context bank_services
begin

lemma sys_step_bank:
  assumes "sys_step E tables w w'" and "db_wf (tables (w_db w))"
  shows "bank_step\<^sup>*\<^sup>* (tables (w_db w)) (tables (w_db w'))"
  using assms by (induction rule: sys_step.induct) (auto dest: request_served served_bank)

lemma sys_steps_bank:
  assumes "(sys_step E tables)\<^sup>*\<^sup>* w w'" and "db_wf (tables (w_db w))"
  shows "bank_step\<^sup>*\<^sup>* (tables (w_db w)) (tables (w_db w'))"
  using assms
proof (induction rule: rtranclp_induct)
  case (step w1 w2)
  then have "bank_step\<^sup>*\<^sup>* (tables (w_db w)) (tables (w_db w1))" by blast
  moreover have "bank_step\<^sup>*\<^sup>* (tables (w_db w1)) (tables (w_db w2))"
    using step sys_step_bank bank_steps_wf by blast
  ultimately show ?case by (rule rtranclp_trans)
qed simp

end

section \<open>Properties\<close>

definition open_post :: "string \<Rightarrow> string \<Rightarrow> http_request" where
  "open_post phone username =
     sample_post [(''phone'', JStr phone), (''username'', JStr username), (''password'', JStr ''pw'')] []"

definition empty_world :: "(memdb, memredis, memjs) world" where
  "empty_world = (sample_world [])\<lparr>w_db := \<lparr>m_db = empty_db, m_now = 0, m_faults = []\<rparr>\<rparr>"

definition sample_request ::
  "string \<Rightarrow> http_request \<Rightarrow> (memdb, memredis, memjs) world \<Rightarrow> http_response \<times> (memdb, memredis, memjs) world" where
  "sample_request subject r w =
     proxyHandler keep_num no_float (\<lambda>_. []) (serve (all_consumers sample_env) sample_ctx) None subject r w"

definition one_account :: "(memdb, memredis, memjs) world" where
  "one_account = snd (sample_request ''banking.auth.register'' (open_post ''0901'' ''alice'') empty_world)"

lemma sample_request_step: "sys_step sample_env m_db w (snd (sample_request subject r w))"
  by (rule request[OF sample_hyps(3)]) (auto simp: sample_request_def prod_eq_iff)

lemma one_account_table:
  "m_db (w_db one_account) = empty_db\<lparr>users := [new_user 1 ''0901'' ''012345678901'' ''alice'' ''pw'']\<rparr>"
  by code_simp

text \<open>Property C5. Every HTTP request is at most one event of the bank: whatever subject, payload and
  session it carries, and whatever faults occur, the tables change, after what other sessions
  committed between its statements and attempts (\<open>others\<close>), by nothing or by a single event, and only
  by one that the request is entitled to: accounts are opened by registration alone, money leaves only the
  account of the user whose session the request carries, and only that user's notifications are
  marked as read.\<close>

theorem request_is_one_bank_event:
  assumes "bank_services E tables ilike keys others" and "ctx_ok ctx" and "db_wf (tables (w_db w))"
    and "proxyHandler num parse_float err_text (serve (all_consumers E) ctx) ctxErr subject r w = (resp, w')"
  shows "\<exists>d. others\<^sup>*\<^sup>* (tables (w_db w)) d \<and>
    (tables (w_db w') = d \<or>
     (\<exists>l. entitled (keys (w_redis w)) (hr_session r) subject l \<and> bank_event l d (tables (w_db w'))))"
  using bank_services.request_served[OF assms(1,4,2,3)] by (simp add: served_def)

theorem request_is_one_bank_event_witness:
  "\<exists>l. entitled (mr_keys (w_redis empty_world)) [] ''banking.auth.register'' l \<and>
     bank_event l empty_db (m_db (w_db one_account))"
proof -
  have run: "proxyHandler keep_num no_float (\<lambda>_. []) (serve (all_consumers sample_env) sample_ctx) None
      ''banking.auth.register'' (open_post ''0901'' ''alice'') empty_world =
      (fst (sample_request ''banking.auth.register'' (open_post ''0901'' ''alice'') empty_world), one_account)"
    by (simp add: sample_request_def one_account_def)
  have wf: "db_wf (m_db (w_db empty_world))" by code_simp
  have start: "m_db (w_db empty_world) = empty_db" "hr_session (open_post ''0901'' ''alice'') = []"
    by (simp_all add: empty_world_def open_post_def sample_post_def)
  have "m_db (w_db one_account) \<noteq> empty_db" by (simp add: one_account_table empty_db_def)
  with request_is_one_bank_event[OF sample.bank_services_axioms sample_hyps(3) wf run] show ?thesis
    by (simp add: start sample_env_def)
qed

text \<open>Property C4. The books always balance: after any sequence of requests, from the empty tables the
  migrations create, whatever was sent and whatever failed, the schema's constraints hold, every
  balance is non-negative and equals the opening balance plus what the account received minus what
  it sent, all balances add up to the opening balances, and there are twice as many notifications as
  transfers; from then on no account disappears and no recorded transfer is changed.\<close>

theorem books_always_balance:
  assumes "bank_services E tables ilike keys others" and "tables (w_db w0) = empty_db"
    and "(sys_step E tables)\<^sup>*\<^sup>* w0 w1" and "(sys_step E tables)\<^sup>*\<^sup>* w1 w2"
  shows "db_wf (tables (w_db w2)) \<and>
    list_all (\<lambda>u. 0 \<le> u_balance u \<and> u_balance u =
      100000 + received_by (u_id u) (transfers (tables (w_db w2))) - sent_by (u_id u) (transfers (tables (w_db w2))))
      (users (tables (w_db w2))) \<and>
    total_balance (tables (w_db w2)) = 100000 * int (length (users (tables (w_db w2)))) \<and>
    length (notifications (tables (w_db w2))) = 2 * length (transfers (tables (w_db w2))) \<and>
    history_kept (tables (w_db w1)) (tables (w_db w2))"
proof -
  have inv0: "bank_inv (tables (w_db w0))" using assms(2) bank_inv_empty by simp
  have inv1: "bank_inv (tables (w_db w1))"
    by (rule bank_steps_inv[OF bank_services.sys_steps_bank[OF assms(1,3)] inv0]) (use inv0 in \<open>simp add: bank_inv_def\<close>)
  have run: "bank_step\<^sup>*\<^sup>* (tables (w_db w1)) (tables (w_db w2))"
    by (rule bank_services.sys_steps_bank[OF assms(1,4)]) (use inv1 in \<open>simp add: bank_inv_def\<close>)
  note inv2 = bank_steps_inv[OF run inv1]
  have "list_all (\<lambda>u. 0 \<le> u_balance u) (users (tables (w_db w2)))"
    using inv2 by (auto simp: bank_inv_def db_wf_def user_row_wf_def list_all_iff)
  with inv2 bank_steps_history[OF run] show ?thesis
    by (simp add: bank_inv_def reconciled_def total_balance_def list_all_iff)
qed

text \<open>A world with given accounts and a session of the first.\<close>

definition accounts_world :: "user list \<Rightarrow> (memdb, memredis, memjs) world" where
  "accounts_world us = empty_world\<lparr>w_db := \<lparr>m_db = empty_db\<lparr>users := us\<rparr>, m_now = 0, m_faults = []\<rparr>\<rparr>"

definition first_account :: user where
  "first_account = new_user 1 ''0901'' ''012345678901'' ''alice'' ''pw''"

definition second_account :: user where
  "second_account = new_user 2 ''0902'' ''123456789012'' ''bob'' ''pw''"

definition two_accounts :: "(memdb, memredis, memjs) world" where
  "two_accounts = snd (sample_request ''banking.auth.register'' (open_post ''0902'' ''bob'') (accounts_world [first_account]))"

lemma two_accounts_table:
  "m_db (w_db two_accounts) = empty_db\<lparr>users := [first_account, second_account]\<rparr>"
  by code_simp

lemma first_registration: "(sys_step sample_env m_db)\<^sup>*\<^sup>* empty_world (accounts_world [first_account])"
proof -
  have "sys_step sample_env m_db empty_world one_account"
    unfolding one_account_def by (rule sample_request_step)
  moreover have "sys_step sample_env m_db one_account (accounts_world [first_account])"
    by (rule elsewhere) (simp add: one_account_table accounts_world_def first_account_def)
  ultimately show ?thesis by (meson converse_rtranclp_into_rtranclp r_into_rtranclp)
qed

theorem books_always_balance_witness:
  "db_wf (m_db (w_db two_accounts)) \<and> total_balance (m_db (w_db two_accounts)) = 200000 \<and>
   history_kept (empty_db\<lparr>users := [first_account]\<rparr>) (m_db (w_db two_accounts))"
proof -
  have run: "(sys_step sample_env m_db)\<^sup>*\<^sup>* (accounts_world [first_account]) two_accounts"
    unfolding two_accounts_def by (intro r_into_rtranclp sample_request_step)
  have "m_db (w_db empty_world) = empty_db" by (simp add: empty_world_def)
  then show ?thesis
    using books_always_balance[OF sample.bank_services_axioms _ first_registration run]
    by (simp add: accounts_world_def two_accounts_table)
qed

text \<open>Other sessions' events that are no transfer of a user leave that user's account at least what it holds.\<close>

definition spares :: "int \<Rightarrow> db \<Rightarrow> db \<Rightarrow> bool" where
  "spares i d d' \<longleftrightarrow> d' = d \<or> (\<exists>l. bank_event l d d' \<and> (\<forall>rid amt. l \<noteq> Moved i rid amt))"

lemma spares_keeps_balance:
  assumes "(spares i)\<^sup>*\<^sup>* d d'" and "db_wf d" and "u \<in> set (users d)" and "u_id u = i"
  shows "db_wf d' \<and> (\<exists>v \<in> set (users d'). u_id v = i \<and> u_balance u \<le> u_balance v)"
  using assms(1)
proof (induction rule: rtranclp_induct)
  case base
  show ?case using assms(2-4) by blast
next
  case (step d1 d2)
  then obtain v where v: "db_wf d1" "v \<in> set (users d1)" "u_id v = i" "u_balance u \<le> u_balance v" by blast
  from step(2) consider "d2 = d1" | l where "bank_event l d1 d2" "\<forall>rid amt. l \<noteq> Moved i rid amt"
    unfolding spares_def by blast
  then show ?case
  proof cases
    case (2 l)
    have "set (map u_id (users d1)) \<subseteq> set (map u_id (users d2))"
      using bank_event_history[OF 2(1)] by (auto simp: history_kept_def simp del: set_map)
    then obtain v' where v': "v' \<in> set (users d2)" "u_id v' = i" using v(2,3) by auto
    have "\<not> u_balance v' < u_balance v" using bank_event_debit[OF 2(1) v(1,2) v'(1)] v'(2) v(3) 2(2) by auto
    with v v' bank_event_wf[OF 2(1)] show ?thesis by fastforce
  qed (use v in blast)
qed

text \<open>Property C6. Nobody's money leaves without their own session: while other sessions do anything the
  bank does but a transfer of this user, a request after which the user's account holds less than
  before is a transfer request that carries a live session of that very user.\<close>

theorem only_own_session_debits:
  assumes "bank_services E tables ilike keys others" and "ctx_ok ctx" and "db_wf (tables (w_db w))"
    and "proxyHandler num parse_float err_text (serve (all_consumers E) ctx) ctxErr subject r w = (resp, w')"
    and "u \<in> set (users (tables (w_db w)))" and "u' \<in> set (users (tables (w_db w')))" and "u_id u' = u_id u"
    and "\<forall>d d'. others d d' \<longrightarrow> spares (u_id u) d d'"
    and "u_balance u' < u_balance u"
  shows "subject = ''banking.transfer.transfer'' \<and> session_user (keys (w_redis w)) (hr_session r) = Some (u_id u)"
proof -
  from bank_services.request_served[OF assms(1,4,2,3)] obtain d where
    d: "others\<^sup>*\<^sup>* (tables (w_db w)) d" "tables (w_db w') = d \<or>
      (\<exists>l. entitled (keys (w_redis w)) (hr_session r) subject l \<and> bank_event l d (tables (w_db w')))"
    unfolding served_def by blast
  have "(spares (u_id u))\<^sup>*\<^sup>* (tables (w_db w)) d" using d(1) rtranclp_mono[of others "spares (u_id u)"] assms(8) by blast
  from spares_keeps_balance[OF this assms(3,5) refl] obtain v where
    v: "db_wf d" "v \<in> set (users d)" "u_id v = u_id u" "u_balance u \<le> u_balance v" by blast
  then have less: "u_balance u' < u_balance v" "u_id u' = u_id v" using assms(7,9) by simp_all
  with v(1,2) assms(6) have "tables (w_db w') \<noteq> d" by (auto dest: unique_user)
  with d(2) obtain l where l: "entitled (keys (w_redis w)) (hr_session r) subject l" "bank_event l d (tables (w_db w'))"
    by blast
  from bank_event_debit[OF l(2) v(1,2) assms(6) less(2,1)] obtain rid amt where "l = Moved (u_id u) rid amt"
    using v(3) by auto
  with l(1) show ?thesis by simp
qed

theorem only_own_session_debits_witness:
  "session_user sample_keys ''s1'' = Some 1 \<and>
   alice\<lparr>u_balance := 470\<rparr> \<in> set (users (m_db (w_db (snd (sample_proxy ''banking.transfer.transfer''
     (sample_post [(''phone'', JStr ''0902''), (''amount'', JInt 30)] ''s1'') [])))))"
proof -
  let ?r = "sample_post [(''phone'', JStr ''0902''), (''amount'', JInt 30)] ''s1''"
  let ?run = "sample_proxy ''banking.transfer.transfer'' ?r []"
  have run: "proxyHandler keep_num no_float (\<lambda>_. []) (serve (all_consumers sample_env) sample_ctx) None
      ''banking.transfer.transfer'' ?r (sample_world []) = (fst ?run, snd ?run)"
    by (simp add: sample_proxy_def)
  have u': "alice\<lparr>u_balance := 470\<rparr> \<in> set (users (m_db (w_db (snd ?run))))" by code_simp
  have u: "alice \<in> set (users (m_db (w_db (sample_world []))))" by (simp add: sample_world_def sample_db_def)
  have "u_id (alice\<lparr>u_balance := 470\<rparr>) = u_id alice" "u_balance (alice\<lparr>u_balance := 470\<rparr>) < u_balance alice"
    by (simp_all add: alice_def)
  from only_own_session_debits[OF sample.bank_services_axioms sample_hyps(3,1) run u u' this(1) _ this(2)] u' show ?thesis
    by (simp add: spares_def sample_world_def sample_post_def alice_def)
qed

end
