(* ===== verification/Statistics_Load.thy ===== *)
theory Statistics_Load
  imports Bank_System
begin

text \<open>
  The admin statistics while other sessions commit. \<^verbatim>\<open>handleAdminStats\<close> sends its three aggregates in one
  read-only transaction at the default isolation level, READ COMMITTED, at which every statement has
  its own snapshot. What the bank guarantees at every moment survives that in part: a count and a
  sum of one statement fit together, those of different statements need not.
\<close>

section \<open>What only grows\<close>

lemma bank_event_grows:
  "bank_event l d d' \<Longrightarrow> length (users d) \<le> length (users d') \<and> length (transfers d) \<le> length (transfers d') \<and>
     length (notifications d) \<le> length (notifications d') \<and>
     sum_list (map t_amount (transfers d)) \<le> sum_list (map t_amount (transfers d'))"
  by (induction rule: bank_event.induct) (auto simp: user_added_def move_money_def elim!: transfer_specE)

lemma bank_steps_grow:
  assumes "bank_step\<^sup>*\<^sup>* d d'"
  shows "length (users d) \<le> length (users d')" "length (transfers d) \<le> length (transfers d')"
    "length (notifications d) \<le> length (notifications d')"
    "sum_list (map t_amount (transfers d)) \<le> sum_list (map t_amount (transfers d'))"
  using assms by (induction rule: rtranclp_induct) (auto simp: bank_step_def dest!: bank_event_grows)

section \<open>A payment that comes in between\<close>

definition quiet_bank :: db where
  "quiet_bank = empty_db\<lparr>users := [first_account, second_account]\<rparr>"

definition paid_bank :: db where
  "paid_bank =
     \<lparr>users = move_money 1 2 30 (users quiet_bank),
      transfers = [\<lparr>t_id = 1, t_from_user = 1, t_to_user = 2, t_amount = 30, t_created_at = 0\<rparr>],
      notifications =
        [\<lparr>n_id = 1, n_user_id = 1, n_message = sent_msg 30 second_account, n_is_read = False, n_created_at = 0\<rparr>,
         \<lparr>n_id = 2, n_user_id = 2, n_message = received_msg 30 first_account, n_is_read = False, n_created_at = 0\<rparr>]\<rparr>"

lemma payment_event: "bank_step quiet_bank paid_bank"
proof -
  let ?p = "\<lparr>tp_account_number = [], tp_phone = ''0902'', tp_username = [], tp_amount = 30\<rparr>"
  have "\<exists>res. transfer_spec 1 ?p quiet_bank res paid_bank"
    by (rule exI, rule transfer_spec.transferred[of first_account _ second_account, OF _ _ _ _ _ _ _ _ _ _ _ _ refl])
      (simp_all add: quiet_bank_def paid_bank_def empty_db_def first_account_def second_account_def new_user_def names_user_def
        UserIdentifierCol_def fresh_def in64_def)
  then obtain res where "transfer_spec 1 ?p quiet_bank res paid_bank" by blast
  from moved[OF this] show ?thesis unfolding bank_step_def by (auto simp: in64_def)
qed

text \<open>Another session that makes this payment when two statements have been answered.\<close>

definition late_payment :: "memdb \<Rightarrow> memdb" where
  "late_payment c = (if m_now c = 2 \<and> m_db c = quiet_bank then c\<lparr>m_db := paid_bank\<rparr> else c)"

interpretation late: shared_postgres "mem_bob no_ilike True" m_db no_ilike late_payment bank_step
  by unfold_locales (auto simp: late_payment_def payment_event)

definition busy_env :: "(memdb, memredis, memjs) env" where
  "busy_env = sample_env\<lparr>e_act := late_payment\<rparr>"

interpretation late_bank: bank_services busy_env m_db no_ilike mr_keys bank_step
  by (simp add: bank_services_def bank_services_axioms_def busy_env_def sample_env_def quiet_sleep_def sample_backend
      late.shared_postgres_axioms mem_rc.read_committed_axioms mred.redis_service_axioms r_into_rtranclp)

definition late_stats :: "(goerr + any_result) \<times> (memdb, memredis, memjs) world" where
  "late_stats = handleAdminStats (busy late_payment (mem_bob no_ilike True)) (mem_RunInTx True) sample_ctx ''stats'' None (\<lambda>_. [])
     (accounts_world [first_account, second_account])"

definition stats_body :: "int \<Rightarrow> int \<Rightarrow> int \<Rightarrow> int \<Rightarrow> int \<Rightarrow> json" where
  "stats_body n k b v m =
     JObj [(''user_count'', JInt n), (''transfer_count'', JInt k), (''total_balance'', JInt b), (''total_transfer_amount'', JInt v),
           (''total_notifications'', JInt m)]"

lemma late_stats_run: "fst late_stats = reply 200 (stats_body 2 0 200000 0 2)"
  by code_simp

section \<open>Properties\<close>

text \<open>Property C33. The statistics under load: whatever other sessions commit while they are gathered, the
  total of the balances is the opening balance times the number of users of the same reply, no
  number is smaller than at the beginning nor greater than at the end, and there are at least two
  notifications for every transfer of the reply.\<close>

theorem statistics_under_load:
  assumes "shared_postgres B tables ilike act bank_step" and "read_committed RunInTx tables bank_step"
    and "bank_inv (tables (w_db w))"
    and "handleAdminStats (busy act B) RunInTx ctx action raw headers w = (reply 200 body, w')"
  shows "\<exists>n k v m. body = stats_body n k (100000 * n) v m \<and> 2 * k \<le> m \<and>
    int (length (users (tables (w_db w)))) \<le> n \<and> n \<le> int (length (users (tables (w_db w')))) \<and>
    int (length (transfers (tables (w_db w)))) \<le> k \<and> k \<le> int (length (transfers (tables (w_db w')))) \<and>
    sum_list (map t_amount (transfers (tables (w_db w)))) \<le> v \<and> v \<le> sum_list (map t_amount (transfers (tables (w_db w')))) \<and>
    m \<le> 2 * int (length (transfers (tables (w_db w'))))"
proof -
  obtain n b k v m c' where run: "RunInTx (stats_tx (busy act B)) ((0, 0), (0, 0), 0) (w_db w) = (None, ((n, b), (k, v), m), c')"
    and o: "body = stats_body n k b v m" "w' = w\<lparr>w_db := c'\<rparr>"
    using assms(4) by (auto simp: handleAdminStats_def stats_body_def split: prod.splits option.splits)
  from read_committed.rc_ok[OF assms(2) run] obtain c0 c1 where
    c: "bank_step\<^sup>*\<^sup>* (tables (w_db w)) (tables c0)" "bank_step\<^sup>*\<^sup>* (tables c1) (tables c')"
    "stats_tx (busy act B) ((0, 0), (0, 0), 0) c0 = (None, ((n, b), (k, v), m), c1)" by blast
  from stats_tx_reads[OF assms(1) c(3)] obtain d1 d2 where
    d: "bank_step\<^sup>*\<^sup>* (tables c0) d1" "bank_step\<^sup>*\<^sup>* d1 d2" "bank_step\<^sup>*\<^sup>* d2 (tables c1)"
    and e: "n = int (length (users d1))" "b = sum_list (map u_balance (users d1))" "k = int (length (transfers d2))"
      "v = sum_list (map t_amount (transfers d2))" "m = int (length (notifications (tables c1)))" by blast
  note inv = bank_steps_inv[OF d(1) bank_steps_inv[OF c(1) assms(3)]]
  note inv2 = bank_steps_inv[OF d(3) bank_steps_inv[OF d(2) inv]]
  note grow = bank_steps_grow[OF c(1)] bank_steps_grow[OF d(1)] bank_steps_grow[OF d(2)] bank_steps_grow[OF d(3)]
    bank_steps_grow[OF c(2)]
  have "b = 100000 * n" "m = 2 * int (length (transfers (tables c1)))"
    using inv inv2 e by (simp_all add: bank_inv_def)
  with o e grow show ?thesis by (intro exI[of _ n] exI[of _ k] exI[of _ v] exI[of _ m]) auto
qed

theorem statistics_under_load_witness:
  "\<exists>n k v m. stats_body 2 0 200000 0 2 = stats_body n k (100000 * n) v m \<and> 2 * k \<le> m \<and>
     m \<le> 2 * int (length (transfers (m_db (w_db (snd late_stats)))))"
proof -
  have inv: "bank_inv (m_db (w_db (accounts_world [first_account, second_account])))" by code_simp
  have run: "handleAdminStats (busy late_payment (mem_bob no_ilike True)) (mem_RunInTx True) sample_ctx ''stats'' None (\<lambda>_. [])
      (accounts_world [first_account, second_account]) = (reply 200 (stats_body 2 0 200000 0 2), snd late_stats)"
    using late_stats_run by (simp add: late_stats_def prod_eq_iff)
  from statistics_under_load[OF late.shared_postgres_axioms mem_rc.read_committed_axioms inv run] show ?thesis by blast
qed

text \<open>The three aggregates are not one snapshot: with one payment committed between them, the
  reply shows no transfer and two notifications, which the tables do not hold at any moment.\<close>

lemma statistics_are_no_snapshot:
  "fst late_stats = reply 200 (stats_body 2 0 200000 0 2) \<and>
   (\<nexists>d. bank_inv d \<and> length (transfers d) = 0 \<and> length (notifications d) = 2)"
  using late_stats_run by (auto simp: bank_inv_def)

end
