(* ===== verification/Status_Types.thy ===== *)
theory Status_Types
  imports System_Props
begin

text \<open>
  The statuses of the API. A handler is typed by the list of statuses it can reply with; an error it
  returns becomes 500. The middleware adds its refusals, the gateway its own errors.
\<close>

section \<open>Handlers\<close>

definition replies_with :: "('c, 'r, 'j) handler \<Rightarrow> int list \<Rightarrow> bool" where
  "replies_with h ss \<longleftrightarrow>
     (\<forall>ctx a raw hs w r w'. h ctx a raw hs w = (r, w') \<longrightarrow> (\<exists>e. r = Inl e) \<or> (\<exists>s b. r = reply s b \<and> s \<in> set ss))"

lemma replies_withI [intro?]:
  "(\<And>ctx a raw hs w r w'. h ctx a raw hs w = (r, w') \<Longrightarrow> (\<exists>e. r = Inl e) \<or> (\<exists>s b. r = reply s b \<and> s \<in> set ss)) \<Longrightarrow>
   replies_with h ss"
  unfolding replies_with_def by blast

lemma replies_withD:
  "replies_with h ss \<Longrightarrow> h ctx a raw hs w = (r, w') \<Longrightarrow> (\<exists>e. r = Inl e) \<or> (\<exists>s b. r = reply s b \<and> s \<in> set ss)"
  unfolding replies_with_def by blast

named_theorems typed_handlers

lemma register_loop_replies:
  "register_loop B rnd phone username hash ks c = (r, c') \<Longrightarrow>
   (\<exists>e. r = Inl e) \<or> (\<exists>s b. r = reply s b \<and> s \<in> {201, 409, 503})"
  by (induction ks arbitrary: c) (auto simp: Let_def split: prod.splits sum.splits if_splits)

lemma handleRegister_replies [typed_handlers]: "replies_with (handleRegister B gen env rnd) [201, 400, 409, 503]"
  by rule (auto simp: handleRegister_def Let_def dest!: register_loop_replies split: prod.splits sum.splits option.splits if_splits)

lemma handleLogin_replies [typed_handlers]: "replies_with (handleLogin B R compare sessionTTL cacheTTL sid) [200, 400, 401]"
  by rule (auto simp: handleLogin_def finish_login_def Let_def split: prod.splits sum.splits option.splits if_splits)

lemma handleLogout_replies [typed_handlers]: "replies_with (handleLogout R) [204]"
  by rule (auto simp: handleLogout_def split: prod.splits option.splits)

lemma handleMe_replies [typed_handlers]: "replies_with (handleMe B) [200, 404]"
  by rule (auto simp: handleMe_def Let_def split: prod.splits sum.splits if_splits)

lemma handleBalance_replies [typed_handlers]: "replies_with (handleBalance B R) [200, 404]"
  by rule (auto simp: handleBalance_def Let_def split: prod.splits sum.splits option.splits if_splits)

lemma handleLookup_replies [typed_handlers]: "replies_with (handleLookup B) [200, 400, 404]"
  by rule (auto simp: handleLookup_def Let_def split: prod.splits sum.splits option.splits if_splits)

lemma handleAdminStats_replies [typed_handlers]: "replies_with (handleAdminStats B RunInTx) [200]"
  by rule (auto simp: handleAdminStats_def split: prod.splits option.splits)

lemma handleAdminUsers_replies [typed_handlers]: "replies_with (handleAdminUsers B) [200]"
  by rule (auto simp: handleAdminUsers_def Let_def split: prod.splits sum.splits)

lemma handleAdminTransfers_replies [typed_handlers]: "replies_with (handleAdminTransfers B) [200]"
  by rule (auto simp: handleAdminTransfers_def Let_def split: prod.splits sum.splits option.splits if_splits)

lemma handleAdminNotifications_replies [typed_handlers]: "replies_with (handleAdminNotifications B) [200]"
  by rule (auto simp: handleAdminNotifications_def split: prod.splits sum.splits)

lemma handleAdminUserDetail_replies [typed_handlers]: "replies_with (handleAdminUserDetail B) [200, 400, 404]"
  by rule (auto simp: handleAdminUserDetail_def Let_def split: prod.splits sum.splits option.splits if_splits)

lemma handleTransfer_replies [typed_handlers]: "replies_with (handleTransfer B RunInTx R pub rnd sleep) [200, 400, 404, 503]"
  by rule (auto simp: handleTransfer_def after_commit_def Let_def split: prod.splits option.splits if_splits)

lemma handleNotifications_replies [typed_handlers]: "replies_with (handleNotifications B) [200]"
  by rule (auto simp: handleNotifications_def Let_def split: prod.splits sum.splits if_splits)

lemma handleAck_replies [typed_handlers]: "replies_with (handleAck B) [200, 400, 404]"
  by rule (auto simp: handleAck_def Let_def split: prod.splits sum.splits option.splits if_splits)

lemma NATSHandler_replies [typed_handlers]: "replies_with (NATSHandler name pingDB pingRedis) [200, 503]"
  by rule (auto simp: NATSHandler_def split: prod.splits if_splits)

lemma RequireSession_replies [typed_handlers]:
  "replies_with h ss \<Longrightarrow> replies_with (RequireSession R h) ([401, 500] @ ss)"
  by rule (auto simp: RequireSession_def dest: replies_withD split: prod.splits sum.splits if_splits)

lemma RequireAdmin_replies [typed_handlers]:
  "replies_with h ss \<Longrightarrow> replies_with (RequireAdmin secret R h) ([401, 403, 500] @ ss)"
  by rule (auto simp: RequireAdmin_def dest: replies_withD split: prod.splits sum.splits if_splits)

section \<open>Routes\<close>

definition route_statuses :: "string \<Rightarrow> int list" where
  "route_statuses subject =
     (if subject \<in> set admin_subjects then [401, 403, 500] else if subject \<in> set session_subjects then [401, 500] else []) @
     (if subject = ''banking.auth.register'' then [201, 400, 409, 503]
      else if subject = ''banking.auth.login'' then [200, 400, 401]
      else if subject = ''banking.auth.logout'' then [204]
      else if subject \<in> {''banking.account.me'', ''banking.account.balance''} then [200, 404]
      else if subject \<in> {''banking.account.lookup'', ''banking.account.user-detail'', ''banking.notification.ack''}
           then [200, 400, 404]
      else if subject = ''banking.transfer.transfer'' then [200, 400, 404, 503]
      else if subject \<in> {''banking.auth.health'', ''banking.account.health'', ''banking.transfer.health'',
                          ''banking.notification.health''} then [200, 503]
      else [200])"

lemma route_typed:
  assumes "route_any (all_consumers E) subject = Some (a, h)"
  shows "replies_with h (route_statuses subject)"
proof -
  from route_any_Some[OF assms] obtain c where c: "c \<in> set (all_consumers E)" "c_handlers c a = Some h"
    "subject = c_subjectPrefix c @ ''.'' @ a" by blast
  note typed = typed_handlers[simplified]
  from c(1) consider "c = auth_consumer E" | "c = account_consumer E" | "c = transfer_consumer E" | "c = notification_consumer E"
    by (auto simp: all_consumers_def)
  then show ?thesis
    by cases (use c(2,3) in \<open>auto simp: wiring SessionMiddleware_def AdminMiddleware_def typed
      route_statuses_def admin_subjects_def session_subjects_def split: if_splits\<close>)
qed

lemma proxy_body:
  "proxyHandler num parse_float err_text t ctxErr subject r w = (resp, w') \<Longrightarrow> hs_body resp = None \<longleftrightarrow> hs_status resp = 204"
  by (auto simp: proxyHandler_def split: sum.splits prod.splits if_splits)

lemma status_of_typed:
  assumes "replies_with h ss" and "h ctx a raw hs w = (res, w')"
  shows "hs_status (http_of res) \<in> insert 500 (set ss)"
  using replies_withD[of h ss ctx a raw hs w res w'] assms by (auto simp: http_of_def response_of_def)

text \<open>Property C18. The responses are typed: on every route, for every request and whatever fails behind
  the gateway, the status is one of those of the route's handler and middleware or one of the
  gateway's own errors 400, 500, 502, 503 and 504, and the body is missing exactly when the status
  is 204.\<close>

theorem responses_are_typed:
  assumes "subject \<in> set (map route_subject_of api_routes)"
    and "proxyHandler num parse_float err_text (serve (all_consumers E) ctx) ctxErr subject r w = (resp, w')"
  shows "hs_status resp \<in> set (route_statuses subject) \<union> {400, 500, 502, 503, 504} \<and>
    (hs_body resp = None \<longleftrightarrow> hs_status resp = 204)"
proof -
  obtain a h where ah: "route_any (all_consumers E) subject = Some (a, h)"
    using assms(1) route_any_endpoint[of subject "all_consumers E"] all_endpoints[of E] by auto
  from assms(2) ah have "hs_status resp \<in> set (route_statuses subject) \<union> {400, 500, 502, 503, 504}"
  proof (cases rule: gateway_cases)
    case (run p res)
    from status_of_typed[of h "route_statuses subject" ctx a "Some p" "rpc_headers (hr_session r) (hr_admin_secret r)" w res w']
      route_typed[OF ah] run(2,3) show ?thesis by auto
  qed auto
  with proxy_body[OF assms(2)] show ?thesis by blast
qed

theorem responses_are_typed_witness:
  "hs_status (fst (sample_proxy ''banking.account.me'' (sample_get [] ''s1'') [])) \<in> {200, 400, 401, 404, 500, 502, 503, 504}"
proof -
  have s: "''banking.account.me'' \<in> set (map route_subject_of api_routes)" by code_simp
  have run: "proxyHandler keep_num no_float (\<lambda>_. []) (serve (all_consumers sample_env) sample_ctx) None
      ''banking.account.me'' (sample_get [] ''s1'') (sample_world []) =
      (fst (sample_proxy ''banking.account.me'' (sample_get [] ''s1'') []),
       snd (sample_proxy ''banking.account.me'' (sample_get [] ''s1'') []))"
    by (simp add: sample_proxy_def)
  have "set (route_statuses ''banking.account.me'') = {401, 500, 200, 404}" by code_simp
  with responses_are_typed[OF s run] show ?thesis by auto
qed

end
