(* ===== verification/Gateway_Router.thy ===== *)
theory Gateway_Router
  imports System_Props
begin

text \<open>
  From a URL to a handler: the router that \<^verbatim>\<open>main\<close> of \<^verbatim>\<open>producer/main.go\<close> builds. The router package
  \<^verbatim>\<open>chi\<close> is the argument \<open>chi\<close>; the locale \<open>chi_router\<close> states its documented behaviour: it selects a
  registered method and pattern that the request matches, and reports none only if there is none
  (whether a parameter may be empty is left open). The answers that \<^verbatim>\<open>chi\<close> gives itself, 404 and 405, carry no
  JSON body.
\<close>

section \<open>Patterns\<close>

text \<open>The parts between slashes.\<close>

fun segments :: "string \<Rightarrow> string list" where
  "segments [] = [[]]"
| "segments (c # cs) =
     (if c = CHR ''/'' then [] # segments cs
      else (case segments cs of [] \<Rightarrow> [[c]] | s # ss \<Rightarrow> (c # s) # ss))"

definition is_param :: "string \<Rightarrow> bool" where
  "is_param s \<longleftrightarrow> s \<noteq> [] \<and> hd s = CHR ''{''"

text \<open>The parameters of a path that matches a pattern, by name.\<close>

fun pattern_match :: "string list \<Rightarrow> string list \<Rightarrow> (string \<times> string) list option" where
  "pattern_match [] [] = Some []"
| "pattern_match (p # ps) (s # ss) =
     (if is_param p then map_option ((#) (butlast (tl p), s)) (pattern_match ps ss)
      else if p = s then pattern_match ps ss else None)"
| "pattern_match _ _ = None"

fun overlap :: "string list \<Rightarrow> string list \<Rightarrow> bool" where
  "overlap [] [] = True"
| "overlap (p # ps) (q # qs) = ((is_param p \<or> is_param q \<or> p = q) \<and> overlap ps qs)"
| "overlap _ _ = False"

lemma overlap_sound: "pattern_match ps ss \<noteq> None \<Longrightarrow> pattern_match qs ss \<noteq> None \<Longrightarrow> overlap ps qs"
proof (induction ps ss arbitrary: qs rule: pattern_match.induct)
  case 1
  then show ?case by (cases qs) auto
next
  case (2 p ps s ss)
  then show ?case by (cases qs) (auto split: if_splits)
qed auto

section \<open>The router\<close>

datatype chi_result = NotFound | MethodNotAllowed | Matched nat "(string \<times> string) list"

text \<open>\<^verbatim>\<open>router.Handle\<close> registers a pattern for every method, here the empty one.\<close>

definition registered :: "(string \<times> string) list" where
  "registered = [([], ''/metrics''), (''GET'', ''/health'')] @ map (\<lambda>(m, p, s, k). (m, p)) api_routes"

text \<open>Patterns without a wildcard and without a regular expression; the laws speak of such routes only.\<close>

definition plain_routes :: "(string \<times> string) list \<Rightarrow> bool" where
  "plain_routes rs \<longleftrightarrow> list_all (\<lambda>(m, p). CHR ''*'' \<notin> set p \<and> CHR '':'' \<notin> set p) rs"

lemma registered_plain: "plain_routes registered"
  by code_simp

locale chi_router =
  fixes chi :: "(string \<times> string) list \<Rightarrow> string \<Rightarrow> string \<Rightarrow> chi_result"
  assumes matched: "plain_routes rs \<Longrightarrow> chi rs m path = Matched i ps \<Longrightarrow>
      i < length rs \<and> fst (rs ! i) \<in> {[], m} \<and> pattern_match (segments (snd (rs ! i))) (segments path) = Some ps"
    and unmatched: "plain_routes rs \<Longrightarrow> chi rs m path \<in> {NotFound, MethodNotAllowed} \<Longrightarrow> i < length rs \<Longrightarrow> fst (rs ! i) \<in> {[], m} \<Longrightarrow>
      pattern_match (segments (snd (rs ! i))) (segments path) = Some ps \<Longrightarrow> [] \<in> set (map snd ps)"

definition URLParam :: "(string \<times> string) list \<Rightarrow> string \<Rightarrow> string" where
  "URLParam ps name = (case map_of ps name of None \<Rightarrow> [] | Some v \<Rightarrow> v)"

text \<open>The handler of a route: the proxy for its subject, behind the path parameter when it has one.\<close>

definition route_handler ::
  "(string \<Rightarrow> http_request \<Rightarrow> 'w \<Rightarrow> http_response \<times> 'w) \<Rightarrow> string \<times> string \<times> string \<times> string option \<Rightarrow>
   (string \<times> string) list \<Rightarrow> http_request \<Rightarrow> 'w \<Rightarrow> http_response \<times> 'w" where
  "route_handler proxy rt ps r =
     (case rt of (m, p, subject, k) \<Rightarrow>
        (case k of
           None \<Rightarrow> proxy subject r
         | Some queryKey \<Rightarrow> proxy subject (injectPathParam queryKey (URLParam ps ''id'') r)))"

text \<open>\<open>metrics_page\<close> is the Prometheus handler; \<open>connected\<close> whether the NATS connection is up.\<close>

definition producer_router ::
  "((string \<times> string) list \<Rightarrow> string \<Rightarrow> string \<Rightarrow> chi_result) \<Rightarrow> (string \<Rightarrow> http_request \<Rightarrow> 'w \<Rightarrow> http_response \<times> 'w) \<Rightarrow>
   http_response \<Rightarrow> bool \<Rightarrow> string \<Rightarrow> http_request \<Rightarrow> 'w \<Rightarrow> http_response \<times> 'w" where
  "producer_router chi proxy metrics_page connected path r w =
     (case chi registered (hr_method r) path of
        NotFound \<Rightarrow> (\<lparr>hs_status = 404, hs_body = None\<rparr>, w)
      | MethodNotAllowed \<Rightarrow> (\<lparr>hs_status = 405, hs_body = None\<rparr>, w)
      | Matched i ps \<Rightarrow>
          (if i = 0 then (metrics_page, w)
           else if i = 1 then (healthHandler connected, w)
           else route_handler proxy (api_routes ! (i - 2)) ps r w))"

section \<open>One route per request\<close>

definition clash :: "string \<times> string list \<Rightarrow> string \<times> string list \<Rightarrow> bool" where
  "clash a b \<longleftrightarrow> (fst a = [] \<or> fst b = [] \<or> fst a = fst b) \<and> overlap (snd a) (snd b)"

definition registered_segments :: "(string \<times> string list) list" where
  "registered_segments = map (\<lambda>(m, p). (m, segments p)) registered"

lemma registered_segments_eq:
  "registered_segments =
     [([], [[], ''metrics'']), (''GET'', [[], ''health'']),
      (''POST'', [[], ''api'', ''users'']), (''POST'', [[], ''api'', ''sessions'']), (''DELETE'', [[], ''api'', ''sessions'']),
      (''GET'', [[], ''api'', ''users'', ''me'', ''balance'']), (''GET'', [[], ''api'', ''users'', ''me'']),
      (''GET'', [[], ''api'', ''users'']), (''POST'', [[], ''api'', ''transfers'']), (''GET'', [[], ''api'', ''notifications'']),
      (''PATCH'', [[], ''api'', ''notifications'', ''{id}'', ''ack'']), (''GET'', [[], ''api'', ''admin'', ''stats'']),
      (''GET'', [[], ''api'', ''admin'', ''users'']), (''GET'', [[], ''api'', ''admin'', ''users'', ''{id}'']),
      (''GET'', [[], ''api'', ''admin'', ''transfers'']), (''GET'', [[], ''api'', ''admin'', ''notifications'']),
      (''GET'', [[], ''api'', ''health'', ''auth'']), (''GET'', [[], ''api'', ''health'', ''account'']),
      (''GET'', [[], ''api'', ''health'', ''transfer'']), (''GET'', [[], ''api'', ''health'', ''notifications''])]"
  by code_simp

lemma registered_unambiguous: "sorted_wrt (\<lambda>a b. \<not> clash a b) registered_segments"
  unfolding registered_segments_eq by (simp add: clash_def is_param_def)

lemma overlap_sym: "overlap ps qs \<Longrightarrow> overlap qs ps"
  by (induction ps qs rule: overlap.induct) auto

lemma clash_sym: "clash a b \<Longrightarrow> clash b a"
  unfolding clash_def using overlap_sym by metis

lemma sorted_wrt_clash:
  assumes "sorted_wrt (\<lambda>a b. \<not> clash a b) xs" and "i < length xs" and "j < length xs" and "clash (xs ! i) (xs ! j)"
  shows "i = j"
proof (rule ccontr)
  assume "i \<noteq> j"
  then consider "i < j" | "j < i" by linarith
  then show False
    by cases (use assms clash_sym[OF assms(4)] in \<open>auto simp: sorted_wrt_iff_nth_less simp del: split_paired_All\<close>)
qed

lemma one_route:
  assumes "i < length registered" and "j < length registered" and "fst (registered ! i) \<in> {[], m}" and "fst (registered ! j) \<in> {[], m}"
    and "pattern_match (segments (snd (registered ! i))) ss = Some ps" and "pattern_match (segments (snd (registered ! j))) ss = Some qs"
  shows "i = j"
proof -
  have "overlap (segments (snd (registered ! i))) (segments (snd (registered ! j)))"
    using assms(5,6) by (intro overlap_sound[where ss = ss]) simp_all
  then have "clash (registered_segments ! i) (registered_segments ! j)"
    using assms(1-4) by (auto simp: clash_def registered_segments_def split: prod.splits)
  with registered_unambiguous assms(1,2) show ?thesis
    by (intro sorted_wrt_clash[of registered_segments i j]) (auto simp: registered_segments_def)
qed

context chi_router
begin

lemma selects:
  assumes "i < length registered" and "fst (registered ! i) \<in> {[], m}"
    and "pattern_match (segments (snd (registered ! i))) (segments path) = Some ps" and "[] \<notin> set (map snd ps)"
  shows "chi registered m path = Matched i ps"
proof (cases "chi registered m path")
  case (Matched j qs)
  from matched[OF registered_plain this] one_route[OF assms(1) _ assms(2) _ assms(3), of j qs] have "j = i" by blast
  with matched[OF registered_plain Matched] assms(3) Matched show ?thesis by simp
next
  case NotFound
  with unmatched[OF registered_plain, of m path i ps] assms show ?thesis by simp
next
  case MethodNotAllowed
  with unmatched[OF registered_plain, of m path i ps] assms show ?thesis by simp
qed

lemma route_selected:
  assumes "rt \<in> set api_routes" and "fst rt = hr_method r"
    and "pattern_match (segments (fst (snd rt))) (segments path) = Some ps" and "[] \<notin> set (map snd ps)"
  shows "producer_router chi proxy metrics_page connected path r w = route_handler proxy rt ps r w"
proof -
  from assms(1) obtain i where i: "i < length api_routes" "api_routes ! i = rt" by (auto simp: in_set_conv_nth)
  then have "registered ! (i + 2) = (fst rt, fst (snd rt))" "i + 2 < length registered"
    by (auto simp: registered_def nth_append split: prod.splits)
  with selects[of "i + 2" "hr_method r" path ps] assms(2-4) have "chi registered (hr_method r) path = Matched (i + 2) ps" by auto
  with i show ?thesis by (simp add: producer_router_def)
qed

lemma no_route:
  assumes "\<And>i. i < length registered \<Longrightarrow> fst (registered ! i) \<in> {[], hr_method r} \<Longrightarrow>
      pattern_match (segments (snd (registered ! i))) (segments path) = None"
    and "producer_router chi proxy metrics_page connected path r w = (resp, w')"
  shows "hs_status resp \<in> {404, 405} \<and> w' = w"
proof (cases "chi registered (hr_method r) path")
  case (Matched i ps)
  from matched[OF registered_plain this] assms(1)[of i] show ?thesis by auto
qed (use assms(2) in \<open>auto simp: producer_router_def\<close>)

end

text \<open>A router that tries the patterns in turn.\<close>

definition seq_chi :: "(string \<times> string) list \<Rightarrow> string \<Rightarrow> string \<Rightarrow> chi_result" where
  "seq_chi rs m path =
     (case find (\<lambda>i. fst (rs ! i) \<in> {[], m} \<and> pattern_match (segments (snd (rs ! i))) (segments path) \<noteq> None) [0..<length rs] of
        None \<Rightarrow> NotFound
      | Some i \<Rightarrow> Matched i (the (pattern_match (segments (snd (rs ! i))) (segments path))))"

interpretation seq_router: chi_router seq_chi
proof
  fix rs m path i ps
  assume "seq_chi rs m path = Matched i ps"
  then show "i < length rs \<and> fst (rs ! i) \<in> {[], m} \<and> pattern_match (segments (snd (rs ! i))) (segments path) = Some ps"
    by (auto simp: seq_chi_def find_Some_iff split: option.splits)
next
  fix rs m path i ps
  assume "seq_chi rs m path \<in> {NotFound, MethodNotAllowed}" "i < length rs" "fst (rs ! i) \<in> {[], m}"
    "pattern_match (segments (snd (rs ! i))) (segments path) = Some ps"
  then show "[] \<in> set (map snd ps)"
    by (auto simp: seq_chi_def find_None_iff split: option.splits)
qed

section \<open>From the URL to the handler and back\<close>

text \<open>The request as the proxy of a route sees it.\<close>

definition routed_request :: "string option \<Rightarrow> (string \<times> string) list \<Rightarrow> http_request \<Rightarrow> http_request" where
  "routed_request k ps r = (case k of None \<Rightarrow> r | Some queryKey \<Rightarrow> injectPathParam queryKey (URLParam ps ''id'') r)"

lemma routed_request_auth [simp]:
  "hr_session (routed_request k ps r) = hr_session r" "hr_admin_secret (routed_request k ps r) = hr_admin_secret r"
  "hr_method (routed_request k ps r) = hr_method r"
  by (simp_all add: routed_request_def injectPathParam_def split: option.splits)

text \<open>Property C17. A URL leads to its handler: a request whose method and path match a route is answered
  with the status and body that the handler registered for the subject of that route returns for the
  payload of the request, the path parameter included, and for its session and admin headers; no
  other route can take the request, the handler runs exactly once, and an internal error appears as
  500 without its text.\<close>

theorem url_reaches_handler:
  assumes "chi_router chi" and "(hr_method r, p, subject, k) \<in> set api_routes"
    and "pattern_match (segments p) (segments path) = Some ps" and "[] \<notin> set (map snd ps)"
    and "route_any (all_consumers E) subject = Some (a, h)" and "ctx_Err ctx = None"
    and "parsePayload num parse_float (routed_request k ps r) = Inr (Some payload)"
    and "h ctx a (Some payload) (rpc_headers (hr_session r) (hr_admin_secret r)) w = (res, w')"
    and "in64 (rpc_status (response_of res))"
  shows "producer_router chi (proxyHandler num parse_float err_text (serve (all_consumers E) ctx) None)
    metrics_page connected path r w = (http_of res, w')"
proof -
  have "producer_router chi (proxyHandler num parse_float err_text (serve (all_consumers E) ctx) None) metrics_page connected path r w =
      proxyHandler num parse_float err_text (serve (all_consumers E) ctx) None subject (routed_request k ps r) w"
    by (subst chi_router.route_selected[OF assms(1,2) _ _ assms(4)])
      (use assms(3) in \<open>auto simp: route_handler_def routed_request_def split: option.splits\<close>)
  also have "\<dots> = (http_of res, w')"
    by (rule gateway_run[OF assms(5,6,7)]) (use assms(8,9) in simp_all)
  finally show ?thesis .
qed

theorem url_reaches_handler_witness:
  "producer_router seq_chi (proxyHandler keep_num no_float (\<lambda>_. []) (serve (all_consumers sample_env) sample_ctx) None)
     \<lparr>hs_status = 200, hs_body = None\<rparr> True ''/api/health/auth'' (sample_get [] []) (sample_world []) =
   (\<lparr>hs_status = 200, hs_body = Some (health_body ''auth-service'' True True)\<rparr>, sample_world [])"
proof -
  let ?h = "NATSHandler ''auth-service'' (\<lambda>_. None) (\<lambda>_. None) :: (memdb, memredis, memjs) handler"
  let ?q = "reply 200 (health_body ''auth-service'' True True)"
  have rt: "(hr_method (sample_get [] []), ''/api/health/auth'', ''banking.auth.health'', None) \<in> set api_routes" by code_simp
  have m: "pattern_match (segments ''/api/health/auth'') (segments ''/api/health/auth'') = Some []" by code_simp
  have route: "route_any (all_consumers sample_env) ''banking.auth.health'' = Some (''health'', ?h)"
    by (simp add: all_consumers_def route_def starts_with_iff wiring sample_env_def)
  have payload: "parsePayload keep_num no_float (routed_request None [] (sample_get [] [])) = Inr (Some (JObj []))"
    by (simp add: routed_request_def sample_get_def parsePayload_def first_values_def last_wins_def)
  have run: "?h sample_ctx ''health'' (Some (JObj [])) (rpc_headers (hr_session (sample_get [] [])) (hr_admin_secret (sample_get [] [])))
      (sample_world []) = (?q, sample_world [])"
    by (simp add: NATSHandler_def checkHealth_def)
  have "in64 (rpc_status (response_of ?q))" by (simp add: response_of_def in64_def)
  from url_reaches_handler[OF seq_router.chi_router_axioms rt m _ route sample_ctx_live payload run this,
      of "\<lambda>_. []" "\<lparr>hs_status = 200, hs_body = None\<rparr>" True]
  show ?thesis by simp
qed

end
