(* ===== verification/Gateway_Metrics.thy ===== *)
theory Gateway_Metrics
  imports System_Props
begin

text \<open>
  The Prometheus instruments the processes update while they serve: \<^verbatim>\<open>proxyHandler\<close> and \<^verbatim>\<open>call\<close> of the
  gateway and \<^verbatim>\<open>dispatch\<close> of the consumers, once more, with their metrics. A counter vector is a
  function from label values to counts, a histogram is the number of its observations. Erasing the
  metrics gives the definitions of \<open>Producer\<close> and \<open>Rpc_Consumer\<close>. \<open>path\<close> is \<^verbatim>\<open>r.URL.Path\<close>.
\<close>

section \<open>Instruments\<close>

record gw_metrics =
  gm_httpRequests :: "string \<times> string \<times> string \<Rightarrow> nat"
  gm_httpDuration :: "string \<times> string \<Rightarrow> nat"
  gm_rpcRequests :: "string \<times> string \<Rightarrow> nat"
  gm_rpcRoundtrip :: "string \<Rightarrow> nat"
  gm_rpcTimeouts :: nat
  gm_rpcPublishErrors :: nat
  gm_rpcInflight :: int
  gm_natsConnected :: int

record consumer_metrics =
  cm_MessagesTotal :: "string \<times> string \<Rightarrow> nat"
  cm_HandlerDuration :: "string \<Rightarrow> nat"
  cm_ReconnectsTotal :: nat

definition bump :: "'k \<Rightarrow> ('k \<Rightarrow> nat) \<Rightarrow> 'k \<Rightarrow> nat" where
  "bump k f = f(k := Suc (f k))"

section \<open>The gateway\<close>

definition call_metered ::
  "'w transport \<Rightarrow> goerr option \<Rightarrow> string \<Rightarrow> json option \<Rightarrow> string \<Rightarrow> string \<Rightarrow> 'w \<Rightarrow> gw_metrics \<Rightarrow>
   (goerr + rpc_reply) \<times> 'w \<times> gw_metrics" where
  "call_metered request_msg ctxErr subject payload session adminSecret w m =
     (case ctxErr of
        Some e \<Rightarrow> (Inl (Wrapf ''call: context already done'' e), w, m)
      | None \<Rightarrow>
          (case payload of
             None \<Rightarrow> (Inl (Wrapf ''marshal rpc request'' (OtherErr ''json'')), w, m)
           | Some p \<Rightarrow>
               (let m1 = m\<lparr>gm_rpcInflight := gm_rpcInflight m + 1\<rparr>;
                    leave = (\<lambda>m. m\<lparr>gm_rpcInflight := gm_rpcInflight m - 1\<rparr>);
                    failed = (\<lambda>m. m\<lparr>gm_rpcPublishErrors := Suc (gm_rpcPublishErrors m)\<rparr>) in
                case request_msg subject
                       \<lparr>req_data = Some (rpcRequest p), req_headers = rpc_headers session adminSecret\<rparr> w of
                  (Inl e, w') \<Rightarrow>
                    (if errors_Is e NatsNoResponders then (Inl ErrServiceUnavailable, w', leave (failed m1))
                     else (Inl (Wrapf ''nats request'' e), w', leave (failed m1)))
                | (Inr data, w') \<Rightarrow>
                    (case decode_rpc_reply data of
                       None \<Rightarrow> (Inl (Wrapf ''unmarshal reply'' (OtherErr ''json'')), w', leave (failed m1))
                     | Some resp \<Rightarrow>
                         (Inr resp, w',
                          leave (m1\<lparr>gm_rpcRoundtrip := bump subject (gm_rpcRoundtrip m1),
                                    gm_rpcRequests := bump (subject, Itoa (rr_status resp)) (gm_rpcRequests m1)\<rparr>))))))"

definition proxyHandler_metered ::
  "(json \<Rightarrow> json option) \<Rightarrow> (string \<Rightarrow> go_float option) \<Rightarrow> (goerr \<Rightarrow> string) \<Rightarrow> 'w transport \<Rightarrow> goerr option \<Rightarrow>
   string \<Rightarrow> string \<Rightarrow> http_request \<Rightarrow> 'w \<Rightarrow> gw_metrics \<Rightarrow> http_response \<times> 'w \<times> gw_metrics" where
  "proxyHandler_metered num parse_float err_text request_msg ctxErr subject path r w m =
     (let counted = (\<lambda>status m. m\<lparr>gm_httpRequests := bump (hr_method r, path, Itoa status) (gm_httpRequests m)\<rparr>);
          timed = (\<lambda>m. m\<lparr>gm_httpDuration := bump (hr_method r, path) (gm_httpDuration m)\<rparr>) in
      case parsePayload num parse_float r of
        Inl e \<Rightarrow> (writeJSON 400 (Some (detail ''Invalid JSON body'')), w, timed (counted 400 m))
      | Inr payload \<Rightarrow>
          (case call_metered request_msg ctxErr subject payload (hr_session r) (hr_admin_secret r) w m of
             (Inl e, w', m') \<Rightarrow>
               (if errors_Is e ErrServiceUnavailable
                then (writeJSON 503 (Some (detail ''Service unavailable'')), w', timed (counted 503 m'))
                else if errors_Is e CtxDeadlineExceeded \<or> errors_Is e CtxCanceled
                then (writeJSON 504 (Some (detail ''Gateway timeout'')), w', timed (counted 504 m'))
                else (writeJSON 502 (Some (detail (err_text e))), w', timed (counted 502 m')))
           | (Inr resp, w', m') \<Rightarrow>
               (if rr_status resp = 204 then \<lparr>hs_status = 204, hs_body = None\<rparr>
                else writeRawJSON (rr_status resp) (case rr_body resp of None \<Rightarrow> JObj [] | Some j \<Rightarrow> j),
                w', timed (counted (rr_status resp) m'))))"

section \<open>The consumers\<close>

definition dispatch_metered ::
  "bool \<Rightarrow> goctx \<Rightarrow> request \<Rightarrow> string \<Rightarrow> ('c, 'r, 'j) handler \<Rightarrow> ('c, 'r, 'j) world \<Rightarrow> consumer_metrics \<Rightarrow>
   outcome \<times> ('c, 'r, 'j) world \<times> consumer_metrics" where
  "dispatch_metered enabled ctx req action h w m =
     (if ctx_Err ctx \<noteq> None then (NoReply, w, m)
      else (case decode_rpc_request (req_data req) of
              None \<Rightarrow> (ServiceError ''400'' ''invalid request body'', w, m)
            | Some payload \<Rightarrow>
                (case h ctx action payload (forwarded_headers (req_headers req)) w of
                   (res, w') \<Rightarrow>
                     (let resp = (case res of
                                    Inl e \<Rightarrow> Reply 500 (detail ''internal error'')
                                  | Inr (Rpc q) \<Rightarrow> q
                                  | Inr (Plain j) \<Rightarrow> Reply 200 j);
                          m' = (if enabled
                                then m\<lparr>cm_HandlerDuration := bump action (cm_HandlerDuration m),
                                       cm_MessagesTotal := bump (action, Itoa (rpc_status resp)) (cm_MessagesTotal m)\<rparr>
                                else m)
                      in (Respond resp, w', m')))))"

section \<open>The headers of a request\<close>

definition traceDestSubject :: string where
  "traceDestSubject = ''banking.trace.rpc''"

text \<open>The header of the NATS message, with the destination of the server's trace events when the request
  is sampled; the fields that the propagator of the tracing library injects are left out.\<close>

definition call_header :: "bool \<Rightarrow> string \<Rightarrow> string \<Rightarrow> string \<Rightarrow> headers" where
  "call_header sampled subject session adminSecret =
     (if sampled
      then (rpc_headers session adminSecret)(''Nats-Trace-Dest'' := traceDestSubject @ ''.'' @ subject)
      else rpc_headers session adminSecret)"

lemma sampling_is_transparent:
  "forwarded_headers (call_header sampled subject session adminSecret) = rpc_headers session adminSecret"
  by (auto simp: forwarded_headers_def call_header_def rpc_headers_def)

section \<open>What the metrics show\<close>

lemma dispatch_metered_erase:
  "dispatch_metered enabled ctx req action h w m = (out, w', m') \<Longrightarrow> dispatch ctx req action h w = (out, w')"
  by (auto simp: dispatch_metered_def dispatch_def Let_def split: option.splits prod.splits sum.splits any_result.splits)

lemma dispatch_metered_counts:
  "dispatch_metered True ctx req action h w m = (out, w', m') \<Longrightarrow>
   (\<exists>q. out = Respond q \<and> cm_MessagesTotal m' = bump (action, Itoa (rpc_status q)) (cm_MessagesTotal m)) \<or>
   (\<forall>q. out \<noteq> Respond q) \<and> m' = m"
  by (auto simp: dispatch_metered_def Let_def split: option.splits prod.splits if_splits)

lemma call_metered_erase:
  "call_metered t ctxErr subject payload session secret w m = (res, w', m') \<Longrightarrow>
   call t ctxErr subject payload session secret w = (res, w')"
  by (auto simp: call_metered_def call_def Let_def split: option.splits prod.splits sum.splits if_splits)

lemma call_metered_counts:
  assumes "call_metered t ctxErr subject payload session secret w m = (res, w', m')"
  shows "gm_httpRequests m' = gm_httpRequests m \<and> gm_httpDuration m' = gm_httpDuration m \<and>
    gm_rpcInflight m' = gm_rpcInflight m \<and> gm_rpcTimeouts m' = gm_rpcTimeouts m \<and> gm_natsConnected m' = gm_natsConnected m \<and>
    (case res of
       Inr resp \<Rightarrow> gm_rpcRequests m' = bump (subject, Itoa (rr_status resp)) (gm_rpcRequests m) \<and>
         gm_rpcRoundtrip m' = bump subject (gm_rpcRoundtrip m) \<and> gm_rpcPublishErrors m' = gm_rpcPublishErrors m
     | Inl e \<Rightarrow> gm_rpcRequests m' = gm_rpcRequests m \<and> gm_rpcRoundtrip m' = gm_rpcRoundtrip m \<and>
         gm_rpcPublishErrors m' \<in> {gm_rpcPublishErrors m, Suc (gm_rpcPublishErrors m)})"
  using assms by (auto simp: call_metered_def Let_def split: option.splits prod.splits sum.splits if_splits)

text \<open>The metrics do not change what a request does, and they account for it: one request and one
  duration under its method, its path and the status the client gets; a gauge of calls in flight
  that is what it was before; and a timeout counter and a connection gauge that never move, not even
  when the client gets 504.\<close>

lemma metrics_account_for_request:
  assumes "proxyHandler_metered num parse_float err_text t ctxErr subject path r w m = (resp, w', m')"
  shows "proxyHandler num parse_float err_text t ctxErr subject r w = (resp, w') \<and>
    gm_httpRequests m' = bump (hr_method r, path, Itoa (hs_status resp)) (gm_httpRequests m) \<and>
    gm_httpDuration m' = bump (hr_method r, path) (gm_httpDuration m) \<and>
    gm_rpcInflight m' = gm_rpcInflight m \<and> gm_rpcTimeouts m' = gm_rpcTimeouts m \<and> gm_natsConnected m' = gm_natsConnected m"
proof (cases "parsePayload num parse_float r")
  case (Inl e)
  with assms show ?thesis by (auto simp: proxyHandler_metered_def proxyHandler_def Let_def)
next
  case (Inr payload)
  obtain res w1 m1 where c: "call_metered t ctxErr subject payload (hr_session r) (hr_admin_secret r) w m = (res, w1, m1)"
    using prod_cases3 by blast
  from Inr c assms call_metered_erase[OF c] call_metered_counts[OF c] show ?thesis
    by (cases res) (auto simp: proxyHandler_metered_def proxyHandler_def Let_def split: if_splits)
qed

end
