(* ===== verification/Telemetry.thy ===== *)
theory Telemetry
  imports Masking_Passwords
begin

text \<open>
  Logging, tracing and metrics as far as they decide anything: the log level and the masked amount of
  \<^verbatim>\<open>internal/logging/logging.go\<close>, the start and the shutdown function of \<^verbatim>\<open>internal/tracing/tracing.go\<close>,
  the trace sampling of \<^verbatim>\<open>producer/rpc.go\<close>, and the instruments that \<^verbatim>\<open>internal/metrics/metrics.go\<close> and
  \<^verbatim>\<open>producer/metrics.go\<close> register. The environment, HMAC, the exporters and the Prometheus registry
  are arguments. What is logged, traced and counted is not modelled: no service reads it back.
\<close>

section \<open>Logging\<close>

datatype log_level = LevelDebug | LevelInfo | LevelWarn | LevelError

definition ascii_upper :: "char \<Rightarrow> char" where
  "ascii_upper c =
     (if 97 \<le> (of_char c :: nat) \<and> (of_char c :: nat) \<le> 122 then char_of ((of_char c :: nat) - 32) else c)"

text \<open>\<^verbatim>\<open>strings.ToUpper\<close> as far as a comparison with an ASCII text can see it: U+0131 becomes \<^verbatim>\<open>I\<close> and
  U+017F becomes \<^verbatim>\<open>S\<close>; no other character outside ASCII becomes an ASCII letter.\<close>

function ToUpper :: "string \<Rightarrow> string" where
  "ToUpper [] = []"
| "ToUpper (c # cs) =
     (if starts_with [CHR 0xC4, CHR 0xB1] (c # cs) then CHR ''I'' # ToUpper (drop 1 cs)
      else if starts_with [CHR 0xC5, CHR 0xBF] (c # cs) then CHR ''S'' # ToUpper (drop 1 cs)
      else ascii_upper c # ToUpper cs)"
  by pat_completeness auto
termination
  by (relation "measure length") auto

definition logLevel :: "(string \<Rightarrow> string) \<Rightarrow> log_level" where
  "logLevel getenv =
     (let s = ToUpper (TrimSpace (getenv ''LOG_LEVEL'')) in
      if s = ''DEBUG'' then LevelDebug
      else if s = ''WARN'' \<or> s = ''WARNING'' then LevelWarn
      else if s = ''ERROR'' then LevelError
      else LevelInfo)"

record logger =
  lg_level :: log_level
  lg_attrs :: "(string \<times> string) list"

definition NewLogger :: "(string \<Rightarrow> string) \<Rightarrow> string \<Rightarrow> logger" where
  "NewLogger getenv service = \<lparr>lg_level = logLevel getenv, lg_attrs = [(''service'', service)]\<rparr>"

definition getAmountSecret :: "(string \<Rightarrow> string) \<Rightarrow> string" where
  "getAmountSecret getenv =
     (let s = getenv ''LOG_AMOUNT_SECRET'' in if s = [] then ''banking-demo-default'' else s)"

definition hex_digit :: "nat \<Rightarrow> char" where
  "hex_digit n = (if n < 10 then char_of (48 + n) else char_of (87 + n))"

definition hex_string :: "string \<Rightarrow> string" where
  "hex_string bs = concat (map (\<lambda>b. [hex_digit (of_char b div 16), hex_digit (of_char b mod 16)]) bs)"

text \<open>\<open>hmac\<close> is HMAC-SHA256 of a key and a message.\<close>

definition MaskAmount :: "(string \<Rightarrow> string \<Rightarrow> string) \<Rightarrow> (string \<Rightarrow> string) \<Rightarrow> int \<Rightarrow> string" where
  "MaskAmount hmac getenv amount = take 12 (hex_string (hmac (getAmountSecret getenv) (Itoa amount)))"

section \<open>Tracing\<close>

definition TrimPrefix :: "string \<Rightarrow> string \<Rightarrow> string" where
  "TrimPrefix s p = (if starts_with p s then drop (length p) s else s)"

definition autoProfileEnabled :: "(string \<Rightarrow> string) \<Rightarrow> bool" where
  "autoProfileEnabled getenv = (getenv ''INSTANA_AUTO_PROFILE'' = ''true'')"

text \<open>The actions of a shutdown function, each with the time it is given in nanoseconds, and what \<^verbatim>\<open>Init\<close>
  has set: the collector's profiling flag, the propagator, the tracer provider and its endpoint.\<close>

datatype shutdown_action = ProviderShutdown int | InstanaFlush int

record tracing_state =
  ts_autoProfile :: bool
  ts_propagator :: bool
  ts_provider :: "string option"
  ts_shutdown :: "shutdown_action list"

definition tracing_Init ::
  "(string \<Rightarrow> string) \<Rightarrow> (string \<Rightarrow> goerr option) \<Rightarrow> goerr option \<Rightarrow> string \<Rightarrow> tracing_state" where
  "tracing_Init getenv newExporter newResource otlpEndpoint =
     (let s0 = \<lparr>ts_autoProfile = autoProfileEnabled getenv, ts_propagator = False, ts_provider = None,
                ts_shutdown = [InstanaFlush 3000000000]\<rparr> in
      if otlpEndpoint = [] then s0\<lparr>ts_propagator := True\<rparr>
      else (let endpoint = TrimPrefix (TrimPrefix otlpEndpoint ''https://'') ''http://'' in
            case newExporter endpoint of
              Some e \<Rightarrow> s0
            | None \<Rightarrow>
                (case newResource of
                   Some e \<Rightarrow> s0
                 | None \<Rightarrow> s0\<lparr>ts_propagator := True, ts_provider := Some endpoint,
                              ts_shutdown := [ProviderShutdown 5000000000, InstanaFlush 3000000000]\<rparr>)))"

section \<open>Trace sampling\<close>

text \<open>\<open>parse\<close> is \<^verbatim>\<open>strconv.ParseFloat\<close>, \<open>unit_interval\<close> the test \<^verbatim>\<open>v >= 0 && v <= 1\<close>, \<open>one_percent\<close> the constant.\<close>

definition natsTraceSampleRate ::
  "(string \<Rightarrow> 'f option) \<Rightarrow> ('f \<Rightarrow> bool) \<Rightarrow> 'f \<Rightarrow> (string \<Rightarrow> string) \<Rightarrow> 'f" where
  "natsTraceSampleRate parse unit_interval one_percent getenv =
     (let s = getenv ''NATS_TRACE_SAMPLE_RATE'' in
      if s \<noteq> []
      then (case parse s of Some v \<Rightarrow> (if unit_interval v then v else one_percent) | None \<Rightarrow> one_percent)
      else one_percent)"

section \<open>Metrics\<close>

datatype metric_kind = Counter | Gauge | Histogram

record metric =
  me_kind :: metric_kind
  me_name :: string
  me_help :: string
  me_constLabels :: "(string \<times> string) list"
  me_labels :: "string list"

text \<open>\<open>mustRegister\<close> adds collectors to the registry; \<open>None\<close> is a panic.\<close>

definition NewConsumerMetrics ::
  "(metric list \<Rightarrow> 'g \<Rightarrow> 'g option) \<Rightarrow> string \<Rightarrow> 'g \<Rightarrow> (metric list \<times> 'g) option" where
  "NewConsumerMetrics mustRegister service registry =
     (let labels = [(''service'', service)];
          ms = [\<lparr>me_kind = Counter, me_name = ''nats_messages_total'',
                 me_help = ''Total NATS messages processed, partitioned by action and status code.'',
                 me_constLabels = labels, me_labels = [''action'', ''status'']\<rparr>,
                \<lparr>me_kind = Histogram, me_name = ''nats_handler_duration_seconds'',
                 me_help = ''NATS handler execution time in seconds.'', me_constLabels = labels, me_labels = [''action'']\<rparr>,
                \<lparr>me_kind = Counter, me_name = ''nats_reconnects_total'', me_help = ''Total NATS broker reconnect attempts.'',
                 me_constLabels = labels, me_labels = []\<rparr>]
      in map_option (\<lambda>g. (ms, g)) (mustRegister ms registry))"

definition producer_metrics :: "metric list" where
  "producer_metrics =
     [\<lparr>me_kind = Counter, me_name = ''http_requests_total'', me_help = ''Total HTTP requests handled by api-producer.'',
       me_constLabels = [], me_labels = [''method'', ''route'', ''status'']\<rparr>,
      \<lparr>me_kind = Histogram, me_name = ''http_request_duration_seconds'', me_help = ''HTTP request duration.'',
       me_constLabels = [], me_labels = [''method'', ''route'']\<rparr>,
      \<lparr>me_kind = Counter, me_name = ''rpc_requests_total'', me_help = ''Total RPC requests published.'',
       me_constLabels = [], me_labels = [''queue'', ''status'']\<rparr>,
      \<lparr>me_kind = Histogram, me_name = ''rpc_roundtrip_duration_seconds'', me_help = ''RPC roundtrip duration.'',
       me_constLabels = [], me_labels = [''queue'']\<rparr>,
      \<lparr>me_kind = Counter, me_name = ''rpc_timeouts_total'', me_help = ''Total RPC timeout count.'',
       me_constLabels = [], me_labels = []\<rparr>,
      \<lparr>me_kind = Counter, me_name = ''rpc_publish_errors_total'',
       me_help = ''Total RPC publish errors (ErrNoResponders, marshal errors, NATS errors).'',
       me_constLabels = [], me_labels = []\<rparr>,
      \<lparr>me_kind = Gauge, me_name = ''rpc_inflight_requests'', me_help = ''Current in-flight RPC requests.'',
       me_constLabels = [], me_labels = []\<rparr>,
      \<lparr>me_kind = Gauge, me_name = ''nats_connected'', me_help = ''Whether the NATS connection is active (1) or not (0).'',
       me_constLabels = [], me_labels = []\<rparr>]"

definition newMetrics :: "(metric list \<Rightarrow> 'g \<Rightarrow> 'g option) \<Rightarrow> 'g \<Rightarrow> (metric list \<times> 'g) option" where
  "newMetrics mustRegister registry = map_option (\<lambda>g. (producer_metrics, g)) (mustRegister producer_metrics registry)"

text \<open>A registry that refuses a second instrument of the same name.\<close>

definition by_name :: "metric list \<Rightarrow> string set \<Rightarrow> string set option" where
  "by_name ms names =
     (if distinct (map me_name ms) \<and> set (map me_name ms) \<inter> names = {} then Some (names \<union> set (map me_name ms)) else None)"

section \<open>Facts\<close>

lemma hex_string_length: "length (hex_string bs) = 2 * length bs"
  by (induction bs) (simp_all add: hex_string_def)

lemma MaskAmount_length: "length (hmac (getAmountSecret getenv) (Itoa a)) = 32 \<Longrightarrow> length (MaskAmount hmac getenv a) = 12"
  by (simp add: MaskAmount_def hex_string_length)

lemma natsTraceSampleRate_range:
  "unit_interval one_percent \<Longrightarrow> unit_interval (natsTraceSampleRate parse unit_interval one_percent getenv)"
  by (simp add: natsTraceSampleRate_def Let_def split: option.splits)

text \<open>The shutdown function ends within eight seconds, whatever \<^verbatim>\<open>Init\<close> could set up.\<close>

fun action_time :: "shutdown_action \<Rightarrow> int" where
  "action_time (ProviderShutdown t) = t"
| "action_time (InstanaFlush t) = t"

lemma tracing_shutdown_bounded:
  "sum_list (map action_time (ts_shutdown (tracing_Init getenv newExporter newResource otlpEndpoint))) \<le> 8000000000 \<and>
   ts_shutdown (tracing_Init getenv newExporter newResource otlpEndpoint) \<noteq> []"
  by (simp add: tracing_Init_def Let_def split: option.splits)

text \<open>In a fresh process no two instruments collide, so creating them does not panic.\<close>

lemma newMetrics_no_panic: "newMetrics by_name {} \<noteq> None" "NewConsumerMetrics by_name service {} \<noteq> None"
  by (simp_all add: newMetrics_def NewConsumerMetrics_def by_name_def producer_metrics_def Let_def)

end
