(* ===== verification/Spec2Isabelle.thy ===== *)
theory Spec2Isabelle
  imports Schema_Migrations Transfer_Liveness Projection_Limits Duplicate_Names Presence Statistics_Load
    Status_Types Gateway_Router Gateway_Metrics Startup Telemetry
begin

text \<open>
  \<^bold>\<open>Verification of the banking services\<close>

  The program is a set of Go processes. The gateway (\<^verbatim>\<open>producer/\<close>) turns HTTP requests into NATS
  requests on subjects such as \<^verbatim>\<open>banking.transfer.transfer\<close> and the replies into HTTP responses. Four
  services (\<^verbatim>\<open>services/auth-service\<close>, \<^verbatim>\<open>account-service\<close>, \<^verbatim>\<open>transfer-service\<close>, \<^verbatim>\<open>notification-service\<close>)
  answer them, through the RPC framework of \<^verbatim>\<open>internal/nats/consumer.go\<close> with its session and admin
  middleware. They keep users, transfers and notifications in PostgreSQL (\<^verbatim>\<open>internal/db\<close>); sessions,
  a login cache, presence, a balance read model and notification channels in Redis
  (\<^verbatim>\<open>internal/redis\<close>); and transfer events in a JetStream stream (\<^verbatim>\<open>internal/nats/jetstream.go\<close>), from
  which a projection of the account service rebuilds the balance read model.

  \<^bold>\<open>How it is modelled\<close>

  PostgreSQL with its driver, Redis, JetStream, bcrypt, the random sources and the float conversion are
  not part of the repository. They are arguments of the definitions: records of the functions the
  code calls (\<open>bobdb\<close>, \<open>redis\<close>, \<open>jetstream\<close>) and plain functions. What the code relies on is stated in
  locales over the state behind the clients: \<open>postgres\<close> (a statement does what its SQL says, or fails
  with a justified error; a lost connection may hide that it took effect), \<open>tx_runner\<close> (a transaction
  takes effect as a whole at one moment of a serial order, or not at all, or, when the connection is
  lost while committing, one of both), \<open>redis_service\<close> (a failed pipeline may have been executed in
  part; keys may expire), \<open>jetstream_service\<close>, and their reliable extensions without faults.
  \<open>shared_postgres\<close> is the database outside serializable transactions, where other sessions commit before
  every statement, within a relation \<open>others\<close>; \<open>read_committed\<close> is a read-only transaction there.
  \<open>transfer_backend\<close> and \<open>reliable_backend\<close> combine them for the transfer service; \<open>guard\<close> is what the session
  and the admin middleware promise to the handlers behind them; \<open>bank_services\<close> puts everything together
  that the system of all four services uses; \<open>chi_router\<close> is the documented behaviour of the router
  package of the gateway. Each locale is interpreted on an executable in-memory service with scripted faults (\<open>mem_bob\<close>, \<open>mem_RunInTx\<close>,
  \<open>mem_redis\<close>, \<open>mem_js\<close>), on which the witnesses run the handlers. Properties take the locale
  predicates as hypotheses, so they hold for every service that keeps the laws.

  A handler is a function from context, action, payload, headers and world to a result and a new
  world (\<open>world\<close>: the states behind the three clients). Errors are values of \<open>goerr\<close>; a returned Go error
  is \<open>Inl\<close>, an RPC reply \<open>reply status body\<close>. Integers are \<open>int\<close> with the 64-bit wrap \<open>i64\<close> written out where
  the code computes. JSON messages are values of \<open>json\<close>, with the decoding rules of \<^verbatim>\<open>encoding/json\<close>
  the services depend on. Goroutines that interleave are step relations: \<open>ws_step\<close> (a WebSocket
  connection), \<open>subscribe_step\<close> (the goroutine of a Redis subscription), \<open>run_step\<close> (the goroutines of a
  process; \<open>signal_arrives\<close> is the operating system's part), \<open>rm_step\<close> and \<open>limited_step\<close> (concurrent
  transfers, the projection and the back-fills of balance requests), \<open>sys_step\<close> (the HTTP requests of
  all clients).

  \<^bold>\<open>Theories\<close>

  \<^item> \<open>Go_Prelude\<close>, \<open>Go_Strings\<close>, \<open>Go_Json\<close>, \<open>Go_Scan\<close>: errors and wrapping, 64-bit arithmetic, \<^verbatim>\<open>strconv\<close> and
    \<^verbatim>\<open>strings\<close>, JSON, \<^verbatim>\<open>fmt.Sscan\<close>.
  \<^item> \<open>Db_Model\<close>, \<open>Db_Service\<close>, \<open>Db_Memory\<close>, \<open>Db_Access\<close>, \<open>Db_Shared\<close>: tables with the constraints of \<^verbatim>\<open>migrations/\<close>
    (\<open>db_wf\<close>), the statements the code sends, the database locales and their instances, and
    \<^verbatim>\<open>internal/db/db.go\<close> with the retry loop \<open>SerializableTx\<close>.
  \<^item> \<open>Schema_Migrations\<close>: the files of \<^verbatim>\<open>migrations/\<close> and the init scripts of the Helm chart as lists of DDL
    statements, carried out on a schema and the rows stored under it.
  \<^item> \<open>Redis_Service\<close>, \<open>Redis_Access\<close>, \<open>Redis_Subscribe\<close>: the Redis locale and its instance, the commands and the
    subscription of \<^verbatim>\<open>internal/redis/redis.go\<close>.
  \<^item> \<open>Rpc_Consumer\<close>, \<open>Jetstream\<close>: \<^verbatim>\<open>internal/nats\<close>.
  \<^item> \<open>Masking_Passwords\<close>, \<open>Telemetry\<close>: \<^verbatim>\<open>internal/logging\<close>, \<^verbatim>\<open>internal/auth\<close>, \<^verbatim>\<open>internal/tracing\<close>,
    \<^verbatim>\<open>internal/metrics\<close>.
  \<^item> \<open>Transfer_Service\<close>, \<open>Auth_Service\<close>, \<open>Account_Service\<close>, \<open>Notification_Service\<close>: the handlers, one definition
    per Go function, with the names of the source.
  \<^item> \<open>Service_Runtime\<close>, \<open>Startup\<close>: \<^verbatim>\<open>internal/service\<close>, \<^verbatim>\<open>internal/health\<close>, \<^verbatim>\<open>Consumer.Run\<close> and the \<^verbatim>\<open>main.go\<close> files.
  \<^item> \<open>Producer\<close>, \<open>Gateway_Router\<close>, \<open>Gateway_Metrics\<close>: the gateway, its router, and its handlers once more with the
    instruments they update (and \<^verbatim>\<open>dispatch\<close> of the consumers with theirs). \<open>Wiring\<close>: the consumers the services register, and \<open>serve\<close>, the transport that
    hands a request to the registered handler.
  \<^item> \<open>Sample_World\<close>: the small world on which witnesses are evaluated.

  \<^bold>\<open>What is shown\<close>

  \<^item> Transfers (\<open>Transfer_Proofs\<close>, \<open>Transfer_Props\<close>, \<open>Transfer_Liveness\<close>): the contract \<open>transfer_spec\<close> and
    \<open>transfer_refused\<close>; a success is exactly one transfer of the contract, whatever number of attempts
    was made and whatever other sessions committed meanwhile; a failure changes nothing but for a
    commit whose answer was lost; refusals are true; money is conserved; without Redis faults the
    balance hash and the channels follow and nothing else in Redis changes but the two cache entries
    under the parties' phones; without faults the reply is determined by the tables; the back-off is
    bounded; a repeated request is a second transfer with an event of its own.
  \<^item> Accounts and sessions (\<open>Auth_Props\<close>, \<open>Account_Props\<close>, \<open>Account_Reads\<close>, \<open>Notification_Props\<close>): what registration, login,
    logout, listings, balances, look-ups and acknowledgements do on success and on refusal; how many
    of the reported pages can be fetched; which frames a WebSocket carries, in every interleaving.
  \<^item> The bank (\<open>Bank_Ledger\<close>, \<open>Bank_Handlers\<close>, \<open>Bank_System\<close>): an abstract machine over the tables with three events, an
    account opened, money moved, a notification read; every HTTP request, whatever it carries and
    whatever fails, is at most one of them, one that the session of the request is entitled to. After
    any sequence of requests from the empty tables the schema holds (\<open>db_wf\<close>), every balance is the
    opening balance plus what was received minus what was sent, and history is only appended to;
    nobody's balance falls by a request that does not carry their own session, whatever sessions of
    other users do meanwhile. Between the statements
    of a request, and while its transaction backs off, other sessions may make any number of events
    (rely and guarantee are the same). Listings, registration and statistics (\<open>Statistics_Load\<close>) are exact
    for the moments of their statements, and what that leaves of their consistency is proved.
  \<^item> The schema (\<open>Schema_Migrations\<close>): the migrations and the chart build the same schema, which is what
    \<open>db_wf\<close> says; statements fail on it as \<open>sql_errs\<close> says; the migrations can be taken back.
  \<^item> The API (\<open>Status_Types\<close>, \<open>Gateway_Router\<close>, \<open>Gateway_Metrics\<close>): the statuses each route can answer with; the
    route table is unambiguous, and a URL is answered with what the handler of its route returns;
    metrics do not change what is answered and count every request once.
  \<^item> The system (\<open>Gateway_Payload\<close>, \<open>System_Props\<close>, \<open>Read_Model\<close>, \<open>Projection_Limits\<close>, \<open>Login_Cache\<close>,
    \<open>Duplicate_Names\<close>): payloads with the documented members survive the gateway, routes and
    endpoints fit together, nothing is reachable without a session or the admin secret, a 200 from
    \<^verbatim>\<open>POST /api/transfers\<close> means the transfer took place for the user of the session; the read model
    converges when handlers finish in commit order and no back-fill of a balance request is late, can
    stay stale when handlers overtake each other or a back-fill is late, and stays stale
    after an outage of Redis that outlasts the deliveries of an event; a login by user name can show
    a stale balance; user names are not unique, so a namesake who logs in shuts a user out of the login by
    name while cached, and a payment by name can go to either.
  \<^item> Presence (\<open>Notification_Props\<close>, \<open>Presence\<close>): the heartbeat is in time, and the two ways in which the
    presence key is wrong: a late heartbeat, and a second connection of the same user.
  \<^item> Processes (\<open>Service_Runtime\<close>, \<open>Startup\<close>, \<open>Producer\<close>): once a signal came in or the HTTP server
    failed, services shut down in every interleaving, and their \<^verbatim>\<open>run\<close> gives back what it opened; the
    auth and the notification service run and end normally even when they never reached NATS, and the
    consume context of the projection is never stopped; the gateway does not end on a signal.

  \<^bold>\<open>Bounds\<close>

  Loops are structural: \<open>retry_loop\<close> runs over the five attempts of \<open>maxSerializableRetries\<close>, \<open>register_loop\<close>
  over the twenty of \<open>maxAttempts\<close>; nothing runs on fuel. Between the attempts of a transaction other
  sessions may change the tables (\<open>interference\<close>), and between statements outside transactions
  (\<open>busy\<close>), under the hypothesis that they keep the schema (\<open>keeps_wf\<close>, \<open>stable_wf\<close>) or, for the system, are
  sessions of the same bank. An event is delivered at most
  \<open>cc_MaxDeliver\<close> times, a subscription buffers at most 16 messages. The numbers of a POST body are kept up to 2 to the 53rd (\<open>plain_value\<close>).

  \<^bold>\<open>Not modelled\<close>

  Log lines and spans (no service reads them back); the handling of CORS requests and the tracing
  wrappers of the gateway, which are library code; TLS and connection handling inside the client libraries; the parsing of connection
  strings and environment variables by libraries; the frontend, the deployment files and the tests.
  A transfer request is taken to begin at the place of its first attempt in the serial order. The
  timing of expiry is left open: a key with a time to live may vanish at any command. Locks taken
  by the migrations and the settings of the statistics collector are not modelled.
\<close>

end
